(* ===== verification/DB_Prelude.thy ===== *)
theory DB_Prelude
  imports Main "HOL-Library.Word"
begin

section \<open>Machine types, faults and byte-level memory\<close>

text \<open>
  Vocabulary shared by every component: the fixed-width integer types of the C++ sources as
  words, the ways a C++ computation can go wrong as values of a datatype, the sequencing of
  computations that may fail, the little-endian layout of integers in memory (the sources
  copy integers with memcpy and reinterpret casts; the layout is that of the x86-64 target)
  and reads and writes in a bounded block of memory whose cells may be uninitialised.
\<close>

unbundle bit_operations_syntax

type_synonym byte = "8 word"
type_synonym u16 = "16 word"
type_synonym u32 = "32 word"
type_synonym u64 = "64 word"

text \<open>A memory cell is \<open>None\<close> until the program has written it.\<close>

type_synonym cell = "byte option"

named_theorems mem_simps \<open>reads and writes of memory blocks\<close>
named_theorems layout_simps \<open>lengths and positions inside an encoded tuple\<close>

subsection \<open>Faults\<close>

text \<open>
  What stops a computation of the sources without returning: a loop that has not finished
  within the fuel of the model, the dereference of a null or dangling pointer, an access
  outside its block, the use of a value that was never written, a failed \<open>assert\<close>, and a
  C++ exception that leaves the function.
\<close>

datatype fault = Out_of_fuel | Null_pointer | Out_of_bounds | Uninitialised
  | Assert_failed | Process_exit | Cxx_exception

type_synonym 'a res = "fault + 'a"

definition bind_res :: "'a res \<Rightarrow> ('a \<Rightarrow> 'b res) \<Rightarrow> 'b res" where
  "bind_res m f = (case m of Inl e \<Rightarrow> Inl e | Inr x \<Rightarrow> f x)"

lemma bind_res_simps [simp]:
  "bind_res (Inl e) f = Inl e"
  "bind_res (Inr x) f = f x"
  by (simp_all add: bind_res_def)

text \<open>The continuation is simplified only once the first computation is known to return.\<close>

lemma bind_res_weak_cong [cong]: "m = m' \<Longrightarrow> bind_res m f = bind_res m' f"
  by simp

lemma bind_res_eq_Inr [simp]:
  "bind_res m f = Inr y \<longleftrightarrow> (\<exists>x. m = Inr x \<and> f x = Inr y)"
  by (cases m) auto

lemma bind_res_eq_Inl:
  "bind_res m f = Inl e \<longleftrightarrow> m = Inl e \<or> (\<exists>x. m = Inr x \<and> f x = Inl e)"
  by (cases m) auto

lemma bind_res_Inr_right: "bind_res m Inr = m"
  by (cases m) simp_all

lemma bind_res_assoc: "bind_res (bind_res m f) g = bind_res m (\<lambda>x. bind_res (f x) g)"
  by (cases m) auto

definition assert_res :: "bool \<Rightarrow> unit res" where
  "assert_res b = (if b then Inr () else Inl Assert_failed)"

lemma assert_res_simps [simp]:
  "assert_res True = Inr ()"
  "assert_res False = Inl Assert_failed"
  "assert_res b = Inr u \<longleftrightarrow> b"
  by (simp_all add: assert_res_def)

text \<open>\<open>vector\<close> indexing without a bounds check: undefined outside the vector.\<close>

definition nth_res :: "'a list \<Rightarrow> nat \<Rightarrow> 'a res" where
  "nth_res xs i = (if i < length xs then Inr (xs ! i) else Inl Out_of_bounds)"

lemma nth_res_Inr [simp]: "i < length xs \<Longrightarrow> nth_res xs i = Inr (xs ! i)"
  by (simp add: nth_res_def)

lemma nth_res_eq_Inr: "nth_res xs i = Inr x \<longleftrightarrow> i < length xs \<and> xs ! i = x"
  by (simp add: nth_res_def)

fun map_res :: "('a \<Rightarrow> 'b res) \<Rightarrow> 'a list \<Rightarrow> 'b list res" where
  "map_res f [] = Inr []"
| "map_res f (x # xs) = bind_res (f x) (\<lambda>y. bind_res (map_res f xs) (\<lambda>ys. Inr (y # ys)))"

lemma map_res_Inr: "(\<And>x. x \<in> set xs \<Longrightarrow> f x = Inr (g x)) \<Longrightarrow> map_res f xs = Inr (map g xs)"
  by (induction xs) auto

lemma map_res_length: "map_res f xs = Inr ys \<Longrightarrow> length ys = length xs"
  by (induction xs arbitrary: ys) auto

subsection \<open>Integers in memory\<close>

text \<open>The \<open>n\<close> low bytes of a word, least significant byte first.\<close>

primrec le_bytes :: "nat \<Rightarrow> 'a::len word \<Rightarrow> byte list" where
  "le_bytes 0 w = []"
| "le_bytes (Suc n) w = ucast w # le_bytes n (drop_bit 8 w)"

fun le_word :: "byte list \<Rightarrow> 'a::len word" where
  "le_word [] = 0"
| "le_word (b # bs) = ucast b OR push_bit 8 (le_word bs)"

lemma length_le_bytes [simp]: "length (le_bytes n w) = n"
  by (induction n arbitrary: w) auto

lemma bit_le_word_le_bytes:
  "bit (le_word (le_bytes n w) :: 'a::len word) k \<longleftrightarrow> k < 8 * n \<and> bit (w :: 'a word) k"
proof (induction n arbitrary: w k)
  case 0
  then show ?case by simp
next
  case (Suc n)
  show ?case
  proof (cases "k < 8")
    case True
    then show ?thesis
      by (auto simp: bit_simps dest: bit_imp_le_length)
  next
    case False
    then show ?thesis
      by (auto simp: bit_simps Suc.IH dest: bit_imp_le_length)
  qed
qed

lemma le_word_le_bytes [simp]:
  assumes "LENGTH('a::len) \<le> 8 * n"
  shows "le_word (le_bytes n w) = (w :: 'a word)"
  using assms by (intro bit_eqI) (auto simp: bit_le_word_le_bytes dest: bit_imp_le_length)

text \<open>Network byte order: what \<open>htonl\<close> and \<open>htons\<close> leave in memory.\<close>

definition be_bytes :: "nat \<Rightarrow> 'a::len word \<Rightarrow> byte list" where
  "be_bytes n w = rev (le_bytes n w)"

definition be_word :: "byte list \<Rightarrow> 'a::len word" where
  "be_word bs = le_word (rev bs)"

lemma length_be_bytes [simp]: "length (be_bytes n w) = n"
  by (simp add: be_bytes_def)

lemma be_word_be_bytes [simp]:
  "LENGTH('a::len) \<le> 8 * n \<Longrightarrow> be_word (be_bytes n w) = (w :: 'a word)"
  by (simp add: be_word_def be_bytes_def)

subsection \<open>Characters and bytes\<close>

definition byte_of_char :: "char \<Rightarrow> byte" where
  "byte_of_char c = of_char c"

definition char_of_byte :: "byte \<Rightarrow> char" where
  "char_of_byte b = char_of (unat b)"

lemma unat_byte_of_char [simp]: "unat (byte_of_char c) = of_char c"
proof -
  have "(of_char c :: nat) < 256" by (rule nat_of_char_less_256)
  moreover have "(of_char c :: byte) = of_nat (of_char c)" by (simp add: of_nat_of_char)
  ultimately show ?thesis
    by (simp add: byte_of_char_def unat_of_nat)
qed

lemma char_of_byte_of_char [simp]: "char_of_byte (byte_of_char c) = c"
  by (simp add: char_of_byte_def)

lemma byte_of_char_of_byte [simp]: "byte_of_char (char_of_byte b) = b"
proof -
  have "unat b < 256" using unsigned_less [of b] by simp
  then have "unat (byte_of_char (char_of_byte b)) = unat b"
    by (simp add: char_of_byte_def)
  then show ?thesis by (rule word_unat_eq_iff [THEN iffD2])
qed

definition bytes_of :: "string \<Rightarrow> byte list" where
  "bytes_of s = map byte_of_char s"

definition string_of :: "byte list \<Rightarrow> string" where
  "string_of bs = map char_of_byte bs"

lemma string_of_bytes_of [simp]: "string_of (bytes_of s) = s"
  by (simp add: string_of_def bytes_of_def o_def)

lemma bytes_of_string_of [simp]: "bytes_of (string_of bs) = bs"
  by (simp add: string_of_def bytes_of_def o_def)

lemma length_bytes_of [simp]: "length (bytes_of s) = length s"
  by (simp add: bytes_of_def)

lemma length_string_of [simp]: "length (string_of bs) = length bs"
  by (simp add: string_of_def)

subsection \<open>Blocks of memory\<close>

text \<open>A pointer into a block is modelled by the cells from the pointer to the end of the block.\<close>

definition deref :: "nat \<Rightarrow> cell list \<Rightarrow> byte list res" where
  "deref n p =
     (if length p < n then Inl Out_of_bounds
      else if None \<in> set (take n p) then Inl Uninitialised
      else Inr (map the (take n p)))"

definition load_bytes :: "cell list \<Rightarrow> nat \<Rightarrow> nat \<Rightarrow> byte list res" where
  "load_bytes m off n = deref n (drop off m)"

definition store_cells :: "cell list \<Rightarrow> nat \<Rightarrow> cell list \<Rightarrow> cell list res" where
  "store_cells m off cs =
     (if off + length cs \<le> length m
      then Inr (take off m @ cs @ drop (off + length cs) m) else Inl Out_of_bounds)"

definition store_bytes :: "cell list \<Rightarrow> nat \<Rightarrow> byte list \<Rightarrow> cell list res" where
  "store_bytes m off bs = store_cells m off (map Some bs)"

lemma deref_append [mem_simps]: "deref (length bs) (map Some bs @ rest) = Inr bs"
  by (auto simp: deref_def o_def)

lemma deref_append_n [mem_simps]: "n = length bs \<Longrightarrow> deref n (map Some bs @ rest) = Inr bs"
  by (simp add: deref_append)

lemma deref_length: "deref n p = Inr bs \<Longrightarrow> length bs = n \<and> n \<le> length p"
  by (auto simp: deref_def split: if_splits)

lemma store_cells_length: "store_cells m off cs = Inr m' \<Longrightarrow> length m' = length m"
  by (auto simp: store_cells_def split: if_splits)

lemma store_bytes_length: "store_bytes m off bs = Inr m' \<Longrightarrow> length m' = length m"
  by (auto simp: store_bytes_def dest: store_cells_length)

lemma store_cells_at [mem_simps]:
  "off = length pre \<Longrightarrow> length old = length cs \<Longrightarrow>
   store_cells (pre @ old @ post) off cs = Inr (pre @ cs @ post)"
  by (simp add: store_cells_def)

lemma store_bytes_at [mem_simps]:
  "off = length pre \<Longrightarrow> length old = length bs \<Longrightarrow>
   store_bytes (pre @ old @ post) off bs = Inr (pre @ map Some bs @ post)"
  by (simp add: store_bytes_def store_cells_at)

lemma load_bytes_at [mem_simps]:
  "off = length pre \<Longrightarrow> n = length bs \<Longrightarrow>
   load_bytes (pre @ map Some bs @ post) off n = Inr bs"
  by (simp add: load_bytes_def deref_append)

lemma load_store_same:
  "store_bytes m off bs = Inr m' \<Longrightarrow> load_bytes m' off (length bs) = Inr bs"
  by (auto simp: store_bytes_def store_cells_def split: if_splits intro!: load_bytes_at)

lemma load_store_other:
  assumes "store_bytes m off bs = Inr m'" and "off' + n \<le> off \<or> off + length bs \<le> off'"
  shows "load_bytes m' off' n = load_bytes m off' n"
proof -
  from assms(1) have fit: "off + length bs \<le> length m"
    and m': "m' = take off m @ map Some bs @ drop (off + length bs) m"
    by (auto simp: store_bytes_def store_cells_def split: if_splits)
  have len: "length m' = length m" using fit by (simp add: m')
  have eq: "take n (drop off' m') = take n (drop off' m)"
  proof (rule nth_equalityI)
    show "length (take n (drop off' m')) = length (take n (drop off' m))"
      by (simp add: len)
    fix i assume "i < length (take n (drop off' m'))"
    then have i: "i < n" "off' + i < length m" by (auto simp: len)
    with assms(2) have "off' + i < off \<or> off + length bs \<le> off' + i" by auto
    then have "m' ! (off' + i) = m ! (off' + i)"
      using fit i by (auto simp: m' nth_append)
    then show "take n (drop off' m') ! i = take n (drop off' m) ! i"
      using i by (simp add: len)
  qed
  with len show ?thesis by (simp add: load_bytes_def deref_def)
qed

lemma map_upt_nth: "map (\<lambda>i. g (xs ! i)) [0..<length xs] = map g xs"
  by (rule nth_equalityI) simp_all

subsection \<open>Decimal text\<close>

text \<open>What \<open>std::stringstream << i\<close> writes for an integer, and the value such text denotes.\<close>

definition digit_char :: "nat \<Rightarrow> char" where
  "digit_char d = char_of (48 + d)"

definition digit_value :: "char \<Rightarrow> nat" where
  "digit_value c = of_char c - 48"

fun show_nat :: "nat \<Rightarrow> string" where
  "show_nat n = (if n < 10 then [digit_char n] else show_nat (n div 10) @ [digit_char (n mod 10)])"

declare show_nat.simps [simp del]

definition show_int :: "int \<Rightarrow> string" where
  "show_int i = (if i < 0 then CHR ''-'' # show_nat (nat (- i)) else show_nat (nat i))"

definition nat_value :: "string \<Rightarrow> nat" where
  "nat_value s = foldl (\<lambda>v c. v * 10 + digit_value c) 0 s"

definition int_value :: "string \<Rightarrow> int" where
  "int_value s = (case s of [] \<Rightarrow> 0
     | c # cs \<Rightarrow> if c = CHR ''-'' then - int (nat_value cs) else int (nat_value s))"

lemma digit_value_char [simp]: "d < 10 \<Longrightarrow> digit_value (digit_char d) = d"
  by (simp add: digit_value_def digit_char_def)

lemma nat_value_show_nat: "nat_value (show_nat n) = n"
proof (induction n rule: show_nat.induct)
  case (1 n)
  show ?case
  proof (cases "n < 10")
    case True
    then show ?thesis by (subst show_nat.simps) (simp add: nat_value_def)
  next
    case False
    with 1 have "nat_value (show_nat (n div 10)) = n div 10" by simp
    then have "nat_value (show_nat n) = n div 10 * 10 + n mod 10"
      using False by (subst show_nat.simps) (simp add: nat_value_def)
    then show ?thesis by simp
  qed
qed

lemma show_nat_digits: "set (show_nat n) \<subseteq> digit_char ` {..<10}"
proof (induction n rule: show_nat.induct)
  case (1 n)
  then show ?case by (subst show_nat.simps) auto
qed

lemma show_nat_Cons: "\<exists>d cs. d < 10 \<and> show_nat n = digit_char d # cs"
proof -
  have "show_nat n \<noteq> []" by (subst show_nat.simps) auto
  then obtain c cs where c: "show_nat n = c # cs" by (cases "show_nat n") auto
  with show_nat_digits [of n] show ?thesis by auto
qed

lemma digit_char_not_minus: "d < 10 \<Longrightarrow> digit_char d \<noteq> CHR ''-''"
proof
  assume "d < 10" "digit_char d = CHR ''-''"
  then have "(of_char (digit_char d) :: nat) = of_char (CHR ''-'')" by simp
  with \<open>d < 10\<close> show False by (simp add: digit_char_def)
qed

text \<open>Decimal text determines the integer.\<close>

lemma int_value_show_int: "int_value (show_int i) = i"
proof (cases "i < 0")
  case True
  then show ?thesis by (simp add: show_int_def int_value_def nat_value_show_nat)
next
  case False
  obtain d cs where d: "d < 10" "show_nat (nat i) = digit_char d # cs"
    using show_nat_Cons by blast
  then have "int_value (show_int i) = int (nat_value (show_nat (nat i)))"
    using False by (simp add: show_int_def int_value_def digit_char_not_minus)
  with False show ?thesis by (simp add: nat_value_show_nat)
qed

text \<open>A map given by two lists, extended at the end.\<close>

lemma map_of_zip_snoc:
  "length xs = length ys \<Longrightarrow> x \<notin> set xs \<Longrightarrow>
   (map_of (zip xs ys))(x \<mapsto> y) = map_of (zip (xs @ [x]) (ys @ [y]))"
  by (auto simp: fun_eq_iff map_add_def split: option.splits dest!: map_of_SomeD set_zip_leftD)

lemma nth_notin_take: "distinct xs \<Longrightarrow> k < length xs \<Longrightarrow> xs ! k \<notin> set (take k xs)"
  using distinct_take [of xs "Suc k"] by (simp add: take_Suc_conv_app_nth)

end
