(* ===== verification/Tuple_Store.thy ===== *)
theory Tuple_Store
  imports DB_Prelude
begin

section \<open>Tuples, slots and rows\<close>

text \<open>
  Models \<^verbatim>\<open>include/common/slot.h\<close>, \<^verbatim>\<open>include/common/tuple.h\<close>, \<^verbatim>\<open>common/tuple.cpp\<close> and
  \<^verbatim>\<open>include/common/tuple_row.h\<close>. A \<open>RawTuple\<close> is a block of memory that begins with an array of
  slots (two 16-bit integers each: offset and length of a value) and holds the values
  behind it. A \<open>Tuple\<close> is a shared pointer to such a block; \<open>None\<close> is the null pointer.
  The theory then gives the image of a list of values as a block, and shows that the image
  is what writing the values one after the other produces and that every value is read
  back from it through its slot.
\<close>

subsection \<open>Slots and raw tuples\<close>

text \<open>\<open>sizeof(Slot)\<close>: two \<open>uint16_t\<close> members.\<close>

definition sizeof_Slot :: nat where
  "sizeof_Slot = 4"

record Slot =
  offset :: u16
  len :: u16

type_synonym raw_tuple = "cell list"
type_synonym Tuple = "raw_tuple option"

definition CreateTuple :: "nat \<Rightarrow> raw_tuple" where
  "CreateTuple n = replicate n None"

text \<open>\<open>GetValue\<close> is pointer arithmetic; the model keeps the cells behind the pointer.\<close>

definition RawTuple_GetValue :: "raw_tuple \<Rightarrow> nat \<Rightarrow> cell list" where
  "RawTuple_GetValue t off = drop off t"

definition RawTuple_GetInteger :: "raw_tuple \<Rightarrow> nat \<Rightarrow> u64 res" where
  "RawTuple_GetInteger t off =
     bind_res (deref 8 (RawTuple_GetValue t off)) (\<lambda>bs. Inr (le_word bs))"

text \<open>A \<open>double\<close> is kept as its 64-bit pattern.\<close>

definition RawTuple_GetDouble :: "raw_tuple \<Rightarrow> nat \<Rightarrow> u64 res" where
  "RawTuple_GetDouble t off =
     bind_res (deref 8 (RawTuple_GetValue t off)) (\<lambda>bs. Inr (le_word bs))"

definition RawTuple_SetValue :: "raw_tuple \<Rightarrow> nat \<Rightarrow> cell list \<Rightarrow> raw_tuple res" where
  "RawTuple_SetValue t off data = store_cells t off data"

definition RawTuple_GetSlot :: "raw_tuple \<Rightarrow> nat \<Rightarrow> Slot res" where
  "RawTuple_GetSlot t n =
     bind_res (load_bytes t (sizeof_Slot * n) 2) (\<lambda>ob.
     bind_res (load_bytes t (sizeof_Slot * n + 2) 2) (\<lambda>lb.
     Inr \<lparr>offset = le_word ob, len = le_word lb\<rparr>))"

text \<open>The two assignments through a \<open>Slot *\<close>: \<open>slot->offset_ = v\<close> and \<open>slot->length_ = v\<close>.\<close>

definition set_slot_offset :: "raw_tuple \<Rightarrow> nat \<Rightarrow> u16 \<Rightarrow> raw_tuple res" where
  "set_slot_offset t n v = store_bytes t (sizeof_Slot * n) (le_bytes 2 v)"

definition set_slot_length :: "raw_tuple \<Rightarrow> nat \<Rightarrow> u16 \<Rightarrow> raw_tuple res" where
  "set_slot_length t n v = store_bytes t (sizeof_Slot * n + 2) (le_bytes 2 v)"

subsection \<open>Rows\<close>

text \<open>A \<open>TupleRow\<close> is a vector of tuples, all null after construction.\<close>

type_synonym TupleRow = "Tuple list"

definition TupleRow_new :: "nat \<Rightarrow> TupleRow" where
  "TupleRow_new n = replicate n None"

definition TupleRow_CopyTo :: "TupleRow \<Rightarrow> TupleRow \<Rightarrow> TupleRow" where
  "TupleRow_CopyTo src dest =
     (if length src \<le> length dest then src @ drop (length src) dest else dest)"

definition TupleRow_SetTuple :: "TupleRow \<Rightarrow> nat \<Rightarrow> Tuple \<Rightarrow> TupleRow res" where
  "TupleRow_SetTuple row n t =
     (if n < length row then Inr (row[n := t]) else Inl Out_of_bounds)"

definition TupleRow_GetTuple :: "TupleRow \<Rightarrow> nat \<Rightarrow> Tuple res" where
  "TupleRow_GetTuple row n = nth_res row n"

text \<open>Dereferencing a tuple pointer.\<close>

definition deref_tuple :: "Tuple \<Rightarrow> raw_tuple res" where
  "deref_tuple t = (case t of None \<Rightarrow> Inl Null_pointer | Some r \<Rightarrow> Inr r)"

lemma deref_tuple_simps [simp]:
  "deref_tuple None = Inl Null_pointer"
  "deref_tuple (Some r) = Inr r"
  by (simp_all add: deref_tuple_def)

lemma length_TupleRow_CopyTo [simp]: "length (TupleRow_CopyTo src dest) = length dest"
  by (simp add: TupleRow_CopyTo_def)

lemma TupleRow_CopyTo_same: "length src = length dest \<Longrightarrow> TupleRow_CopyTo src dest = src"
  by (simp add: TupleRow_CopyTo_def)

subsection \<open>The image of a list of values\<close>

fun slot_dir :: "nat \<Rightarrow> cell list list \<Rightarrow> cell list" where
  "slot_dir off [] = []"
| "slot_dir off (v # vs) =
     map Some (le_bytes 2 (of_nat off :: u16)) @ map Some (le_bytes 2 (of_nat (length v) :: u16))
     @ slot_dir (off + length v) vs"

definition tuple_image :: "cell list list \<Rightarrow> raw_tuple" where
  "tuple_image vs = slot_dir (sizeof_Slot * length vs) vs @ concat vs"

definition image_size :: "cell list list \<Rightarrow> nat" where
  "image_size vs = sizeof_Slot * length vs + length (concat vs)"

lemma length_slot_dir [layout_simps]: "length (slot_dir off vs) = 4 * length vs"
  by (induction vs arbitrary: off) auto

lemma length_tuple_image [layout_simps]: "length (tuple_image vs) = image_size vs"
  by (simp add: tuple_image_def image_size_def length_slot_dir sizeof_Slot_def)

lemma slot_dir_append:
  "slot_dir off (us @ vs) = slot_dir off us @ slot_dir (off + length (concat us)) vs"
  by (induction us arbitrary: off) (auto simp: add.assoc)

text \<open>The offset a slot holds.\<close>

definition value_offset :: "cell list list \<Rightarrow> nat \<Rightarrow> nat" where
  "value_offset vs i = sizeof_Slot * length vs + length (concat (take i vs))"

lemma split_at_nth: "i < length vs \<Longrightarrow> vs = take i vs @ vs ! i # drop (Suc i) vs"
  by (rule id_take_nth_drop)

lemma GetSlot_tuple_image:
  assumes "i < length vs"
  shows "RawTuple_GetSlot (tuple_image vs @ post) i =
    Inr \<lparr>offset = of_nat (value_offset vs i), len = of_nat (length (vs ! i))\<rparr>"
proof -
  let ?o = "le_bytes 2 (of_nat (value_offset vs i) :: u16)"
  let ?l = "le_bytes 2 (of_nat (length (vs ! i)) :: u16)"
  let ?pre = "slot_dir (4 * length vs) (take i vs)"
  let ?rest = "slot_dir (value_offset vs i + length (vs ! i)) (drop (Suc i) vs) @ concat vs @ post"
  have dir: "slot_dir (4 * length vs) vs = ?pre @ map Some ?o @ map Some ?l @
      slot_dir (value_offset vs i + length (vs ! i)) (drop (Suc i) vs)"
    by (subst (2) split_at_nth [OF assms], subst slot_dir_append)
       (simp add: value_offset_def sizeof_Slot_def)
  have img: "tuple_image vs @ post = ?pre @ map Some ?o @ (map Some ?l @ ?rest)"
    by (simp add: tuple_image_def sizeof_Slot_def dir)
  have pre: "length ?pre = 4 * i" using assms by (simp add: length_slot_dir)
  have "load_bytes (tuple_image vs @ post) (4 * i) 2 = Inr ?o"
    unfolding img by (rule load_bytes_at) (simp_all add: pre)
  moreover have "load_bytes (tuple_image vs @ post) (4 * i + 2) 2 = Inr ?l"
    using load_bytes_at [of "4 * i + 2" "?pre @ map Some ?o" 2 ?l ?rest]
    unfolding img by (simp add: pre)
  ultimately show ?thesis
    by (simp add: RawTuple_GetSlot_def sizeof_Slot_def)
qed

lemma GetValue_tuple_image:
  assumes "i < length vs"
  shows "RawTuple_GetValue (tuple_image vs @ post) (value_offset vs i) =
    vs ! i @ concat (drop (Suc i) vs) @ post"
proof -
  have "concat vs = concat (take i vs) @ vs ! i @ concat (drop (Suc i) vs)"
    by (subst split_at_nth [OF assms]) simp
  then show ?thesis
    by (simp add: RawTuple_GetValue_def tuple_image_def value_offset_def length_slot_dir
        sizeof_Slot_def)
qed

lemma value_offset_bound:
  assumes "i < length vs"
  shows "value_offset vs i + length (vs ! i) \<le> image_size vs"
proof -
  have "length (concat vs) =
      length (concat (take i vs)) + length (vs ! i) + length (concat (drop (Suc i) vs))"
    by (subst split_at_nth [OF assms]) simp
  then show ?thesis by (simp add: value_offset_def image_size_def)
qed

subsection \<open>Writing the values one after the other\<close>

text \<open>
  The writers of the sources (\<open>Project::GetNext\<close>, \<open>Load::Exec\<close>) go through the columns in
  order, store a value behind the values already stored and fill in its slot.
  \<open>filled n vs D T\<close> is the block after the values \<open>vs\<close> of \<open>n\<close> have been written: \<open>D\<close> is the
  rest of the slot array and \<open>T\<close> the rest of the block, with whatever they held before.
\<close>

definition filled :: "nat \<Rightarrow> cell list list \<Rightarrow> cell list \<Rightarrow> cell list \<Rightarrow> raw_tuple" where
  "filled n vs D T = slot_dir (sizeof_Slot * n) vs @ D @ concat vs @ T"

lemma filled_complete: "filled (length vs) vs [] T = tuple_image vs @ T"
  by (simp add: filled_def tuple_image_def)

lemma set_slot_filled [mem_simps]:
  assumes "i = length vs" and "length d = 2"
  shows "set_slot_offset (filled n vs (d @ D) T) i w =
      Inr (filled n vs (map Some (le_bytes 2 w) @ D) T)"
    and "length e = 2 \<Longrightarrow> set_slot_length (filled n vs (e @ d @ D) T) i w =
      Inr (filled n vs (e @ map Some (le_bytes 2 w) @ D) T)"
proof -
  let ?dir = "slot_dir (sizeof_Slot * n) vs"
  show "set_slot_offset (filled n vs (d @ D) T) i w =
      Inr (filled n vs (map Some (le_bytes 2 w) @ D) T)"
    using store_bytes_at [of "4 * i" ?dir d "le_bytes 2 w" "D @ concat vs @ T"] assms
    by (simp add: set_slot_offset_def filled_def sizeof_Slot_def length_slot_dir)
  show "set_slot_length (filled n vs (e @ d @ D) T) i w =
      Inr (filled n vs (e @ map Some (le_bytes 2 w) @ D) T)" if "length e = 2"
    using store_bytes_at [of "4 * i + 2" "?dir @ e" d "le_bytes 2 w" "D @ concat vs @ T"] assms that
    by (simp add: set_slot_length_def filled_def sizeof_Slot_def length_slot_dir)
qed

lemma SetValue_filled [mem_simps]:
  assumes "off = 4 * length vs + length D + length (concat vs)" and "length old = length v"
  shows "RawTuple_SetValue (filled n vs D (old @ T)) off v = Inr (filled n vs D (v @ T))"
  using store_cells_at [of off "slot_dir (sizeof_Slot * n) vs @ D @ concat vs" old v T] assms
  by (simp add: RawTuple_SetValue_def filled_def length_slot_dir)

lemma filled_snoc:
  "filled n vs (map Some (le_bytes 2 (of_nat (sizeof_Slot * n + length (concat vs)) :: u16))
      @ map Some (le_bytes 2 (of_nat (length v) :: u16)) @ D) (v @ T)
   = filled n (vs @ [v]) D T"
  by (simp add: filled_def slot_dir_append)

end
