(* ===== verification/Db_Types.thy ===== *)
theory Db_Types
  imports DB_Prelude
begin

section \<open>Enumerations of the system\<close>

text \<open>
  Models \<^verbatim>\<open>include/common/define.h\<close> with \<^verbatim>\<open>common/define.cpp\<close>, \<^verbatim>\<open>include/common/data_type.h\<close>,
  \<^verbatim>\<open>include/common/state.h\<close> and \<^verbatim>\<open>include/common/page_id.h\<close>: the operators and their ordered
  enumeration, the data types with their PostgreSQL object identifiers, the states that the
  executors return and page identifiers with their order.
\<close>

subsection \<open>Operators\<close>

datatype OperatorType =
    kInvalid | kAssign
  | kBooleanBegin
  | kCompareBegin | kEqual | kLess | kGreater | kLessOrEqual | kGreaterOrEqual | kCompareEnd
  | kLogicBegin | kAnd | kOr | kXor | kNot | kLogicEnd
  | kBooleanEnd
  | kArithmeticBegin | kArithmeticEnd

text \<open>The enumerators' values, and the order they induce.\<close>

primrec OperatorType_code :: "OperatorType \<Rightarrow> nat" where
  "OperatorType_code kInvalid = 0"
| "OperatorType_code kAssign = 1"
| "OperatorType_code kBooleanBegin = 2"
| "OperatorType_code kCompareBegin = 3"
| "OperatorType_code kEqual = 4"
| "OperatorType_code kLess = 5"
| "OperatorType_code kGreater = 6"
| "OperatorType_code kLessOrEqual = 7"
| "OperatorType_code kGreaterOrEqual = 8"
| "OperatorType_code kCompareEnd = 9"
| "OperatorType_code kLogicBegin = 10"
| "OperatorType_code kAnd = 11"
| "OperatorType_code kOr = 12"
| "OperatorType_code kXor = 13"
| "OperatorType_code kNot = 14"
| "OperatorType_code kLogicEnd = 15"
| "OperatorType_code kBooleanEnd = 16"
| "OperatorType_code kArithmeticBegin = 17"
| "OperatorType_code kArithmeticEnd = 18"

lemma OperatorType_code_inject [simp]: "OperatorType_code a = OperatorType_code b \<longleftrightarrow> a = b"
  by (cases a; cases b) simp_all

instantiation OperatorType :: linorder
begin

definition less_eq_OperatorType :: "OperatorType \<Rightarrow> OperatorType \<Rightarrow> bool" where
  "less_eq_OperatorType a b \<longleftrightarrow> OperatorType_code a \<le> OperatorType_code b"

definition less_OperatorType :: "OperatorType \<Rightarrow> OperatorType \<Rightarrow> bool" where
  "less_OperatorType a b \<longleftrightarrow> OperatorType_code a < OperatorType_code b"

instance
  by standard (auto simp: less_eq_OperatorType_def less_OperatorType_def)

end

definition IsArithmeticOperator :: "OperatorType \<Rightarrow> bool" where
  "IsArithmeticOperator t \<longleftrightarrow> t > kArithmeticBegin \<and> t < kArithmeticEnd"

definition IsBooleanOperator :: "OperatorType \<Rightarrow> bool" where
  "IsBooleanOperator t \<longleftrightarrow> t > kBooleanBegin \<and> t < kBooleanEnd"

definition IsLogicOperator :: "OperatorType \<Rightarrow> bool" where
  "IsLogicOperator t \<longleftrightarrow> t > kLogicBegin \<and> t < kLogicEnd"

definition IsCompareOperator :: "OperatorType \<Rightarrow> bool" where
  "IsCompareOperator t \<longleftrightarrow> t > kCompareBegin \<and> t < kCompareEnd"

lemmas operator_class_defs =
  IsArithmeticOperator_def IsBooleanOperator_def IsLogicOperator_def IsCompareOperator_def
  less_OperatorType_def

lemma IsCompareOperator_iff:
  "IsCompareOperator t \<longleftrightarrow> t \<in> {kEqual, kLess, kGreater, kLessOrEqual, kGreaterOrEqual}"
  by (cases t) (simp_all add: operator_class_defs)

lemma IsLogicOperator_iff: "IsLogicOperator t \<longleftrightarrow> t \<in> {kAnd, kOr, kXor, kNot}"
  by (cases t) (simp_all add: operator_class_defs)

lemma compare_not_logic: "IsCompareOperator t \<Longrightarrow> \<not> IsLogicOperator t"
  by (auto simp: IsCompareOperator_iff IsLogicOperator_iff)

text \<open>The comparison and the logic operators are boolean operators; no operator is arithmetic.\<close>

lemma operator_classes:
  "IsCompareOperator t \<or> IsLogicOperator t \<Longrightarrow> IsBooleanOperator t"
  "\<not> IsArithmeticOperator t"
  by (cases t; simp add: operator_class_defs)+

subsection \<open>Data types\<close>

text \<open>
  The enumerators carry PostgreSQL object identifiers. A \<open>DataType\<close> can also be made by a
  cast from an integer read from storage; \<open>kDTUnnamed\<close> holds a value no enumerator has.
\<close>

datatype DataType = kDTInvalid | kDTInteger | kDTFloat | kDTDate | kDTVarchar | kDTBoolean
  | kDTUnnamed u32

fun DataType_code :: "DataType \<Rightarrow> u32" where
  "DataType_code kDTInvalid = 0"
| "DataType_code kDTInteger = 20"
| "DataType_code kDTFloat = 701"
| "DataType_code kDTDate = 1082"
| "DataType_code kDTVarchar = 1043"
| "DataType_code kDTBoolean = 1044"
| "DataType_code (kDTUnnamed n) = n"

definition DataType_cast :: "u32 \<Rightarrow> DataType" where
  "DataType_cast n =
     (if n = 0 then kDTInvalid
      else if n = 20 then kDTInteger
      else if n = 701 then kDTFloat
      else if n = 1082 then kDTDate
      else if n = 1043 then kDTVarchar
      else if n = 1044 then kDTBoolean
      else kDTUnnamed n)"

definition named_type :: "DataType \<Rightarrow> bool" where
  "named_type t \<longleftrightarrow> (case t of kDTUnnamed _ \<Rightarrow> False | _ \<Rightarrow> True)"

lemma DataType_cast_code: "named_type t \<Longrightarrow> DataType_cast (DataType_code t) = t"
  by (cases t) (simp_all add: DataType_cast_def named_type_def)

subsection \<open>States\<close>

datatype State =
    kStateOK | kStateEOF | kStateOpenFileError | kStateLoadError | kStateParseError
  | kStateBuildError | kStateExecError | kStateFrontendTerminate | kStateRelationNotFound
  | kStateFileNotFind | kStateNameAmbiguous | kStateAttributeNotFound | kStateNotSupport
  | kStateInsertFailed

subsection \<open>Page identifiers\<close>

record PageID =
  fileno :: u32
  pageno :: u32

text \<open>\<open>~0\<close> in both members.\<close>

definition PageID_new :: PageID where
  "PageID_new = \<lparr>fileno = - 1, pageno = - 1\<rparr>"

definition PageID_Invalid :: "PageID \<Rightarrow> bool" where
  "PageID_Invalid p \<longleftrightarrow> fileno p = - 1 \<and> pageno p = - 1"

definition PageID_less :: "PageID \<Rightarrow> PageID \<Rightarrow> bool" where
  "PageID_less p q =
     (if fileno p = fileno q then pageno p < pageno q else fileno p < fileno q)"

definition PageID_equal :: "PageID \<Rightarrow> PageID \<Rightarrow> bool" where
  "PageID_equal p q \<longleftrightarrow> fileno p = fileno q \<and> pageno p = pageno q"

lemma PageID_equal_iff: "PageID_equal p q \<longleftrightarrow> p = q"
  by (auto simp: PageID_equal_def)

lemma PageID_less_irrefl: "\<not> PageID_less p p"
  by (simp add: PageID_less_def)

lemma PageID_less_trans: "PageID_less p q \<Longrightarrow> PageID_less q r \<Longrightarrow> PageID_less p r"
  by (auto simp: PageID_less_def split: if_splits)

lemma PageID_less_total: "PageID_less p q \<or> p = q \<or> PageID_less q p"
  by (auto simp: PageID_less_def PageID_equal_def)

end
