(* ===== verification/Schema.thy ===== *)
theory Schema
  imports Tuple_Store Db_Types
begin

section \<open>Attributes, relations and row descriptions\<close>

text \<open>
  Models \<^verbatim>\<open>include/common/attribute.h\<close>, \<^verbatim>\<open>common/attribute.cpp\<close>, \<^verbatim>\<open>include/common/relation.h\<close>,
  \<^verbatim>\<open>common/relation.cpp\<close>, \<^verbatim>\<open>include/common/row_desc.h\<close> and \<^verbatim>\<open>include/common/table_schema.h\<close>: the
  catalog objects, the columns of a relation in their order, and the tuples by which the
  system tables keep them (\<open>ToTuple\<close>, \<open>FromTuple\<close>), byte by byte.
\<close>

subsection \<open>Data\<close>

record Attribute =
  attr_name :: string
  attribute_index :: u32
  attr_id :: u32
  attr_relation_id :: u32
  max_length :: u32
  attr_data_type :: DataType
  attr_is_null :: bool
  is_variable :: bool

text \<open>The default constructor. The other one takes a name and does not store it.\<close>

definition Attribute_default :: Attribute where
  "Attribute_default = \<lparr>attr_name = [], attribute_index = 0, attr_id = 0, attr_relation_id = 0,
     max_length = 0, attr_data_type = kDTInvalid, attr_is_null = False, is_variable = False\<rparr>"

definition Attribute_new :: "string \<Rightarrow> u32 \<Rightarrow> u32 \<Rightarrow> DataType \<Rightarrow> u32 \<Rightarrow> bool \<Rightarrow> bool \<Rightarrow> Attribute" where
  "Attribute_new name relation_id attribute_id data_type n isnull variable =
     \<lparr>attr_name = [], attribute_index = 0, attr_id = attribute_id, attr_relation_id = relation_id,
      max_length = n, attr_data_type = data_type, attr_is_null = isnull, is_variable = variable\<rparr>"

text \<open>A column description; the relation identifier is not set by every producer.\<close>

record ColumnDesc =
  column_name :: string
  data_type :: DataType
  data_type_size :: u16
  cd_relation_id :: "u32 option"
  attribute_id :: u32
  nth_tuple :: u32
  nth_item :: u32

type_synonym RowDesc = "ColumnDesc list"

definition RowDesc_PushColumnDesc :: "RowDesc \<Rightarrow> ColumnDesc \<Rightarrow> RowDesc" where
  "RowDesc_PushColumnDesc d c = d @ [c]"

definition RowDesc_GetColumnDesc :: "RowDesc \<Rightarrow> nat \<Rightarrow> ColumnDesc res" where
  "RowDesc_GetColumnDesc d n = nth_res d n"

definition RowDesc_GetColumnCount :: "RowDesc \<Rightarrow> nat" where
  "RowDesc_GetColumnCount d = length d"

text \<open>The sizes are signed 16-bit integers; the sum is a \<open>size_t\<close>.\<close>

fun RowDesc_MaxSize :: "RowDesc \<Rightarrow> u64" where
  "RowDesc_MaxSize [] = 0"
| "RowDesc_MaxSize (c # cs) = scast (data_type_size c) + RowDesc_MaxSize cs"

record ColumnSchema =
  cs_name :: string
  cs_data_type :: DataType
  cs_length :: int
  cs_is_null :: bool
  is_primary_key :: bool

record TableSchema =
  ts_name :: string
  column_list :: "ColumnSchema list"

record Relation =
  rel_name :: string
  relation_id :: u32
  attributes :: "Attribute list"

definition Relation_new :: Relation where
  "Relation_new = \<lparr>rel_name = [], relation_id = 0, attributes = []\<rparr>"

subsection \<open>The columns of a relation\<close>

text \<open>\<open>FindAttribute\<close> returns the number of attributes when the name is not found.\<close>

fun find_attribute_from :: "nat \<Rightarrow> Attribute list \<Rightarrow> string \<Rightarrow> nat" where
  "find_attribute_from i [] name = i"
| "find_attribute_from i (a # as) name =
     (if attr_name a = name then i else find_attribute_from (Suc i) as name)"

definition Relation_FindAttribute :: "Relation \<Rightarrow> string \<Rightarrow> nat" where
  "Relation_FindAttribute rel name = find_attribute_from 0 (attributes rel) name"

definition Relation_GetAttribute :: "Relation \<Rightarrow> nat \<Rightarrow> Attribute res" where
  "Relation_GetAttribute rel n = nth_res (attributes rel) n"

fun attribute_index_from :: "int \<Rightarrow> Attribute list \<Rightarrow> string \<Rightarrow> int" where
  "attribute_index_from i [] name = - 1"
| "attribute_index_from i (a # as) name =
     (if attr_name a = name then i else attribute_index_from (i + 1) as name)"

definition Relation_GetAttributeIndex :: "Relation \<Rightarrow> string \<Rightarrow> int" where
  "Relation_GetAttributeIndex rel name = attribute_index_from 0 (attributes rel) name"

text \<open>
  The loop of \<open>AddAttribute\<close> for \<open>append = false\<close>: insert before the first attribute with a
  greater index. When there is none the loop ends and the attribute is not added.
\<close>

fun insert_before_greater :: "Attribute \<Rightarrow> Attribute list \<Rightarrow> Attribute list" where
  "insert_before_greater a [] = []"
| "insert_before_greater a (b # bs) =
     (if attribute_index b > attribute_index a then a # b # bs
      else b # insert_before_greater a bs)"

definition Relation_AddAttribute :: "Relation \<Rightarrow> Attribute \<Rightarrow> bool \<Rightarrow> Relation" where
  "Relation_AddAttribute rel attribute appending =
     (let attribute = attribute\<lparr>attr_relation_id := relation_id rel\<rparr>; as = attributes rel in
      if appending then rel\<lparr>attributes := as @ [attribute\<lparr>attribute_index := of_nat (length as)\<rparr>]\<rparr>
      else if as = [] then rel\<lparr>attributes := as @ [attribute]\<rparr>
      else rel\<lparr>attributes := insert_before_greater attribute as\<rparr>)"

fun to_desc_from :: "nat \<Rightarrow> Attribute list \<Rightarrow> RowDesc" where
  "to_desc_from i [] = []"
| "to_desc_from i (a # as) =
     \<lparr>column_name = attr_name a, data_type = attr_data_type a,
      data_type_size = ucast (max_length a), cd_relation_id = None, attribute_id = attr_id a,
      nth_tuple = 0, nth_item = of_nat i\<rparr> # to_desc_from (Suc i) as"

definition Relation_ToDesc :: "Relation \<Rightarrow> RowDesc" where
  "Relation_ToDesc rel = to_desc_from 0 (attributes rel)"

subsection \<open>Tuples of the system tables\<close>

text \<open>
  The repeated group of statements of the two \<open>ToTuple\<close> functions: store a value at \<open>off\<close>,
  set offset and length of slot \<open>i\<close>, and advance \<open>off\<close>.
\<close>

definition put_field :: "raw_tuple \<Rightarrow> nat \<Rightarrow> u32 \<Rightarrow> byte list \<Rightarrow> (raw_tuple \<times> u32) res" where
  "put_field tuple i off v =
     bind_res (RawTuple_SetValue tuple (unat off) (map Some v)) (\<lambda>tuple.
     bind_res (set_slot_offset tuple i (ucast off)) (\<lambda>tuple.
     bind_res (set_slot_length tuple i (of_nat (length v))) (\<lambda>tuple.
     Inr (tuple, off + of_nat (length v)))))"

definition u64_bytes :: "u32 \<Rightarrow> byte list" where
  "u64_bytes w = le_bytes 8 (ucast w :: u64)"

definition Attribute_ToTuple :: "Attribute \<Rightarrow> (raw_tuple \<times> u32) res" where
  "Attribute_ToTuple a =
     bind_res (put_field (CreateTuple 1024) 0 (of_nat (sizeof_Slot * 4)) (u64_bytes (attr_id a))) (\<lambda>(t, off).
     bind_res (put_field t 1 off (u64_bytes (attr_relation_id a))) (\<lambda>(t, off).
     bind_res (put_field t 2 off (bytes_of (attr_name a))) (\<lambda>(t, off).
     bind_res (put_field t 3 off (u64_bytes (DataType_code (attr_data_type a)))) (\<lambda>(t, off).
     bind_res (put_field t 4 off (u64_bytes (max_length a))) (\<lambda>(t, off).
     put_field t 5 off (u64_bytes (attribute_index a)))))))"

text \<open>Reading the integer, or the string, that slot \<open>i\<close> leads to.\<close>

definition get_int_field :: "raw_tuple \<Rightarrow> nat \<Rightarrow> u32 res" where
  "get_int_field tuple i =
     bind_res (RawTuple_GetSlot tuple i) (\<lambda>slot.
     bind_res (RawTuple_GetInteger tuple (unat (offset slot))) (\<lambda>w. Inr (ucast w)))"

definition get_string_field :: "raw_tuple \<Rightarrow> nat \<Rightarrow> string res" where
  "get_string_field tuple i =
     bind_res (RawTuple_GetSlot tuple i) (\<lambda>slot.
     bind_res (deref (unat (len slot)) (RawTuple_GetValue tuple (unat (offset slot)))) (\<lambda>bs.
     Inr (string_of bs)))"

definition Attribute_FromTuple :: "Attribute \<Rightarrow> raw_tuple \<Rightarrow> Attribute res" where
  "Attribute_FromTuple a tuple =
     bind_res (get_int_field tuple 0) (\<lambda>i.
     bind_res (get_int_field tuple 1) (\<lambda>r.
     bind_res (get_string_field tuple 2) (\<lambda>name.
     bind_res (get_int_field tuple 3) (\<lambda>t.
     bind_res (get_int_field tuple 4) (\<lambda>m.
     bind_res (get_int_field tuple 5) (\<lambda>k.
     Inr (a\<lparr>attr_id := i, attr_relation_id := r, attr_name := name,
            attr_data_type := DataType_cast t, max_length := m, attribute_index := k\<rparr>)))))))"

definition Relation_ToTuple :: "Relation \<Rightarrow> (raw_tuple \<times> u32) res" where
  "Relation_ToTuple rel =
     bind_res (put_field (CreateTuple 512) 0 (of_nat (sizeof_Slot * 2)) (u64_bytes (relation_id rel))) (\<lambda>(t, off).
     put_field t 1 off (bytes_of (rel_name rel)))"

definition Relation_FromTuple :: "Relation \<Rightarrow> raw_tuple \<Rightarrow> Relation res" where
  "Relation_FromTuple rel tuple =
     bind_res (get_int_field tuple 0) (\<lambda>i.
     bind_res (get_string_field tuple 1) (\<lambda>name.
     Inr (rel\<lparr>relation_id := i, rel_name := name\<rparr>)))"

subsection \<open>Order of the columns\<close>

lemma find_attribute_from_spec:
  "find_attribute_from i as name = k \<Longrightarrow> i \<le> k \<and> k \<le> i + length as \<and>
   (k < i + length as \<longrightarrow> attr_name (as ! (k - i)) = name) \<and>
   (\<forall>m < k - i. attr_name (as ! m) \<noteq> name)"
proof (induction as arbitrary: i)
  case (Cons a as)
  show ?case
  proof (cases "attr_name a = name")
    case False
    with Cons.prems have "find_attribute_from (Suc i) as name = k" by simp
    from Cons.IH [OF this] False show ?thesis
      by (auto simp: nth_Cons' Suc_diff_le less_Suc_eq_0_disj)
  qed (use Cons.prems in auto)
qed auto

text \<open>\<open>FindAttribute\<close>: the first column of that name, the number of columns when there is none.\<close>

lemma FindAttribute_spec:
  "Relation_FindAttribute rel name = k \<longleftrightarrow>
   k \<le> length (attributes rel) \<and> (\<forall>m < k. attr_name (attributes rel ! m) \<noteq> name) \<and>
   (k < length (attributes rel) \<longrightarrow> attr_name (attributes rel ! k) = name)" (is "_ \<longleftrightarrow> ?P k")
proof -
  have P: "?P (Relation_FindAttribute rel name)"
    using find_attribute_from_spec [of 0 "attributes rel" name] by (simp add: Relation_FindAttribute_def)
  have "k = k'" if "?P k" "?P k'" for k k'
    using that by (metis nat_less_le nat_neq_iff order_le_less_trans)
  with P show ?thesis by blast
qed

lemma attribute_index_from_find:
  "attribute_index_from (int i) as name =
   (if find_attribute_from i as name < i + length as then int (find_attribute_from i as name) else - 1)"
proof (induction as arbitrary: i)
  case (Cons a as)
  then show ?case using Cons.IH [of "Suc i"] by (simp add: add.commute)
qed simp

lemma GetAttributeIndex_Find:
  "Relation_GetAttributeIndex rel name =
   (let k = Relation_FindAttribute rel name in if k < length (attributes rel) then int k else - 1)"
  using attribute_index_from_find [of 0 "attributes rel" name]
  by (simp add: Relation_GetAttributeIndex_def Relation_FindAttribute_def Let_def)

text \<open>The invariant of a relation: columns carry its identifier and their own position.\<close>

definition relation_inv :: "Relation \<Rightarrow> bool" where
  "relation_inv rel \<longleftrightarrow> (\<forall>i < length (attributes rel).
     attribute_index (attributes rel ! i) = of_nat i \<and>
     attr_relation_id (attributes rel ! i) = relation_id rel)"

lemma relation_inv_new: "relation_inv Relation_new"
  by (simp add: relation_inv_def Relation_new_def)

lemma relation_inv_append: "relation_inv rel \<Longrightarrow> relation_inv (Relation_AddAttribute rel a True)"
  by (auto simp: relation_inv_def Relation_AddAttribute_def Let_def nth_append less_Suc_eq)

definition sorted_columns :: "Attribute list \<Rightarrow> bool" where
  "sorted_columns as \<longleftrightarrow> sorted_wrt (\<lambda>a b. attribute_index a < attribute_index b) as"

lemma set_insert_before_greater: "set (insert_before_greater a as) \<subseteq> insert a (set as)"
  by (induction as) auto

lemma sorted_insert_before_greater:
  "sorted_columns as \<Longrightarrow> attribute_index a \<notin> attribute_index ` set as \<Longrightarrow>
   sorted_columns (insert_before_greater a as)"
proof (induction as)
  case (Cons b bs)
  then show ?case using set_insert_before_greater [of a bs]
    by (fastforce simp: sorted_columns_def)
qed simp

text \<open>What \<open>append = false\<close> does to a relation that has columns.\<close>

lemma insert_before_greater_in:
  "sorted_columns as \<Longrightarrow> a \<notin> set as \<Longrightarrow>
   a \<in> set (insert_before_greater a as) \<longleftrightarrow> (\<exists>b \<in> set as. attribute_index a < attribute_index b)"
  by (induction as) (auto simp: sorted_columns_def)

lemma insert_before_greater_drop:
  "(\<forall>b \<in> set as. attribute_index b \<le> attribute_index a) \<Longrightarrow> insert_before_greater a as = as"
  by (induction as) auto

lemma to_desc_from_nth:
  "j < length as \<Longrightarrow> to_desc_from i as ! j =
   \<lparr>column_name = attr_name (as ! j), data_type = attr_data_type (as ! j),
    data_type_size = ucast (max_length (as ! j)), cd_relation_id = None, attribute_id = attr_id (as ! j),
    nth_tuple = 0, nth_item = of_nat (i + j)\<rparr>"
  by (induction as arbitrary: i j) (auto simp: nth_Cons' algebra_simps split: nat.splits)

lemma length_to_desc_from [simp]: "length (to_desc_from i as) = length as"
  by (induction as arbitrary: i) auto

subsection \<open>Round trips through the system tables\<close>

text \<open>The bytes of a slot.\<close>

definition slot_cells :: "u16 \<Rightarrow> u16 \<Rightarrow> cell list" where
  "slot_cells ofs l = map Some (le_bytes 2 ofs @ le_bytes 2 l)"

lemma length_slot_cells [simp]: "length (slot_cells ofs l) = 4"
  by (simp add: slot_cells_def)

lemma length_u64_bytes [simp]: "length (u64_bytes w) = 8"
  by (simp add: u64_bytes_def)

lemma put_field_at:
  assumes "tuple = A @ d @ B @ old @ T" and "length A = 4 * i" and "length d = 4"
    and "length old = length v" and "unat off = length (A @ d @ B)"
  shows "put_field tuple i off v =
    Inr (A @ slot_cells (ucast off) (of_nat (length v)) @ B @ map Some v @ T, off + of_nat (length v))"
proof -
  have "length d = 2 + 2" using assms(3) by simp
  then obtain d1 d2 where d: "d = d1 @ d2" "length d1 = 2" "length d2 = 2"
    by (metis append_take_drop_id length_take length_drop min.absorb2 le_add1 diff_add_inverse)
  have "RawTuple_SetValue tuple (unat off) (map Some v) = Inr (A @ d1 @ d2 @ B @ map Some v @ T)"
    using store_cells_at [of "unat off" "A @ d @ B" old "map Some v" T] assms d
    by (simp add: RawTuple_SetValue_def)
  moreover have "set_slot_offset (A @ d1 @ d2 @ B @ map Some v @ T) i (ucast off) =
      Inr (A @ map Some (le_bytes 2 (ucast off :: u16)) @ d2 @ B @ map Some v @ T)"
    using store_bytes_at [of "4 * i" A d1 "le_bytes 2 (ucast off :: u16)"] assms d
    by (simp add: set_slot_offset_def sizeof_Slot_def)
  moreover have "set_slot_length (A @ map Some (le_bytes 2 (ucast off :: u16)) @ d2 @ B @ map Some v @ T) i
      (of_nat (length v)) = Inr (A @ slot_cells (ucast off) (of_nat (length v)) @ B @ map Some v @ T)"
    using store_bytes_at [of "4 * i + 2" "A @ map Some (le_bytes 2 (ucast off :: u16))" d2
        "le_bytes 2 (of_nat (length v) :: u16)"] assms d
    by (simp add: set_slot_length_def sizeof_Slot_def slot_cells_def)
  ultimately show ?thesis by (simp add: put_field_def)
qed

lemma GetSlot_at:
  assumes "tuple = A @ slot_cells ofs l @ B" and "length A = 4 * i"
  shows "RawTuple_GetSlot tuple i = Inr \<lparr>offset = ofs, len = l\<rparr>"
  using load_bytes_at [of "4 * i" A 2 "le_bytes 2 ofs" "map Some (le_bytes 2 l) @ B"]
    load_bytes_at [of "4 * i + 2" "A @ map Some (le_bytes 2 ofs)" 2 "le_bytes 2 l" B] assms
  by (simp add: RawTuple_GetSlot_def sizeof_Slot_def slot_cells_def)

lemma get_int_field_at:
  assumes "RawTuple_GetSlot tuple i = Inr s" and "tuple = A @ map Some (le_bytes 8 (w :: u64)) @ B"
    and "unat (offset s) = length A"
  shows "get_int_field tuple i = Inr (ucast w)"
  using assms by (simp add: get_int_field_def RawTuple_GetInteger_def RawTuple_GetValue_def
      deref_append_n)

lemma get_string_field_at:
  assumes "RawTuple_GetSlot tuple i = Inr s" and "tuple = A @ map Some (bytes_of x) @ B"
    and "unat (offset s) = length A" and "unat (len s) = length x"
  shows "get_string_field tuple i = Inr x"
  using assms by (simp add: get_string_field_def RawTuple_GetValue_def deref_append_n)

lemma ucast_u64_bytes: "ucast (ucast (w :: u32) :: u64) = w"
  by (rule bit_word_eqI) (auto simp: bit_unsigned_iff)

definition relation_image :: "Relation \<Rightarrow> cell list \<Rightarrow> raw_tuple" where
  "relation_image rel T = slot_cells 8 8 @ slot_cells 16 (of_nat (length (rel_name rel))) @
     map Some (u64_bytes (relation_id rel)) @ map Some (bytes_of (rel_name rel)) @ T"

lemma replicate_split: "k \<le> n \<Longrightarrow> replicate n x = replicate k x @ replicate (n - k) x"
  by (simp add: replicate_add [symmetric])

lemma Relation_ToTuple_image:
  assumes "length (rel_name rel) \<le> 496"
  shows "Relation_ToTuple rel = Inr (relation_image rel (replicate (496 - length (rel_name rel)) None), of_nat (16 + length (rel_name rel)))"
proof -
  let ?n = "length (rel_name rel)"
  have c: "CreateTuple 512 = [] @ replicate 4 None @ replicate 4 None @ replicate 8 None @
      replicate ?n None @ replicate (496 - ?n) None"
    using assms by (simp add: CreateTuple_def replicate_add [symmetric])
  have 1: "put_field (CreateTuple 512) 0 8 (u64_bytes (relation_id rel)) =
    Inr (slot_cells 8 8 @ replicate 4 None @ map Some (u64_bytes (relation_id rel)) @
      replicate ?n None @ replicate (496 - ?n) None, 16)"
    using put_field_at [OF c, of 0 "u64_bytes (relation_id rel)" 8] by simp
  have 2: "put_field (slot_cells 8 8 @ replicate 4 None @ map Some (u64_bytes (relation_id rel)) @
      replicate ?n None @ replicate (496 - ?n) None) 1 16 (bytes_of (rel_name rel)) =
    Inr (relation_image rel (replicate (496 - length (rel_name rel)) None), 16 + of_nat ?n)"
    using put_field_at [of _ "slot_cells 8 8" "replicate 4 None" "map Some (u64_bytes (relation_id rel))"
        "replicate ?n None" "replicate (496 - ?n) None" 1 "bytes_of (rel_name rel)" 16]
    by (simp add: relation_image_def)
  show ?thesis using 1 2 by (simp add: Relation_ToTuple_def sizeof_Slot_def)
qed

lemma Relation_FromTuple_image:
  assumes "length (rel_name rel) \<le> 496"
  shows "Relation_FromTuple r0 (relation_image rel T) =
    Inr (r0\<lparr>relation_id := relation_id rel, rel_name := rel_name rel\<rparr>)"
proof -
  let ?n = "length (rel_name rel)"
  have s0: "RawTuple_GetSlot (relation_image rel T) 0 = Inr \<lparr>offset = 8, len = 8\<rparr>"
    by (rule GetSlot_at [of _ "[]"]) (simp_all add: relation_image_def)
  have s1: "RawTuple_GetSlot (relation_image rel T) 1 = Inr \<lparr>offset = 16, len = of_nat ?n\<rparr>"
    by (rule GetSlot_at [of _ "slot_cells 8 8"]) (simp_all add: relation_image_def)
  have "get_int_field (relation_image rel T) 0 = Inr (relation_id rel)"
    using get_int_field_at [OF s0, of "slot_cells 8 8 @ slot_cells 16 (of_nat ?n)" "ucast (relation_id rel)"]
    by (simp add: relation_image_def u64_bytes_def ucast_u64_bytes)
  moreover have "get_string_field (relation_image rel T) 1 = Inr (rel_name rel)"
    using get_string_field_at [OF s1, of "slot_cells 8 8 @ slot_cells 16 (of_nat ?n) @
        map Some (u64_bytes (relation_id rel))" "rel_name rel"] assms
    by (simp add: relation_image_def unat_of_nat)
  ultimately show ?thesis by (simp add: Relation_FromTuple_def)
qed

text \<open>
  The tuple of an attribute. \<open>ToTuple\<close> leaves room for four slots and writes six: slots 4 and 5
  end up on the eight bytes of the attribute identifier.
\<close>

definition attribute_image :: "Attribute \<Rightarrow> cell list \<Rightarrow> raw_tuple" where
  "attribute_image a T = (let n = length (attr_name a) in
     slot_cells 16 8 @ slot_cells 24 8 @ slot_cells 32 (of_nat n) @ slot_cells (of_nat (32 + n)) 8 @
     slot_cells (of_nat (40 + n)) 8 @ slot_cells (of_nat (48 + n)) 8 @
     map Some (u64_bytes (attr_relation_id a)) @ map Some (bytes_of (attr_name a)) @
     map Some (u64_bytes (DataType_code (attr_data_type a))) @ map Some (u64_bytes (max_length a)) @
     map Some (u64_bytes (attribute_index a)) @ T)"

lemma unat_small_u32: "k < 2 ^ 32 \<Longrightarrow> unat (of_nat k :: u32) = k"
  by (simp add: unat_of_nat)

lemma ucast_nat_u16: "ucast (of_nat k :: u32) = (of_nat k :: u16)"
  by (simp add: word_unat_eq_iff unsigned_ucast_eq unat_of_nat take_bit_eq_mod mod_mod_cancel)

lemma put_field_nat:
  assumes "tuple = A @ d @ B @ old @ T" and "length A = 4 * i" and "length d = 4"
    and "length old = length v" and "k = length (A @ d @ B)" and "k < 2 ^ 32"
  shows "put_field tuple i (of_nat k) v =
    Inr (A @ slot_cells (of_nat k) (of_nat (length v)) @ B @ map Some v @ T, of_nat (k + length v))"
  using put_field_at [OF assms(1-4), of "of_nat k"] unat_small_u32 [OF assms(6)] assms(5)
  by (metis ucast_nat_u16 of_nat_add)

lemma Attribute_ToTuple_image:
  assumes "length (attr_name a) \<le> 968"
  shows "Attribute_ToTuple a = Inr (attribute_image a (replicate (968 - length (attr_name a)) None), of_nat (56 + length (attr_name a)))"
proof -
  let ?n = "length (attr_name a)"
  let ?f = "\<lambda>w. map Some (u64_bytes w)"
  let ?T = "replicate (968 - ?n) None :: cell list"
  let ?s = "\<lambda>k l. slot_cells (of_nat k) (of_nat l)"
  let ?N = "\<lambda>k. replicate k None :: cell list"
  have 1: "put_field (CreateTuple 1024) 0 (of_nat 16) (u64_bytes (attr_id a)) =
      Inr (?s 16 8 @ ?N 12 @ ?f (attr_id a) @ ?N 8 @ ?N ?n @ ?N 8 @ ?N 8 @ ?N 8 @ ?T, of_nat 24)"
    using put_field_nat [of _ "[]" "?N 4" "?N 12" "?N 8" "?N 8 @ ?N ?n @ ?N 8 @ ?N 8 @ ?N 8 @ ?T"
        0 "u64_bytes (attr_id a)" 16] assms
    by (simp add: CreateTuple_def replicate_add [symmetric] del: of_nat_numeral)
  have 2: "put_field (?s 16 8 @ ?N 12 @ ?f (attr_id a) @ ?N 8 @ ?N ?n @ ?N 8 @ ?N 8 @ ?N 8 @ ?T) 1
      (of_nat 24) (u64_bytes (attr_relation_id a)) =
      Inr (?s 16 8 @ ?s 24 8 @ ?N 8 @ ?f (attr_id a) @ ?f (attr_relation_id a) @ ?N ?n @ ?N 8 @ ?N 8 @ ?N 8 @ ?T,
        of_nat 32)"
    using put_field_nat [of _ "?s 16 8" "?N 4" "?N 8 @ ?f (attr_id a)" "?N 8"
        "?N ?n @ ?N 8 @ ?N 8 @ ?N 8 @ ?T" 1 "u64_bytes (attr_relation_id a)" 24]
    by (simp add: replicate_add [of 4 8, simplified] del: of_nat_numeral)
  let ?h = "?s 16 8 @ ?s 24 8"
  have 3: "put_field (?h @ ?N 8 @ ?f (attr_id a) @ ?f (attr_relation_id a) @ ?N ?n @ ?N 8 @ ?N 8 @ ?N 8 @ ?T) 2
      (of_nat 32) (bytes_of (attr_name a)) =
      Inr (?h @ ?s 32 ?n @ ?N 4 @ ?f (attr_id a) @ ?f (attr_relation_id a) @
        map Some (bytes_of (attr_name a)) @ ?N 8 @ ?N 8 @ ?N 8 @ ?T, of_nat (32 + ?n))"
    using put_field_nat [of _ ?h "?N 4" "?N 4 @ ?f (attr_id a) @ ?f (attr_relation_id a)" "?N ?n"
        "?N 8 @ ?N 8 @ ?N 8 @ ?T" 2 "bytes_of (attr_name a)" 32]
    by (simp add: replicate_add [of 4 4, simplified] del: of_nat_numeral)
  let ?v = "?f (attr_relation_id a) @ map Some (bytes_of (attr_name a))"
  have 4: "put_field (?h @ ?s 32 ?n @ ?N 4 @ ?f (attr_id a) @ ?v @ ?N 8 @ ?N 8 @ ?N 8 @ ?T) 3
      (of_nat (32 + ?n)) (u64_bytes (DataType_code (attr_data_type a))) =
      Inr (?h @ ?s 32 ?n @ ?s (32 + ?n) 8 @ ?f (attr_id a) @ ?v @
        ?f (DataType_code (attr_data_type a)) @ ?N 8 @ ?N 8 @ ?T, of_nat (40 + ?n))"
    using put_field_nat [of _ "?h @ ?s 32 ?n" "?N 4" "?f (attr_id a) @ ?v" "?N 8"
        "?N 8 @ ?N 8 @ ?T" 3 "u64_bytes (DataType_code (attr_data_type a))" "32 + ?n"] assms
    by (simp del: of_nat_numeral of_nat_add)
  obtain i1 i2 where i: "?f (attr_id a) = i1 @ i2" "length i1 = 4" "length i2 = 4"
    by (rule that [of "take 4 (?f (attr_id a))" "drop 4 (?f (attr_id a))"]) simp_all
  let ?g = "?h @ ?s 32 ?n @ ?s (32 + ?n) 8" and ?w = "?v @ ?f (DataType_code (attr_data_type a))"
  have 5: "put_field (?g @ ?f (attr_id a) @ ?w @ ?N 8 @ ?N 8 @ ?T) 4 (of_nat (40 + ?n)) (u64_bytes (max_length a)) =
      Inr (?g @ ?s (40 + ?n) 8 @ i2 @ ?w @ ?f (max_length a) @ ?N 8 @ ?T, of_nat (48 + ?n))"
    using put_field_nat [of _ ?g i1 "i2 @ ?w" "?N 8" "?N 8 @ ?T" 4 "u64_bytes (max_length a)" "40 + ?n"] assms i
    by (simp del: of_nat_numeral of_nat_add)
  have 6: "put_field (?g @ ?s (40 + ?n) 8 @ i2 @ ?w @ ?f (max_length a) @ ?N 8 @ ?T) 5 (of_nat (48 + ?n))
      (u64_bytes (attribute_index a)) = Inr (attribute_image a (replicate (968 - length (attr_name a)) None), of_nat (56 + ?n))"
    using put_field_nat [of _ "?g @ ?s (40 + ?n) 8" i2 "?w @ ?f (max_length a)" "?N 8" ?T 5
        "u64_bytes (attribute_index a)" "48 + ?n"] assms i
    by (simp add: attribute_image_def Let_def del: of_nat_add)
  show ?thesis using 1 2 3 4 5 6
    by (simp add: Attribute_ToTuple_def sizeof_Slot_def del: of_nat_numeral of_nat_add)
qed

text \<open>The identifier that is read back: offset and length of slot 4.\<close>

lemma le_word_append:
  "le_word (xs @ ys) = (le_word xs OR push_bit (8 * length xs) (le_word ys) :: 'a::len word)"
  by (induction xs) (simp_all add: push_bit_or or.assoc)

lemma le_word_le_bytes_u16: "le_word (le_bytes 2 (w :: u16)) = (ucast w :: u64)"
proof (rule bit_word_eqI)
  fix k
  have w: "le_bytes 2 w = [ucast w, ucast (drop_bit 8 w)]" by (simp add: numeral_2_eq_2)
  have "bit w k \<longleftrightarrow> k < 8 \<and> bit w k \<or> 8 \<le> k \<and> bit w (8 + (k - 8))" by (cases "k < 8") auto
  then show "bit (le_word (le_bytes 2 w) :: u64) k = bit (ucast w :: u64) k" if "k < LENGTH(64)"
    using bit_imp_le_length [of w k] that
    by (auto simp: w bit_or_iff bit_push_bit_iff bit_unsigned_iff bit_drop_bit_eq)
qed

lemma slot_cells_word:
  "slot_cells a b @ slot_cells c d =
   map Some (le_bytes 2 a @ le_bytes 2 b @ le_bytes 2 c @ le_bytes 2 d)"
  by (simp add: slot_cells_def)

lemma ucast_slot_pair:
  "ucast (le_word (le_bytes 2 (a :: u16) @ le_bytes 2 (b :: u16) @ le_bytes 2 (c :: u16) @ le_bytes 2 (d :: u16)) :: u64)
   = (ucast a OR push_bit 16 (ucast b) :: u32)"
proof (rule bit_word_eqI)
  fix k assume "k < LENGTH(32)"
  then show "bit (ucast (le_word (le_bytes 2 a @ le_bytes 2 b @ le_bytes 2 c @ le_bytes 2 d) :: u64) :: u32) k =
      bit (ucast a OR push_bit 16 (ucast b) :: u32) k"
    by (auto simp: le_word_append le_word_le_bytes_u16 bit_or_iff bit_push_bit_iff bit_unsigned_iff)
qed

lemma slot_pair_small:
  assumes "k < 65536"
  shows "(ucast (of_nat k :: u16) OR push_bit 16 (ucast (8 :: u16)) :: u32) = of_nat (524288 + k)"
proof -
  have u: "(ucast (of_nat k :: u16) :: u32) = of_nat k"
    using assms by (simp add: word_unat_eq_iff unsigned_ucast_eq unat_of_nat take_bit_nat_eq_self)
  have b: "bit (of_nat k :: u32) j \<Longrightarrow> j < 16" for j
    unfolding u [symmetric] using bit_imp_le_length [of "of_nat k :: u16" j] by (simp add: bit_unsigned_iff)
  have d: "(of_nat k :: u32) + push_bit 16 8 = of_nat k OR push_bit 16 8"
  proof (rule disjunctive_add)
    fix j
    have "\<not> bit (push_bit 16 x :: u32) j" if "j < 16" for x
      using that by (simp add: bit_push_bit_iff)
    then show "\<not> bit (of_nat k :: u32) j \<or> \<not> bit (push_bit 16 8 :: u32) j"
      using b [of j] by blast
  qed
  have e: "(ucast (8 :: u16) :: u32) = 8" by simp
  show ?thesis unfolding u e d [symmetric] by (simp add: push_bit_eq_mult)
qed

text \<open>The slots of an attribute tuple, and the values they lead to.\<close>

lemma attribute_image_slots:
  "RawTuple_GetSlot (attribute_image a T) 0 = Inr \<lparr>offset = 16, len = 8\<rparr>"
  "RawTuple_GetSlot (attribute_image a T) 1 = Inr \<lparr>offset = 24, len = 8\<rparr>"
  "RawTuple_GetSlot (attribute_image a T) 2 = Inr \<lparr>offset = 32, len = of_nat (length (attr_name a))\<rparr>"
  "RawTuple_GetSlot (attribute_image a T) 3 = Inr \<lparr>offset = of_nat (32 + length (attr_name a)), len = 8\<rparr>"
  "RawTuple_GetSlot (attribute_image a T) 4 = Inr \<lparr>offset = of_nat (40 + length (attr_name a)), len = 8\<rparr>"
  "RawTuple_GetSlot (attribute_image a T) 5 = Inr \<lparr>offset = of_nat (48 + length (attr_name a)), len = 8\<rparr>"
proof -
  let ?n = "length (attr_name a)"
  let ?s0 = "slot_cells 16 8" and ?s1 = "slot_cells 24 8" and ?s2 = "slot_cells 32 (of_nat ?n)"
  let ?s3 = "slot_cells (of_nat (32 + ?n)) 8" and ?s4 = "slot_cells (of_nat (40 + ?n)) 8"
  note img = attribute_image_def Let_def
  show "RawTuple_GetSlot (attribute_image a T) 0 = Inr \<lparr>offset = 16, len = 8\<rparr>"
    by (rule GetSlot_at [of _ "[]"]) (simp_all add: img)
  show "RawTuple_GetSlot (attribute_image a T) 1 = Inr \<lparr>offset = 24, len = 8\<rparr>"
    by (rule GetSlot_at [of _ ?s0]) (simp_all add: img)
  show "RawTuple_GetSlot (attribute_image a T) 2 = Inr \<lparr>offset = 32, len = of_nat ?n\<rparr>"
    by (rule GetSlot_at [of _ "?s0 @ ?s1"]) (simp_all add: img)
  show "RawTuple_GetSlot (attribute_image a T) 3 = Inr \<lparr>offset = of_nat (32 + ?n), len = 8\<rparr>"
    by (rule GetSlot_at [of _ "?s0 @ ?s1 @ ?s2"]) (simp_all add: img)
  show "RawTuple_GetSlot (attribute_image a T) 4 = Inr \<lparr>offset = of_nat (40 + ?n), len = 8\<rparr>"
    by (rule GetSlot_at [of _ "?s0 @ ?s1 @ ?s2 @ ?s3"]) (simp_all add: img)
  show "RawTuple_GetSlot (attribute_image a T) 5 = Inr \<lparr>offset = of_nat (48 + ?n), len = 8\<rparr>"
    by (rule GetSlot_at [of _ "?s0 @ ?s1 @ ?s2 @ ?s3 @ ?s4"]) (simp_all add: img)
qed

lemma attribute_image_id:
  assumes "length (attr_name a) \<le> 968"
  shows "get_int_field (attribute_image a T) 0 = Inr (of_nat (524328 + length (attr_name a)))"
proof -
  let ?n = "length (attr_name a)"
  let ?bs = "le_bytes 2 (of_nat (40 + ?n) :: u16) @ le_bytes 2 (8 :: u16) @
      le_bytes 2 (of_nat (48 + ?n) :: u16) @ le_bytes 2 (8 :: u16)"
  obtain R where "RawTuple_GetValue (attribute_image a T) 16 = map Some ?bs @ R"
    by (auto simp: RawTuple_GetValue_def attribute_image_def Let_def slot_cells_def)
  then have "RawTuple_GetInteger (attribute_image a T) 16 = Inr (le_word ?bs)"
    using deref_append_n [of 8 ?bs R] by (simp add: RawTuple_GetInteger_def)
  then have "get_int_field (attribute_image a T) 0 = Inr (ucast (le_word ?bs :: u64))"
    by (simp add: get_int_field_def attribute_image_slots(1))
  also have "(ucast (le_word ?bs :: u64) :: u32) = of_nat (524288 + (40 + ?n))"
    unfolding ucast_slot_pair by (rule slot_pair_small) (use assms in simp)
  finally show ?thesis by simp
qed

lemma attribute_image_fields:
  assumes "length (attr_name a) \<le> 968"
  shows "get_int_field (attribute_image a T) 1 = Inr (attr_relation_id a)"
    and "get_string_field (attribute_image a T) 2 = Inr (attr_name a)"
    and "get_int_field (attribute_image a T) 3 = Inr (DataType_code (attr_data_type a))"
    and "get_int_field (attribute_image a T) 4 = Inr (max_length a)"
    and "get_int_field (attribute_image a T) 5 = Inr (attribute_index a)"
proof -
  let ?n = "length (attr_name a)" and ?t = "attribute_image a T"
  let ?f = "\<lambda>w. map Some (u64_bytes w)"
  let ?v1 = "?f (attr_relation_id a)" and ?v2 = "map Some (bytes_of (attr_name a))"
  let ?v3 = "?f (DataType_code (attr_data_type a))" and ?v4 = "?f (max_length a)"
  let ?dir = "slot_cells 16 8 @ slot_cells 24 8 @ slot_cells 32 (of_nat ?n) @
    slot_cells (of_nat (32 + ?n)) 8 @ slot_cells (of_nat (40 + ?n)) 8 @ slot_cells (of_nat (48 + ?n)) 8"
  note img = attribute_image_def Let_def u64_bytes_def
  have u: "unat (of_nat (j + ?n) :: u16) = j + ?n" if "j \<le> 48" for j
    using assms that by (simp add: unat_of_nat del: of_nat_add)
  show "get_int_field ?t 1 = Inr (attr_relation_id a)"
    using get_int_field_at [OF attribute_image_slots(2) [of a T], of ?dir "ucast (attr_relation_id a)"]
    by (simp add: img ucast_u64_bytes)
  show "get_string_field ?t 2 = Inr (attr_name a)"
    by (rule get_string_field_at [OF attribute_image_slots(3) [of a T], where A = "?dir @ ?v1"])
      (use u [of 0] in \<open>simp_all add: img\<close>)
  show "get_int_field ?t 3 = Inr (DataType_code (attr_data_type a))"
    using get_int_field_at [OF attribute_image_slots(4) [of a T], of "?dir @ ?v1 @ ?v2"
        "ucast (DataType_code (attr_data_type a))"] u [of 32]
    by (simp add: img ucast_u64_bytes)
  show "get_int_field ?t 4 = Inr (max_length a)"
    using get_int_field_at [OF attribute_image_slots(5) [of a T], of "?dir @ ?v1 @ ?v2 @ ?v3" "ucast (max_length a)"]
      u [of 40] by (simp add: img ucast_u64_bytes)
  show "get_int_field ?t 5 = Inr (attribute_index a)"
    using get_int_field_at [OF attribute_image_slots(6) [of a T], of "?dir @ ?v1 @ ?v2 @ ?v3 @ ?v4"
        "ucast (attribute_index a)"] u [of 48]
    by (simp add: img ucast_u64_bytes)
qed

lemma Attribute_FromTuple_image:
  assumes "length (attr_name a) \<le> 968"
  shows "Attribute_FromTuple a0 (attribute_image a T) =
    Inr (a0\<lparr>attr_id := of_nat (524328 + length (attr_name a)), attr_relation_id := attr_relation_id a,
      attr_name := attr_name a, attr_data_type := DataType_cast (DataType_code (attr_data_type a)),
      max_length := max_length a, attribute_index := attribute_index a\<rparr>)"
  using attribute_image_id [OF assms] attribute_image_fields [OF assms]
  by (simp add: Attribute_FromTuple_def del: of_nat_add)


text \<open>What the system tables keep: the bytes that \<open>ToTuple\<close> has written.\<close>

definition relation_bytes :: "Relation \<Rightarrow> byte list" where
  "relation_bytes rel = map the (relation_image rel [])"

definition attribute_bytes :: "Attribute \<Rightarrow> byte list" where
  "attribute_bytes a = map the (attribute_image a [])"

lemma map_Some_relation_bytes: "map Some (relation_bytes rel) = relation_image rel []"
  by (simp add: relation_bytes_def relation_image_def slot_cells_def comp_def)

lemma map_Some_attribute_bytes: "map Some (attribute_bytes a) = attribute_image a []"
  by (simp add: attribute_bytes_def attribute_image_def slot_cells_def comp_def Let_def)

lemma length_relation_bytes: "length (relation_bytes rel) = 16 + length (rel_name rel)"
  by (simp add: relation_bytes_def relation_image_def)

lemma length_attribute_bytes: "length (attribute_bytes a) = 56 + length (attr_name a)"
  by (simp add: attribute_bytes_def attribute_image_def Let_def)

lemma Relation_ToTuple_bytes:
  assumes "length (rel_name rel) \<le> 496"
  shows "\<exists>t n. Relation_ToTuple rel = Inr (t, n) \<and> deref (unat n) t = Inr (relation_bytes rel)"
proof -
  let ?T = "replicate (496 - length (rel_name rel)) None :: cell list"
  have "relation_image rel ?T = map Some (relation_bytes rel) @ ?T"
    by (simp add: map_Some_relation_bytes) (simp add: relation_image_def)
  moreover have "unat (of_nat (16 + length (rel_name rel)) :: u32) = length (relation_bytes rel)"
    using assms by (simp add: unat_of_nat length_relation_bytes del: of_nat_add)
  ultimately show ?thesis
    using Relation_ToTuple_image [OF assms] deref_append_n [OF refl, of "relation_bytes rel" ?T] by simp
qed

lemma Attribute_ToTuple_bytes:
  assumes "length (attr_name a) \<le> 968"
  shows "\<exists>t n. Attribute_ToTuple a = Inr (t, n) \<and> deref (unat n) t = Inr (attribute_bytes a)"
proof -
  let ?T = "replicate (968 - length (attr_name a)) None :: cell list"
  have "attribute_image a ?T = map Some (attribute_bytes a) @ ?T"
    by (simp add: map_Some_attribute_bytes) (simp add: attribute_image_def Let_def)
  moreover have "unat (of_nat (56 + length (attr_name a)) :: u32) = length (attribute_bytes a)"
    using assms by (simp add: unat_of_nat length_attribute_bytes del: of_nat_add)
  ultimately show ?thesis
    using Attribute_ToTuple_image [OF assms] deref_append_n [OF refl, of "attribute_bytes a" ?T] by simp
qed

end
