(* ===== verification/Iterator_Handler.thy ===== *)
theory Iterator_Handler
  imports Expr_Eval
begin

section \<open>Iterators over a stored relation\<close>

text \<open>
  Models \<^verbatim>\<open>storage/iterator_handler_impl.cpp\<close>: a handler owns one LevelDB iterator over the
  database of a relation. The iterator is the cursor that \<^verbatim>\<open>leveldb/include/leveldb/iterator.h\<close>
  describes: the entries of the snapshot in key order and a position, which is not valid
  when it is past the last entry.
\<close>

record Iterator =
  entries :: "(byte list \<times> byte list) list"
  pos :: nat

definition Iterator_new :: "(byte list \<times> byte list) list \<Rightarrow> Iterator" where
  "Iterator_new es = \<lparr>entries = es, pos = length es\<rparr>"

definition IteratorHandler_Valid :: "Iterator \<Rightarrow> bool" where
  "IteratorHandler_Valid it \<longleftrightarrow> pos it < length (entries it)"

definition IteratorHandler_SeekToFirst :: "Iterator \<Rightarrow> Iterator" where
  "IteratorHandler_SeekToFirst it = it\<lparr>pos := 0\<rparr>"

definition IteratorHandler_SeekToLast :: "Iterator \<Rightarrow> Iterator" where
  "IteratorHandler_SeekToLast it = it\<lparr>pos := length (entries it) - 1\<rparr>"

text \<open>The first entry whose key is not before the target.\<close>

definition IteratorHandler_Seek :: "Iterator \<Rightarrow> byte list \<Rightarrow> Iterator" where
  "IteratorHandler_Seek it key =
     it\<lparr>pos := length (takeWhile (\<lambda>(k, v). bytes_less k key) (entries it))\<rparr>"

text \<open>LevelDB asserts that the iterator is valid before it moves.\<close>

definition IteratorHandler_Next :: "Iterator \<Rightarrow> Iterator res" where
  "IteratorHandler_Next it =
     (if IteratorHandler_Valid it then Inr (it\<lparr>pos := pos it + 1\<rparr>) else Inl Assert_failed)"

text \<open>\<open>Prev\<close> moves the LevelDB iterator forward, as the source does.\<close>

definition IteratorHandler_Prev :: "Iterator \<Rightarrow> Iterator res" where
  "IteratorHandler_Prev it = IteratorHandler_Next it"

definition IteratorHandler_TupleID :: "Iterator \<Rightarrow> byte list res" where
  "IteratorHandler_TupleID it =
     (if IteratorHandler_Valid it then Inr (fst (entries it ! pos it)) else Inl Assert_failed)"

definition IteratorHandler_GetTuple :: "Iterator \<Rightarrow> byte list res" where
  "IteratorHandler_GetTuple it =
     (if IteratorHandler_Valid it then Inr (snd (entries it ! pos it)) else Inl Assert_failed)"

subsection \<open>What is left to read\<close>

definition iter_rest :: "Iterator \<Rightarrow> byte list list" where
  "iter_rest it = map snd (drop (pos it) (entries it))"

definition iter_all :: "Iterator \<Rightarrow> byte list list" where
  "iter_all it = map snd (entries it)"

lemma Valid_iff_rest: "IteratorHandler_Valid it \<longleftrightarrow> iter_rest it \<noteq> []"
  by (auto simp: IteratorHandler_Valid_def iter_rest_def)

lemma iter_rest_SeekToFirst [simp]: "iter_rest (IteratorHandler_SeekToFirst it) = iter_all it"
  by (simp add: iter_rest_def iter_all_def IteratorHandler_SeekToFirst_def)

lemma iter_all_SeekToFirst [simp]: "iter_all (IteratorHandler_SeekToFirst it) = iter_all it"
  by (simp add: iter_all_def IteratorHandler_SeekToFirst_def)

lemma iter_rest_Nil_Valid: "iter_rest it = [] \<Longrightarrow> \<not> IteratorHandler_Valid it"
  by (simp add: Valid_iff_rest)

lemma iter_rest_Cons:
  assumes "iter_rest it = v # vs"
  obtains it' where "IteratorHandler_Valid it" "IteratorHandler_GetTuple it = Inr v"
    "IteratorHandler_Next it = Inr it'" "iter_rest it' = vs" "iter_all it' = iter_all it"
proof (rule that)
  from assms have p: "pos it < length (entries it)"
    by (metis IteratorHandler_Valid_def Valid_iff_rest list.distinct(1))
  then show "IteratorHandler_Valid it" by (simp add: IteratorHandler_Valid_def)
  from p assms show "IteratorHandler_GetTuple it = Inr v"
    by (auto simp: IteratorHandler_GetTuple_def IteratorHandler_Valid_def iter_rest_def
        Cons_nth_drop_Suc [symmetric])
  from p show "IteratorHandler_Next it = Inr (it\<lparr>pos := pos it + 1\<rparr>)"
    by (simp add: IteratorHandler_Next_def IteratorHandler_Valid_def)
  from p assms show "iter_rest (it\<lparr>pos := pos it + 1\<rparr>) = vs"
    by (auto simp: iter_rest_def Cons_nth_drop_Suc [symmetric])
  show "iter_all (it\<lparr>pos := pos it + 1\<rparr>) = iter_all it"
    by (simp add: iter_all_def)
qed

end
