(* ===== verification/Kv_Store.thy ===== *)
theory Kv_Store
  imports Expr_Eval
begin

section \<open>A key/value database in key order\<close>

text \<open>
  What \<^verbatim>\<open>leveldb/include/leveldb/db.h\<close> and \<^verbatim>\<open>write_batch.h\<close> promise the storage engine: the
  entries of a database in the order of the bytewise comparator, \<open>Put\<close> and \<open>Delete\<close> of single
  keys, and a \<open>WriteBatch\<close> whose updates are applied in their order. The laws that the clients
  use are the locale \<open>kv_laws\<close>; the sorted association list is its interpretation.
\<close>

type_synonym key = "byte list"
type_synonym kv = "(key \<times> byte list) list"

datatype batch_op = Batch_Put key "byte list" | Batch_Delete key

fun kv_put :: "key \<Rightarrow> byte list \<Rightarrow> kv \<Rightarrow> kv" where
  "kv_put k v [] = [(k, v)]"
| "kv_put k v ((k', v') # m) =
     (if k = k' then (k, v) # m
      else if bytes_less k k' then (k, v) # (k', v') # m
      else (k', v') # kv_put k v m)"

fun kv_delete :: "key \<Rightarrow> kv \<Rightarrow> kv" where
  "kv_delete k [] = []"
| "kv_delete k ((k', v') # m) = (if k = k' then m else (k', v') # kv_delete k m)"

definition kv_sorted :: "kv \<Rightarrow> bool" where
  "kv_sorted m \<longleftrightarrow> sorted_wrt bytes_less (map fst m)"

definition batch_step :: "batch_op \<Rightarrow> kv \<Rightarrow> kv" where
  "batch_step b m = (case b of Batch_Put k v \<Rightarrow> kv_put k v m | Batch_Delete k \<Rightarrow> kv_delete k m)"

definition batch_apply :: "batch_op list \<Rightarrow> kv \<Rightarrow> kv" where
  "batch_apply bs m = fold batch_step bs m"

text \<open>The update of a key that a batch makes last.\<close>

fun batch_last :: "batch_op list \<Rightarrow> key \<Rightarrow> byte list option option" where
  "batch_last [] k = None"
| "batch_last (b # bs) k =
     (case batch_last bs k of Some u \<Rightarrow> Some u
      | None \<Rightarrow> (case b of Batch_Put k' v \<Rightarrow> if k = k' then Some (Some v) else None
                | Batch_Delete k' \<Rightarrow> if k = k' then Some None else None))"

subsection \<open>The laws of the interface\<close>

locale kv_laws =
  fixes wf :: "'m \<Rightarrow> bool"
    and lookup :: "'m \<Rightarrow> key \<Rightarrow> byte list option"
    and put :: "key \<Rightarrow> byte list \<Rightarrow> 'm \<Rightarrow> 'm"
    and remove :: "key \<Rightarrow> 'm \<Rightarrow> 'm"
  assumes wf_put: "wf m \<Longrightarrow> wf (put k v m)"
    and wf_remove: "wf m \<Longrightarrow> wf (remove k m)"
    and lookup_put: "wf m \<Longrightarrow> lookup (put k v m) = (lookup m)(k \<mapsto> v)"
    and lookup_remove: "wf m \<Longrightarrow> lookup (remove k m) = (lookup m)(k := None)"
    and lookup_ext: "wf m \<Longrightarrow> wf m' \<Longrightarrow> lookup m = lookup m' \<Longrightarrow> m = m'"
begin

definition step :: "batch_op \<Rightarrow> 'm \<Rightarrow> 'm" where
  "step b m = (case b of Batch_Put k v \<Rightarrow> put k v m | Batch_Delete k \<Rightarrow> remove k m)"

lemma wf_step: "wf m \<Longrightarrow> wf (step b m)"
  by (simp add: step_def wf_put wf_remove split: batch_op.splits)

lemma wf_batch: "wf m \<Longrightarrow> wf (fold step bs m)"
  by (induction bs arbitrary: m) (auto simp: wf_step)

lemma lookup_batch:
  "wf m \<Longrightarrow> lookup (fold step bs m) k =
   (case batch_last bs k of Some u \<Rightarrow> u | None \<Rightarrow> lookup m k)"
proof (induction bs arbitrary: m)
  case (Cons b bs)
  from Cons.IH [OF wf_step [OF Cons.prems, of b]] Cons.prems show ?case
    by (auto simp: step_def lookup_put lookup_remove split: option.splits batch_op.splits)
qed simp

text \<open>A batch applied again changes nothing.\<close>

lemma batch_idem: "wf m \<Longrightarrow> fold step bs (fold step bs m) = fold step bs m"
proof (rule lookup_ext)
  assume m: "wf m"
  then show "lookup (fold step bs (fold step bs m)) = lookup (fold step bs m)"
    by (intro ext) (simp add: lookup_batch wf_batch split: option.splits)
qed (simp_all add: wf_batch)

end

subsection \<open>The sorted association list obeys them\<close>

lemma set_kv_put: "fst ` set (kv_put k v m) = insert k (fst ` set m)"
proof (induction m)
  case (Cons e m)
  then show ?case by (cases e) auto
qed simp

lemma set_kv_delete: "set (kv_delete k m) \<subseteq> set m"
proof (induction m)
  case (Cons e m)
  then show ?case by (cases e) auto
qed simp

lemma kv_sorted_Nil [simp]: "kv_sorted []"
  by (simp add: kv_sorted_def)

lemma kv_sorted_Cons:
  "kv_sorted ((k, v) # m) \<longleftrightarrow> (\<forall>k' \<in> fst ` set m. bytes_less k k') \<and> kv_sorted m"
  by (simp add: kv_sorted_def)

lemma kv_sorted_put: "kv_sorted m \<Longrightarrow> kv_sorted (kv_put k v m)"
proof (induction m)
  case (Cons e m)
  obtain k' v' where e: "e = (k', v')" by force
  show ?case
  proof (cases "k = k' \<or> bytes_less k k'")
    case True
    with Cons.prems e show ?thesis by (auto simp: kv_sorted_Cons intro: bytes_less_trans)
  next
    case False
    with bytes_less_total have "bytes_less k' k" by blast
    with Cons False e show ?thesis by (auto simp: kv_sorted_Cons set_kv_put)
  qed
qed (simp add: kv_sorted_def)

lemma kv_sorted_delete: "kv_sorted m \<Longrightarrow> kv_sorted (kv_delete k m)"
proof (induction m)
  case (Cons e m)
  then show ?case using set_kv_delete [of k m] by (cases e) (auto simp: kv_sorted_Cons)
qed simp

lemma kv_notin: "\<forall>k' \<in> fst ` set m. bytes_less k k' \<Longrightarrow> k \<notin> fst ` set m"
  using bytes_less_irrefl by blast

lemma map_of_kv_put: "kv_sorted m \<Longrightarrow> map_of (kv_put k v m) = (map_of m)(k \<mapsto> v)"
  by (induction m) (auto simp: kv_sorted_Cons fun_eq_iff)

lemma map_of_kv_delete: "kv_sorted m \<Longrightarrow> map_of (kv_delete k m) = (map_of m)(k := None)"
proof (induction m)
  case (Cons e m)
  obtain k' v' where e: "e = (k', v')" by force
  with Cons.prems have "map_of m k' = None" using kv_notin [of m k']
    by (simp add: kv_sorted_Cons map_of_eq_None_iff)
  with Cons e show ?case by (auto simp: kv_sorted_Cons fun_eq_iff)
qed simp

lemma kv_dom_min:
  "kv_sorted ((k, v) # m) \<Longrightarrow> k' \<in> dom (map_of ((k, v) # m)) \<Longrightarrow> k' = k \<or> bytes_less k k'"
  by (auto simp: kv_sorted_Cons dom_map_of_conv_image_fst)

lemma map_of_kv_ext:
  "kv_sorted m \<Longrightarrow> kv_sorted m' \<Longrightarrow> map_of m = map_of m' \<Longrightarrow> m = m'"
proof (induction m arbitrary: m')
  case Nil
  then show ?case by (metis map_of_eq_empty_iff map_of.simps(1))
next
  case (Cons e m)
  obtain k v where e: "e = (k, v)" by force
  from Cons.prems(3) e obtain e' n where m': "m' = e' # n"
    by (cases m') (auto simp: fun_eq_iff split: if_splits)
  obtain k' v' where e': "e' = (k', v')" by force
  have "k' = k"
  proof -
    have "k \<in> dom (map_of m')" "k' \<in> dom (map_of (e # m))"
      using Cons.prems(3) e e' m' by (metis domIff map_of_Cons_code(2) option.distinct(1))+
    with kv_dom_min [of k' v' n k] kv_dom_min [of k v m k'] Cons.prems e e' m'
    show ?thesis by (metis bytes_less_irrefl bytes_less_trans)
  qed
  moreover from this have "v' = v"
    using fun_cong [OF Cons.prems(3), of k] e e' m' by simp
  moreover have "map_of m = map_of n"
  proof
    fix x
    have "map_of m k = None" "map_of n k = None"
      using Cons.prems(1,2) e e' m' \<open>k' = k\<close> kv_notin [of m k] kv_notin [of n k]
      by (simp_all add: kv_sorted_Cons map_of_eq_None_iff)
    with fun_cong [OF Cons.prems(3), of x] e e' m' \<open>k' = k\<close> show "map_of m x = map_of n x"
      by (cases "x = k") simp_all
  qed
  with Cons.IH Cons.prems e e' m' have "m = n" by (simp add: kv_sorted_Cons)
  ultimately show ?case using e e' m' by simp
qed

interpretation kvs: kv_laws kv_sorted map_of kv_put kv_delete
  by unfold_locales (simp_all add: kv_sorted_put kv_sorted_delete map_of_kv_put map_of_kv_delete
      map_of_kv_ext)

lemma batch_step_eq: "batch_step = kvs.step"
  by (simp add: batch_step_def kvs.step_def fun_eq_iff)

lemma batch_apply_sorted: "kv_sorted m \<Longrightarrow> kv_sorted (batch_apply bs m)"
  by (simp add: batch_apply_def batch_step_eq kvs.wf_batch)

lemma batch_apply_lookup:
  "kv_sorted m \<Longrightarrow> map_of (batch_apply bs m) k =
   (case batch_last bs k of Some u \<Rightarrow> u | None \<Rightarrow> map_of m k)"
  by (simp add: batch_apply_def batch_step_eq kvs.lookup_batch)

lemma batch_apply_twice: "kv_sorted m \<Longrightarrow> batch_apply bs (batch_apply bs m) = batch_apply bs m"
  by (simp add: batch_apply_def batch_step_eq kvs.batch_idem)

lemma batch_apply_snoc: "batch_apply (bs @ [b]) m = batch_step b (batch_apply bs m)"
  by (simp add: batch_apply_def)

end
