(* ===== verification/Level_Store.thy ===== *)
theory Level_Store
  imports Schema Iterator_Handler Kv_Store "HOL-Library.AList"
begin

section \<open>The storage engine\<close>

text \<open>
  Models \<^verbatim>\<open>storage/level_store.cpp\<close>, \<^verbatim>\<open>storage/write_handler_impl.cpp\<close>, the constructor of
  \<^verbatim>\<open>storage/iterator_handler_impl.cpp\<close> and \<^verbatim>\<open>include/storage/io_handler.h\<close>: the catalog in memory and
  in the two system databases, and the shared read and write handlers. A database directory is a
  \<open>kv\<close>; a directory that is open holds its lock, so a second \<open>DB::Open\<close> of it fails. Keys of new
  entries (boost's random UUIDs) and \<open>rand()\<close> are streams in the state with a position each.
\<close>

subsection \<open>State\<close>

record WriteHandlerImpl =
  wh_batch :: "batch_op list"
  wh_reference :: int

record IteratorHandlerImpl =
  ih_iter :: Iterator
  ih_reference :: int

record LevelStore =
  ls_path :: string
  data_dir :: bool
  files :: "string \<Rightarrow> kv option"
  locked :: "string \<Rightarrow> bool"
  db_class :: bool
  db_attribute :: bool
  name_rel_map :: "string \<Rightarrow> nat option"
  id_rel_map :: "u32 \<Rightarrow> nat option"
  all_relations :: "Relation list"
  write_handler_map :: "(u32 \<times> WriteHandlerImpl) list"
  iterator_handler_map :: "(u32 \<times> IteratorHandlerImpl) list"
  uuid :: "nat \<Rightarrow> key"
  uuid_next :: nat
  rand :: "nat \<Rightarrow> u32"
  rand_next :: nat

definition SYS_RELATION :: u32 where "SYS_RELATION = 0"
definition SYS_ATTRIBUTE :: u32 where "SYS_ATTRIBUTE = 1"

definition GetDBFilePath :: "LevelStore \<Rightarrow> u32 \<Rightarrow> string" where
  "GetDBFilePath st i = ls_path st @ ''/'' @ show_nat (unat i) @ ''.db''"

definition FileExists :: "LevelStore \<Rightarrow> string \<Rightarrow> bool" where
  "FileExists st p = (files st p \<noteq> None)"

text \<open>Paths depend on nothing but the data directory.\<close>

lemma GetDBFilePath_update [simp]:
  "GetDBFilePath (st\<lparr>data_dir := x0\<rparr>) = GetDBFilePath st"
  "GetDBFilePath (st\<lparr>files := x1\<rparr>) = GetDBFilePath st"
  "GetDBFilePath (st\<lparr>locked := x2\<rparr>) = GetDBFilePath st"
  "GetDBFilePath (st\<lparr>db_class := x3\<rparr>) = GetDBFilePath st"
  "GetDBFilePath (st\<lparr>db_attribute := x4\<rparr>) = GetDBFilePath st"
  "GetDBFilePath (st\<lparr>name_rel_map := x5\<rparr>) = GetDBFilePath st"
  "GetDBFilePath (st\<lparr>id_rel_map := x6\<rparr>) = GetDBFilePath st"
  "GetDBFilePath (st\<lparr>all_relations := x7\<rparr>) = GetDBFilePath st"
  "GetDBFilePath (st\<lparr>write_handler_map := x8\<rparr>) = GetDBFilePath st"
  "GetDBFilePath (st\<lparr>iterator_handler_map := x9\<rparr>) = GetDBFilePath st"
  "GetDBFilePath (st\<lparr>uuid_next := x10\<rparr>) = GetDBFilePath st"
  "GetDBFilePath (st\<lparr>rand_next := x11\<rparr>) = GetDBFilePath st"
  by (simp_all add: GetDBFilePath_def fun_eq_iff)

subsection \<open>Databases\<close>

definition DB_Open :: "LevelStore \<Rightarrow> bool \<Rightarrow> string \<Rightarrow> bool \<times> LevelStore" where
  "DB_Open st create_if_missing p =
     (if \<not> data_dir st \<or> locked st p then (False, st)
      else case files st p of
        Some m \<Rightarrow> (True, st\<lparr>locked := (locked st)(p := True)\<rparr>)
      | None \<Rightarrow> if create_if_missing
                then (True, st\<lparr>files := (files st)(p \<mapsto> []), locked := (locked st)(p := True)\<rparr>)
                else (False, st))"

definition DB_Close :: "LevelStore \<Rightarrow> string \<Rightarrow> LevelStore" where
  "DB_Close st p = st\<lparr>locked := (locked st)(p := False)\<rparr>"

definition DB_entries :: "LevelStore \<Rightarrow> string \<Rightarrow> kv" where
  "DB_entries st p = (case files st p of Some m \<Rightarrow> m | None \<Rightarrow> [])"

definition DB_Write :: "LevelStore \<Rightarrow> string \<Rightarrow> batch_op list \<Rightarrow> LevelStore" where
  "DB_Write st p bs = st\<lparr>files := (files st)(p \<mapsto> batch_apply bs (DB_entries st p))\<rparr>"

definition GenUUID :: "LevelStore \<Rightarrow> key \<times> LevelStore" where
  "GenUUID st = (uuid st (uuid_next st), st\<lparr>uuid_next := uuid_next st + 1\<rparr>)"

subsection \<open>The catalog\<close>

definition InsertRelation :: "LevelStore \<Rightarrow> Relation \<Rightarrow> bool \<times> LevelStore" where
  "InsertRelation st r =
     (if name_rel_map st (rel_name r) \<noteq> None \<or> id_rel_map st (relation_id r) \<noteq> None
      then (False, st)
      else let i = length (all_relations st) in
        (True, st\<lparr>name_rel_map := (name_rel_map st)(rel_name r \<mapsto> i),
                  id_rel_map := (id_rel_map st)(relation_id r \<mapsto> i),
                  all_relations := all_relations st @ [r]\<rparr>))"

definition GetRelation :: "LevelStore \<Rightarrow> string \<Rightarrow> Relation option" where
  "GetRelation st name = map_option (\<lambda>i. all_relations st ! i) (name_rel_map st name)"

fun GenRelationID :: "nat \<Rightarrow> LevelStore \<Rightarrow> (u32 \<times> LevelStore) res" where
  "GenRelationID 0 st = Inl Out_of_fuel"
| "GenRelationID (Suc n) st =
     (let i = rand st (rand_next st); st = st\<lparr>rand_next := rand_next st + 1\<rparr> in
      if id_rel_map st i = None then Inr (i, st) else GenRelationID n st)"

text \<open>
  A catalog tuple is written under a fresh key. (The source builds the key's slice from a
  temporary string; the stream \<open>uuid\<close> stands for the bytes that it then reads.)
\<close>

definition put_meta :: "LevelStore \<Rightarrow> u32 \<Rightarrow> raw_tuple \<times> u32 \<Rightarrow> LevelStore res" where
  "put_meta st db ts =
     (let (k, st) = GenUUID st in
      bind_res (deref (unat (snd ts)) (fst ts)) (\<lambda>v.
      Inr (DB_Write st (GetDBFilePath st db) [Batch_Put k v])))"

fun put_attributes :: "LevelStore \<Rightarrow> Attribute list \<Rightarrow> LevelStore res" where
  "put_attributes st [] = Inr st"
| "put_attributes st (a # as) =
     bind_res (Attribute_ToTuple a) (\<lambda>ts.
     if \<not> db_attribute st then Inl Null_pointer
     else bind_res (put_meta st SYS_ATTRIBUTE ts) (\<lambda>st. put_attributes st as))"

definition WriteRelMeta :: "LevelStore \<Rightarrow> Relation \<Rightarrow> LevelStore res" where
  "WriteRelMeta st r =
     bind_res (Relation_ToTuple r) (\<lambda>ts.
     if \<not> db_class st then Inl Null_pointer
     else bind_res (put_meta st SYS_RELATION ts) (\<lambda>st. put_attributes st (attributes r)))"

text \<open>The \<open>switch\<close> over the column type.\<close>

definition column_size :: "ColumnSchema \<Rightarrow> (u32 \<times> bool) res" where
  "column_size col = (case cs_data_type col of
     kDTInteger \<Rightarrow> Inr (8, False)
   | kDTFloat \<Rightarrow> Inr (8, False)
   | kDTVarchar \<Rightarrow> Inr (of_int (cs_length col), True)
   | kDTDate \<Rightarrow> Inr (8, False)
   | _ \<Rightarrow> Inl Assert_failed)"

fun create_columns :: "nat \<Rightarrow> ColumnSchema list \<Rightarrow> Relation \<Rightarrow> Relation res" where
  "create_columns i [] rel = Inr rel"
| "create_columns i (col # cols) rel =
     bind_res (column_size col) (\<lambda>(n, variable).
     create_columns (Suc i) cols (Relation_AddAttribute rel
       (Attribute_default\<lparr>attr_name := cs_name col, attr_id := of_nat i,
          attr_data_type := cs_data_type col, attr_is_null := cs_is_null col,
          max_length := n, is_variable := variable\<rparr>) True))"

definition CreateRelation :: "nat \<Rightarrow> LevelStore \<Rightarrow> TableSchema \<Rightarrow> (bool \<times> LevelStore) res" where
  "CreateRelation fuel st schema =
     bind_res (GenRelationID fuel st) (\<lambda>(i, st).
     bind_res (create_columns 0 (column_list schema)
       (Relation_new\<lparr>rel_name := ts_name schema, relation_id := i\<rparr>)) (\<lambda>rel.
     bind_res (WriteRelMeta st rel) (\<lambda>st.
     let (inserted, st) = InsertRelation st rel in Inr (True, st))))"

definition DropRelation :: "LevelStore \<Rightarrow> string \<Rightarrow> bool \<times> LevelStore" where
  "DropRelation st name = (True, st)"

definition CreateIndex :: "LevelStore \<Rightarrow> bool \<times> LevelStore" where
  "CreateIndex st = (True, st)"

text \<open>One \<open>Attribute\<close> object is reused, so each column keeps what the next does not overwrite.\<close>

definition sys_column :: "string \<Rightarrow> u32 \<Rightarrow> DataType \<Rightarrow> u32 \<Rightarrow> Attribute" where
  "sys_column name i t n = Attribute_default\<lparr>attr_name := name, attr_id := i, attr_data_type := t,
     attr_is_null := False, max_length := n, is_variable := False\<rparr>"

definition add_columns :: "Relation \<Rightarrow> Attribute list \<Rightarrow> Relation" where
  "add_columns rel as = foldl (\<lambda>rel a. Relation_AddAttribute rel a True) rel as"

definition rel_class :: Relation where
  "rel_class = add_columns (Relation_new\<lparr>rel_name := ''sys_class'', relation_id := SYS_RELATION\<rparr>)
     [sys_column ''id'' 0 kDTInteger 8, sys_column ''name'' 1 kDTVarchar 512]"

definition rel_attr :: Relation where
  "rel_attr = add_columns (Relation_new\<lparr>rel_name := ''sys_attribute'', relation_id := SYS_ATTRIBUTE\<rparr>)
     [sys_column ''id'' 0 kDTInteger 8, sys_column ''rel_id'' 1 kDTInteger 8,
      sys_column ''name'' 2 kDTVarchar 512, sys_column ''type'' 3 kDTInteger 8,
      sys_column ''size'' 4 kDTInteger 8]"

definition CreateSystemTable :: "LevelStore \<Rightarrow> LevelStore res" where
  "CreateSystemTable st =
     bind_res (WriteRelMeta st rel_class) (\<lambda>st. WriteRelMeta st rel_attr)"

fun read_relations :: "kv \<Rightarrow> LevelStore \<Rightarrow> LevelStore res" where
  "read_relations [] st = Inr st"
| "read_relations ((k, v) # m) st =
     bind_res (Relation_FromTuple Relation_new (map Some v)) (\<lambda>r.
     read_relations m (snd (InsertRelation st r)))"

fun read_attributes :: "kv \<Rightarrow> LevelStore \<Rightarrow> LevelStore res" where
  "read_attributes [] st = Inr st"
| "read_attributes ((k, v) # m) st =
     bind_res (Attribute_FromTuple Attribute_default (map Some v)) (\<lambda>a.
     case id_rel_map st (attr_relation_id a) of
       None \<Rightarrow> Inl Assert_failed
     | Some i \<Rightarrow> read_attributes m (st\<lparr>all_relations :=
         (all_relations st)[i := Relation_AddAttribute (all_relations st ! i) a False]\<rparr>))"

definition ReadSystemTable :: "LevelStore \<Rightarrow> (bool \<times> LevelStore) res" where
  "ReadSystemTable st =
     bind_res (read_relations (DB_entries st (GetDBFilePath st SYS_RELATION)) st) (\<lambda>st.
     bind_res (read_attributes (DB_entries st (GetDBFilePath st SYS_ATTRIBUTE)) st) (\<lambda>st.
     Inr (True, st)))"

subsection \<open>Start and stop\<close>

text \<open>The two databases opened in a row; \<open>k\<close> runs when both are open.\<close>

definition open_system :: "LevelStore \<Rightarrow> bool \<Rightarrow> bool \<times> LevelStore" where
  "open_system st create_if_missing =
     (let (ok, st) = DB_Open st create_if_missing (GetDBFilePath st SYS_RELATION) in
      if \<not> ok then (False, st)
      else let st = st\<lparr>db_class := True\<rparr>;
               (ok, st) = DB_Open st create_if_missing (GetDBFilePath st SYS_ATTRIBUTE) in
        if \<not> ok then (False, st) else (True, st\<lparr>db_attribute := True\<rparr>))"

definition close_system :: "LevelStore \<Rightarrow> LevelStore" where
  "close_system st =
     (let st = (if db_attribute st then DB_Close st (GetDBFilePath st SYS_ATTRIBUTE) else st);
          st = (if db_class st then DB_Close st (GetDBFilePath st SYS_RELATION) else st) in
      st\<lparr>db_class := False, db_attribute := False\<rparr>)"

definition InitDB :: "LevelStore \<Rightarrow> (bool \<times> LevelStore) res" where
  "InitDB st =
     (if data_dir st then Inr (False, st)
      else let (ok, st) = open_system (st\<lparr>data_dir := True\<rparr>) True in
        if \<not> ok then Inr (False, st)
        else bind_res (CreateSystemTable st) (\<lambda>st. Inr (True, close_system st)))"

definition Start_open :: "LevelStore \<Rightarrow> (bool \<times> LevelStore) res" where
  "Start_open st =
     (let (ok, st) = open_system st False in if \<not> ok then Inr (False, st) else ReadSystemTable st)"

definition Start :: "LevelStore \<Rightarrow> (bool \<times> LevelStore) res" where
  "Start st =
     (if \<not> FileExists st (GetDBFilePath st SYS_RELATION) \<or>
         \<not> FileExists st (GetDBFilePath st SYS_ATTRIBUTE)
      then bind_res (InitDB st) (\<lambda>(ok, st). if \<not> ok then Inl Process_exit else Start_open st)
      else Start_open st)"

definition Stop :: "LevelStore \<Rightarrow> LevelStore" where
  "Stop st =
     (let st = fold (\<lambda>(i, h) st. DB_Close st (GetDBFilePath st i)) (write_handler_map st) st;
          st = fold (\<lambda>(i, h) st. DB_Close st (GetDBFilePath st i)) (iterator_handler_map st) st in
      close_system (st\<lparr>write_handler_map := [], iterator_handler_map := []\<rparr>))"

subsection \<open>Handlers\<close>

text \<open>A handler is named by its kind and relation; \<open>IO_null\<close> is the null pointer.\<close>

datatype io_handler = IO_null | IO_write u32 | IO_iterator u32

definition NewIterator :: "LevelStore \<Rightarrow> u32 \<Rightarrow> LevelStore res" where
  "NewIterator st relid =
     (case map_of (iterator_handler_map st) relid of
        None \<Rightarrow>
          let p = GetDBFilePath st relid; (ok, st) = DB_Open st True p in
          if \<not> ok then Inl Assert_failed
          else Inr (st\<lparr>iterator_handler_map := AList.update relid
            \<lparr>ih_iter = Iterator_new (DB_entries st p), ih_reference = 1\<rparr> (iterator_handler_map st)\<rparr>)
      | Some h \<Rightarrow> Inr (st\<lparr>iterator_handler_map := AList.update relid
            (h\<lparr>ih_reference := ih_reference h + 1\<rparr>) (iterator_handler_map st)\<rparr>))"

definition NewWriteHandler :: "LevelStore \<Rightarrow> u32 \<Rightarrow> LevelStore res" where
  "NewWriteHandler st relid =
     (case map_of (write_handler_map st) relid of
        None \<Rightarrow>
          let p = GetDBFilePath st relid; (ok, st) = DB_Open st True p in
          if \<not> ok then Inl Assert_failed
          else Inr (st\<lparr>write_handler_map := AList.update relid
            \<lparr>wh_batch = [], wh_reference = 1\<rparr> (write_handler_map st)\<rparr>)
      | Some h \<Rightarrow> Inr (st\<lparr>write_handler_map := AList.update relid
            (h\<lparr>wh_reference := wh_reference h + 1\<rparr>) (write_handler_map st)\<rparr>))"

text \<open>A handler that is no longer in its map has been freed: using it is a fault.\<close>

definition DeleteIOObject :: "LevelStore \<Rightarrow> io_handler \<Rightarrow> LevelStore res" where
  "DeleteIOObject st io = (case io of
     IO_null \<Rightarrow> Inl Null_pointer
   | IO_write relid \<Rightarrow> (case map_of (write_handler_map st) relid of
       None \<Rightarrow> Inl Out_of_bounds
     | Some h \<Rightarrow> if wh_reference h - 1 = 0
         then Inr (DB_Close (st\<lparr>write_handler_map := AList.delete relid (write_handler_map st)\<rparr>)
                     (GetDBFilePath st relid))
         else Inr (st\<lparr>write_handler_map := AList.update relid
                (h\<lparr>wh_reference := wh_reference h - 1\<rparr>) (write_handler_map st)\<rparr>))
   | IO_iterator relid \<Rightarrow> (case map_of (iterator_handler_map st) relid of
       None \<Rightarrow> Inl Out_of_bounds
     | Some h \<Rightarrow> if ih_reference h - 1 = 0
         then Inr (DB_Close (st\<lparr>iterator_handler_map := AList.delete relid (iterator_handler_map st)\<rparr>)
                     (GetDBFilePath st relid))
         else Inr (st\<lparr>iterator_handler_map := AList.update relid
                (h\<lparr>ih_reference := ih_reference h - 1\<rparr>) (iterator_handler_map st)\<rparr>)))"

text \<open>The operations of a write handler. A commit does not clear the batch.\<close>

definition batch_add :: "LevelStore \<Rightarrow> u32 \<Rightarrow> batch_op \<Rightarrow> LevelStore res" where
  "batch_add st relid b = (case map_of (write_handler_map st) relid of
     None \<Rightarrow> Inl Out_of_bounds
   | Some h \<Rightarrow> Inr (st\<lparr>write_handler_map := AList.update relid
       (h\<lparr>wh_batch := wh_batch h @ [b]\<rparr>) (write_handler_map st)\<rparr>))"

definition WriteHandler_PutKey :: "LevelStore \<Rightarrow> u32 \<Rightarrow> key \<Rightarrow> byte list \<Rightarrow> LevelStore res" where
  "WriteHandler_PutKey st relid tuple_id tuple = batch_add st relid (Batch_Put tuple_id tuple)"

definition WriteHandler_Put :: "LevelStore \<Rightarrow> u32 \<Rightarrow> byte list \<Rightarrow> LevelStore res" where
  "WriteHandler_Put st relid tuple =
     (let (k, st) = GenUUID st in WriteHandler_PutKey st relid k tuple)"

definition WriteHandler_Delete :: "LevelStore \<Rightarrow> u32 \<Rightarrow> key \<Rightarrow> LevelStore res" where
  "WriteHandler_Delete st relid tuple_id = batch_add st relid (Batch_Delete tuple_id)"

text \<open>\<open>io_ok\<close> says whether LevelDB's \<open>Write\<close> succeeded (it may fail on the disk).\<close>

definition WriteHandler_Commit :: "bool \<Rightarrow> LevelStore \<Rightarrow> u32 \<Rightarrow> (bool \<times> LevelStore) res" where
  "WriteHandler_Commit io_ok st relid = (case map_of (write_handler_map st) relid of
     None \<Rightarrow> Inl Out_of_bounds
   | Some h \<Rightarrow> if io_ok then Inr (True, DB_Write st (GetDBFilePath st relid) (wh_batch h))
              else Inr (False, st))"

end
