(* ===== verification/Parser_Ast.thy ===== *)
theory Parser_Ast
  imports Db_Types
begin

section \<open>Syntax trees and the parser's actions\<close>

text \<open>
  Models the syntax trees of \<^verbatim>\<open>include/parser/*.h\<close>, the node constructors of
  \<^verbatim>\<open>parser/parser_context.cpp\<close>, the list actions \<open>RAppend\<close> and \<open>LAppend\<close> of \<^verbatim>\<open>ast_base.h\<close>, and
  the action of the rule \<open>data_type\<close> of \<^verbatim>\<open>parser.yy\<close>. A chain of nodes linked by \<open>next_\<close> is the list of the
  nodes from its head, the null pointer the empty list. The number of nodes made so far is the
  state of the context; it gives every column reference its identity, by which the realizer
  finds it again. A failed \<open>dynamic_cast\<close> gives the null pointer, here \<open>None\<close>.
\<close>

subsection \<open>Trees\<close>

datatype OrderType = kAsc | kDesc

datatype JoinType = kJoinLeftOutter | kJoinRightOutter | kJoinFullOutter | kJoinInner | kJoinCross

text \<open>A constant carries its type, its string and its integer.\<close>

record ConstValue =
  cv_data_type :: DataType
  str_val :: string
  int_val :: u64

datatype expr =
    ColumnReference nat string string
  | ConstExpr ConstValue
  | Operation OperatorType "expr option" "expr option"

datatype table_factor =
    TableReference string string
  | JoinClause "table_factor option" "table_factor option" "expr option" JoinType
  | SubQuery "select_stmt option" string
and select_stmt =
  SelectStmt (select_list: "(expr \<times> string) list") (table_reference: "table_factor list")
    (opt_where: "expr list") (opt_group: "expr list") (opt_order: "(expr option \<times> bool) list")

record ColumnDefine =
  def_name :: string
  def_data_type :: DataType
  def_length :: int
  def_primary_key :: bool

record CreateStmt =
  create_table_name :: string
  column_define_list :: "ColumnDefine list"

record LoadStmt =
  from_stdin :: bool
  load_table_name :: string
  load_file_path :: string
  copy_delimiter :: char
  load_column_names :: "string list"

record ExportStmt =
  to_stdout :: bool
  export_table_name :: string
  export_file_path :: string
  export_column_names :: "string list"

record InsertStmt =
  insert_table_name :: string
  opt_column_names :: "string list"
  insert_values :: "ConstValue list"

record UpdateStmt =
  update_table_name :: string
  set_clause_list :: "expr option list"
  opt_from_clause :: "table_factor list"
  update_where :: "expr option list"

datatype ast =
    AST_Name string
  | AST_Expr expr
  | AST_Table table_factor
  | AST_Select select_stmt
  | AST_Target expr string
  | AST_Order "expr option" bool
  | AST_ColumnDefine ColumnDefine
  | AST_Create CreateStmt
  | AST_CreateAs string "select_stmt option"
  | AST_Load LoadStmt
  | AST_Export ExportStmt
  | AST_Insert InsertStmt
  | AST_Update UpdateStmt

definition RAppend :: "ast list \<Rightarrow> ast list \<Rightarrow> ast list res" where
  "RAppend this ast = (if this = [] then Inl Null_pointer else Inr (this @ ast))"

definition LAppend :: "ast list \<Rightarrow> ast list \<Rightarrow> ast list res" where
  "LAppend this ast = (if this = [] then Inl Null_pointer else Inr (ast @ this))"

subsection \<open>Casts\<close>

fun as_name :: "ast \<Rightarrow> string option" where
  "as_name (AST_Name s) = Some s"
| "as_name _ = None"

fun as_const :: "ast \<Rightarrow> ConstValue option" where
  "as_const (AST_Expr (ConstExpr c)) = Some c"
| "as_const _ = None"

fun as_expr :: "ast \<Rightarrow> expr option" where
  "as_expr (AST_Expr e) = Some e"
| "as_expr _ = None"

fun as_operation :: "ast \<Rightarrow> expr option" where
  "as_operation (AST_Expr (Operation op l r)) = Some (Operation op l r)"
| "as_operation _ = None"

fun as_table :: "ast \<Rightarrow> table_factor option" where
  "as_table (AST_Table t) = Some t"
| "as_table _ = None"

fun as_select :: "ast \<Rightarrow> select_stmt option" where
  "as_select (AST_Select s) = Some s"
| "as_select _ = None"

fun as_target :: "ast \<Rightarrow> (expr \<times> string) option" where
  "as_target (AST_Target e a) = Some (e, a)"
| "as_target _ = None"

fun as_order :: "ast \<Rightarrow> (expr option \<times> bool) option" where
  "as_order (AST_Order e d) = Some (e, d)"
| "as_order _ = None"

fun as_column_define :: "ast \<Rightarrow> ColumnDefine option" where
  "as_column_define (AST_ColumnDefine d) = Some d"
| "as_column_define _ = None"

text \<open>The loop over a chain that casts, asserts and collects.\<close>

fun collect :: "('a \<Rightarrow> 'b option) \<Rightarrow> 'a list \<Rightarrow> 'b list res" where
  "collect cast [] = Inr []"
| "collect cast (a # as) =
     (case cast a of None \<Rightarrow> Inl Assert_failed
      | Some b \<Rightarrow> bind_res (collect cast as) (\<lambda>bs. Inr (b # bs)))"

definition assert_some :: "'a option \<Rightarrow> 'a res" where
  "assert_some x = (case x of None \<Rightarrow> Inl Assert_failed | Some a \<Rightarrow> Inr a)"

definition deref_some :: "'a option \<Rightarrow> 'a res" where
  "deref_some x = (case x of None \<Rightarrow> Inl Null_pointer | Some a \<Rightarrow> Inr a)"

text \<open>A cast of a pointer that may be null.\<close>

definition opt_cast :: "('a \<Rightarrow> 'b option) \<Rightarrow> 'a option \<Rightarrow> 'b option" where
  "opt_cast cast p = Option.bind p cast"

subsection \<open>Nodes\<close>

text \<open>Upper-casing of names is boost's \<open>to_upper\<close>.\<close>

definition NewReferenceName :: "(string \<Rightarrow> string) \<Rightarrow> nat \<Rightarrow> string \<Rightarrow> ast \<times> nat" where
  "NewReferenceName to_upper n str = (AST_Name (to_upper str), n + 1)"

definition NewConstValue_string :: "nat \<Rightarrow> string \<Rightarrow> ast \<times> nat" where
  "NewConstValue_string n str =
     (AST_Expr (ConstExpr \<lparr>cv_data_type = kDTVarchar, str_val = str, int_val = 0\<rparr>), n + 1)"

definition NewConstValue_int :: "nat \<Rightarrow> u64 \<Rightarrow> ast \<times> nat" where
  "NewConstValue_int n i =
     (AST_Expr (ConstExpr \<lparr>cv_data_type = kDTInteger, str_val = [], int_val = i\<rparr>), n + 1)"

definition NewColumnReference :: "nat \<Rightarrow> ast option \<Rightarrow> ast option \<Rightarrow> (ast \<times> nat) res" where
  "NewColumnReference n opt_table_name column_name =
     (if column_name = None then Inl Assert_failed
      else bind_res (case opt_table_name of None \<Rightarrow> Inr [] | Some t \<Rightarrow> assert_some (as_name t)) (\<lambda>tname.
        bind_res (assert_some (opt_cast as_name column_name)) (\<lambda>cname.
        Inr (AST_Expr (ColumnReference n tname cname), n + 1))))"

definition NewSelectTarget :: "nat \<Rightarrow> ast option \<Rightarrow> ast option \<Rightarrow> (ast \<times> nat) res" where
  "NewSelectTarget n e alias_name =
     bind_res (assert_some (opt_cast as_expr e)) (\<lambda>select_expr.
     bind_res (case alias_name of None \<Rightarrow> Inr [] | Some a \<Rightarrow> assert_some (as_name a)) (\<lambda>alias.
     Inr (AST_Target select_expr alias, n + 1)))"

definition NewOrderClause :: "nat \<Rightarrow> ast option \<Rightarrow> OrderType \<Rightarrow> ast \<times> nat" where
  "NewOrderClause n e ord = (AST_Order (opt_cast as_expr e) (ord = kDesc), n + 1)"

text \<open>
  The constructor of \<open>TableReference\<close> drops its argument, \<open>SetAliasName\<close> writes \<open>table_name_\<close>, and
  the alias is cast from the table name: the node always has the table's name and no alias.
\<close>

definition NewTableReference :: "nat \<Rightarrow> ast option \<Rightarrow> ast option \<Rightarrow> (ast \<times> nat) res" where
  "NewTableReference n table_name alias =
     (let tname = opt_cast as_name table_name; aname = opt_cast as_name table_name in
      bind_res (assert_some tname) (\<lambda>_.
      Inr (AST_Table (TableReference (case aname of None \<Rightarrow> [] | Some a \<Rightarrow> a) []), n + 1)))"

definition NewSubquery :: "nat \<Rightarrow> ast option \<Rightarrow> ast option \<Rightarrow> (ast \<times> nat) res" where
  "NewSubquery n stmt alias =
     bind_res (case alias of None \<Rightarrow> Inr [] | Some a \<Rightarrow> deref_some (as_name a)) (\<lambda>alias_name.
     Inr (AST_Table (SubQuery (opt_cast as_select stmt) alias_name), n + 1))"

definition NewJoinClause :: "nat \<Rightarrow> ast option \<Rightarrow> ast option \<Rightarrow> ast option \<Rightarrow> JoinType \<Rightarrow> ast \<times> nat" where
  "NewJoinClause n l r cond type =
     (AST_Table (JoinClause (opt_cast as_table l) (opt_cast as_table r) (opt_cast as_expr cond) type), n + 1)"

definition NewExpression :: "nat \<Rightarrow> OperatorType \<Rightarrow> ast option \<Rightarrow> ast option \<Rightarrow> ast \<times> nat" where
  "NewExpression n op l r = (AST_Expr (Operation op (opt_cast as_expr l) (opt_cast as_expr r)), n + 1)"

text \<open>The macros that pack a type and a length into 32 bits.\<close>

definition LOW_INT16 :: "u32 \<Rightarrow> u16" where "LOW_INT16 l = ucast l"
definition HIGH_INT16 :: "u32 \<Rightarrow> u16" where "HIGH_INT16 l = ucast (signed_drop_bit 16 l)"
definition MAKE_INT32 :: "u32 \<Rightarrow> u32 \<Rightarrow> u32" where "MAKE_INT32 high16 low16 = push_bit 16 high16 OR low16"

text \<open>\<open>PRIMARY_KEY && flag\<close> is true for every flag that is not zero.\<close>

definition NewColumnDefine :: "nat \<Rightarrow> ast option \<Rightarrow> u32 \<Rightarrow> u32 \<Rightarrow> (ast \<times> nat) res" where
  "NewColumnDefine n column_name type_and_length flag =
     bind_res (assert_some (opt_cast as_name column_name)) (\<lambda>name.
     Inr (AST_ColumnDefine \<lparr>def_name = name,
       def_data_type = DataType_cast (scast (LOW_INT16 type_and_length)),
       def_length = sint (HIGH_INT16 type_and_length), def_primary_key = (flag \<noteq> 0)\<rparr>, n + 1))"

subsection \<open>Statements\<close>

definition NewCreateStmt :: "nat \<Rightarrow> ast option \<Rightarrow> ast list \<Rightarrow> (ast \<times> nat) res" where
  "NewCreateStmt n table_name col_def_list =
     bind_res (deref_some (opt_cast as_name table_name)) (\<lambda>name.
     bind_res (collect as_column_define col_def_list) (\<lambda>defs.
     Inr (AST_Create \<lparr>create_table_name = name, column_define_list = defs\<rparr>, n + 1)))"

text \<open>This node is not put into the list of nodes.\<close>

definition NewCreateAsStmt :: "nat \<Rightarrow> ast option \<Rightarrow> ast option \<Rightarrow> (ast \<times> nat) res" where
  "NewCreateAsStmt n table_name sub_select =
     bind_res (assert_some (opt_cast as_name table_name)) (\<lambda>name.
     Inr (AST_CreateAs name (opt_cast as_select sub_select), n))"

definition NewLoadStmt ::
  "nat \<Rightarrow> ast option \<Rightarrow> ast list \<Rightarrow> ast option \<Rightarrow> string option \<Rightarrow> (ast \<times> nat) res" where
  "NewLoadStmt n table_name column_name_list file_path delimiter =
     (let d = (case delimiter of Some [c] \<Rightarrow> c | _ \<Rightarrow> CHR '','') in
      bind_res (assert_some (opt_cast as_name table_name)) (\<lambda>name.
      bind_res (collect as_name column_name_list) (\<lambda>columns.
      case file_path of
        None \<Rightarrow> Inr (AST_Load \<lparr>from_stdin = True, load_table_name = name, load_file_path = [],
                   copy_delimiter = d, load_column_names = columns\<rparr>, n + 1)
      | Some f \<Rightarrow> bind_res (assert_some (as_const f)) (\<lambda>c.
          Inr (AST_Load \<lparr>from_stdin = False, load_table_name = name, load_file_path = str_val c,
                 copy_delimiter = d, load_column_names = columns\<rparr>, n + 1)))))"

definition NewExportStmt ::
  "nat \<Rightarrow> ast option \<Rightarrow> ast list \<Rightarrow> ast option \<Rightarrow> string option \<Rightarrow> (ast \<times> nat) res" where
  "NewExportStmt n table_name column_name_list file_path delimiter =
     bind_res (assert_some (opt_cast as_name table_name)) (\<lambda>name.
     bind_res (collect as_name column_name_list) (\<lambda>columns.
     case file_path of
       None \<Rightarrow> Inr (AST_Export \<lparr>to_stdout = True, export_table_name = name, export_file_path = [],
                  export_column_names = columns\<rparr>, n + 1)
     | Some f \<Rightarrow> bind_res (assert_some (as_const f)) (\<lambda>c.
         Inr (AST_Export \<lparr>to_stdout = False, export_table_name = name, export_file_path = str_val c,
                export_column_names = columns\<rparr>, n + 1))))"

text \<open>The second loop runs over the column names again, not over \<open>value_list\<close>.\<close>

definition NewInsertStmt :: "nat \<Rightarrow> ast option \<Rightarrow> ast list \<Rightarrow> ast list \<Rightarrow> (ast \<times> nat) res" where
  "NewInsertStmt n table_name column_name_list value_list =
     bind_res (assert_some (opt_cast as_name table_name)) (\<lambda>name.
     bind_res (collect as_name column_name_list) (\<lambda>columns.
     bind_res (collect as_const column_name_list) (\<lambda>vals.
     Inr (AST_Insert \<lparr>insert_table_name = name, opt_column_names = columns, insert_values = vals\<rparr>, n + 1))))"

definition NewSelectStmt ::
  "nat \<Rightarrow> ast list \<Rightarrow> ast list \<Rightarrow> ast list \<Rightarrow> ast list \<Rightarrow> ast list \<Rightarrow> ast list \<Rightarrow> (ast \<times> nat) res" where
  "NewSelectStmt n sel_list tbl_ref_list where_list group_list have_list order_list =
     bind_res (collect as_target sel_list) (\<lambda>sel.
     bind_res (collect as_table tbl_ref_list) (\<lambda>tables.
     bind_res (collect as_expr where_list) (\<lambda>wh.
     bind_res (collect as_expr group_list) (\<lambda>gr.
     bind_res (collect as_order order_list) (\<lambda>ord.
     Inr (AST_Select (SelectStmt sel tables wh gr ord), n + 1))))))"

text \<open>
  The loops of \<open>NewUpdateStmt\<close> call \<open>ast->Next()\<close> and drop the result, so \<open>ast\<close> never moves; the
  first one starts from \<open>opt_where\<close>.
\<close>

fun update_loop :: "nat \<Rightarrow> ast list \<Rightarrow> (ast \<Rightarrow> 'b res) \<Rightarrow> 'b list \<Rightarrow> 'b list res" where
  "update_loop 0 as body acc = Inl Out_of_fuel"
| "update_loop (Suc k) as body acc =
     (case as of [] \<Rightarrow> Inr acc
      | a # _ \<Rightarrow> bind_res (body a) (\<lambda>b. update_loop k as body (acc @ [b])))"

definition NewUpdateStmt ::
  "nat \<Rightarrow> nat \<Rightarrow> ast option \<Rightarrow> ast list \<Rightarrow> ast list \<Rightarrow> ast list \<Rightarrow> (ast \<times> nat) res" where
  "NewUpdateStmt fuel n table_name sets from_clause where_list =
     bind_res (deref_some (opt_cast as_name table_name)) (\<lambda>name.
     bind_res (update_loop fuel where_list (\<lambda>a. Inr (as_operation a)) []) (\<lambda>set_list.
     bind_res (update_loop fuel from_clause (\<lambda>a. assert_some (as_table a)) []) (\<lambda>tables.
     bind_res (update_loop fuel where_list (\<lambda>a. Inr (as_expr a)) []) (\<lambda>wh.
     Inr (AST_Update \<lparr>update_table_name = name, set_clause_list = set_list,
       opt_from_clause = tables, update_where = wh\<rparr>, n + 1)))))"

subsection \<open>An action of the grammar\<close>

text \<open>The rule \<open>data_type\<close>: types with their packed value.\<close>

datatype type_name = T_INTEGER | T_FLOAT | T_VARCHAR u64 | T_CHAR u64 | T_DATE

fun data_type_action :: "type_name \<Rightarrow> u32" where
  "data_type_action T_INTEGER = MAKE_INT32 8 (scast (DataType_code kDTInteger))"
| "data_type_action T_FLOAT = MAKE_INT32 8 (scast (DataType_code kDTFloat))"
| "data_type_action (T_VARCHAR n) = MAKE_INT32 (ucast n) (scast (DataType_code kDTVarchar))"
| "data_type_action (T_CHAR n) = MAKE_INT32 (ucast n) (scast (DataType_code kDTVarchar))"
| "data_type_action T_DATE = MAKE_INT32 32 (scast (DataType_code kDTVarchar))"

subsection \<open>What the actions do\<close>

lemma collect_Inr: "collect cast as = Inr bs \<longleftrightarrow> map cast as = map Some bs"
proof (induction as arbitrary: bs)
  case (Cons a as)
  then show ?case by (cases bs) (auto split: option.splits simp: bind_res_eq_Inr)
qed auto

text \<open>
  \<open>INSERT\<close>: with a column list the second loop meets a name where it wants a constant; without one
  the statement has no values.
\<close>

lemma NewInsertStmt_values:
  "NewInsertStmt n t cols vals = Inr (stmt, n') \<Longrightarrow>
   \<exists>s. stmt = AST_Insert s \<and> insert_values s = [] \<and> opt_column_names s = []"
proof (cases cols)
  case (Cons c cs)
  have "as_name c = None \<or> as_const c = None" by (cases c) auto
  then have "collect as_name cols = Inl Assert_failed \<or> collect as_const cols = Inl Assert_failed"
    by (auto simp: Cons)
  moreover assume "NewInsertStmt n t cols vals = Inr (stmt, n')"
  ultimately show ?thesis by (auto simp: NewInsertStmt_def bind_res_eq_Inr)
qed (auto simp: NewInsertStmt_def bind_res_eq_Inr)

lemma NewInsertStmt_columns:
  "cols \<noteq> [] \<Longrightarrow> as_name t = Some name \<Longrightarrow>
   NewInsertStmt n (Some t) cols vals = Inl Assert_failed"
proof (cases cols)
  case (Cons c cs)
  assume t: "as_name t = Some name"
  have col: "collect f as = Inl e \<Longrightarrow> e = Assert_failed" for f :: "ast \<Rightarrow> 'b option" and as e
    by (induction as) (auto split: option.splits simp: bind_res_eq_Inl)
  have "as_name c = None \<or> as_const c = None" by (cases c) auto
  then show ?thesis using t Cons col [of as_name cols]
    by (cases "collect as_name cols")
      (auto simp: NewInsertStmt_def opt_cast_def assert_some_def split: option.splits)
qed simp

text \<open>\<open>UPDATE\<close> with a \<open>WHERE\<close> clause: the first loop does not end.\<close>

lemma update_loop_diverges:
  "as \<noteq> [] \<Longrightarrow> (\<And>a. \<exists>b. body a = Inr b) \<Longrightarrow> update_loop k as body acc = Inl Out_of_fuel"
proof (induction k arbitrary: acc)
  case (Suc k)
  from Suc.prems(1) obtain a as' where a: "as = a # as'" by (cases as) auto
  from Suc.prems(2) [of a] obtain b where "body a = Inr b" by blast
  with a Suc show ?case by simp
qed simp

lemma NewTableReference_alias:
  "NewTableReference n (Some (AST_Name t)) alias = Inr (AST_Table (TableReference t []), n + 1)"
  by (simp add: NewTableReference_def opt_cast_def assert_some_def)

text \<open>Types survive the packing; the length does when it fits into 15 bits.\<close>

lemma LOW_MAKE: "LOW_INT16 (MAKE_INT32 h l) = ucast l"
  by (rule bit_word_eqI) (auto simp: LOW_INT16_def MAKE_INT32_def bit_unsigned_iff bit_or_iff bit_push_bit_iff)

lemma HIGH_MAKE: "l < 65536 \<Longrightarrow> HIGH_INT16 (MAKE_INT32 h l) = ucast h"
proof (rule bit_word_eqI)
  fix k assume l: "l < 65536" and k: "k < LENGTH(16)"
  have "\<not> bit l (16 + k)"
  proof -
    have "take_bit 16 l = l" using l by (simp add: word_unat_eq_iff unsigned_take_bit_eq take_bit_nat_eq_self word_less_nat_alt)
    then show ?thesis by (metis bit_take_bit_iff not_add_less1)
  qed
  with k show "bit (HIGH_INT16 (MAKE_INT32 h l)) k = bit (ucast h :: u16) k"
    by (simp add: HIGH_INT16_def MAKE_INT32_def bit_unsigned_iff bit_or_iff bit_push_bit_iff
        bit_signed_drop_bit_iff add.commute)
qed

end
