(* ===== verification/Executor.thy ===== *)
theory Executor
  imports Iterator_Handler
begin

section \<open>The plan executors\<close>

text \<open>
  Models \<^verbatim>\<open>executor/seq_scan.cpp\<close>, \<^verbatim>\<open>executor/select.cpp\<close>, \<^verbatim>\<open>executor/project.cpp\<close> and
  \<^verbatim>\<open>executor/nested_loop_join.cpp\<close>. A plan is a tree of executor objects with their mutable
  members; the iterators they read from live in a store indexed by relation, because the
  storage layer hands out one shared handler per relation. \<open>Open\<close> and \<open>GetNext\<close> call each
  other through the tree; their loops run on fuel, and running out of fuel is a fault.
\<close>

type_synonym iters = "u32 \<Rightarrow> Iterator"

datatype exec =
    SeqScan u32 nat nat
  | Select exec bool_expr
  | Project exec "value_expr list" TupleRow
  | NestedLoopJoin exec exec bool_expr TupleRow State State

text \<open>The constructors, with the members they initialise.\<close>

definition SeqScan_new :: "u32 \<Rightarrow> nat \<Rightarrow> exec" where
  "SeqScan_new relid n = SeqScan relid n 0"

definition Project_new :: "exec \<Rightarrow> value_expr list \<Rightarrow> nat \<Rightarrow> exec" where
  "Project_new left attrs tuple_count = Project left attrs (TupleRow_new tuple_count)"

definition NestedLoopJoin_new :: "nat \<Rightarrow> exec \<Rightarrow> exec \<Rightarrow> bool_expr \<Rightarrow> exec" where
  "NestedLoopJoin_new tuple_count left right predicate =
     NestedLoopJoin left right predicate (TupleRow_new tuple_count) kStateOK kStateOK"

fun Prepare :: "exec \<Rightarrow> State" where
  "Prepare (SeqScan r i n) = kStateOK"
| "Prepare (Select left p) = Prepare left"
| "Prepare (Project left attrs row) = Prepare left"
| "Prepare (NestedLoopJoin left right p row ls rs) =
     (let state = Prepare left in
      if state \<noteq> kStateOK then state
      else let state = Prepare right in
           if state \<noteq> kStateOK then state else kStateOK)"

subsection \<open>Projection of one row\<close>

text \<open>The first loop of \<open>Project::GetNext\<close>: the size of the new tuple.\<close>

fun Project_size :: "value_expr list \<Rightarrow> TupleRow \<Rightarrow> u32 \<Rightarrow> u32 res" where
  "Project_size [] row tuple_size = Inr tuple_size"
| "Project_size (e # es) row tuple_size =
     bind_res (ValueExpr_GetValue e row) (\<lambda>(value, size).
     Project_size es row (tuple_size + size))"

text \<open>The second loop: copy the values and fill in the slots.\<close>

fun Project_fill :: "value_expr list \<Rightarrow> nat \<Rightarrow> u32 \<Rightarrow> TupleRow \<Rightarrow> raw_tuple \<Rightarrow> raw_tuple res" where
  "Project_fill [] i off row tuple = Inr tuple"
| "Project_fill (e # es) i off row tuple =
     bind_res (ValueExpr_GetValue e row) (\<lambda>(value, size).
     bind_res (set_slot_length tuple i (ucast size)) (\<lambda>tuple.
     bind_res (set_slot_offset tuple i (ucast off)) (\<lambda>tuple.
     if length value < unat size then Inl Out_of_bounds
     else bind_res (RawTuple_SetValue tuple (unat off) (take (unat size) value)) (\<lambda>tuple.
     Project_fill es (Suc i) (off + size) row tuple))))"

definition Project_tuple :: "value_expr list \<Rightarrow> TupleRow \<Rightarrow> raw_tuple res" where
  "Project_tuple attrs row =
     (let head = of_nat (sizeof_Slot * length attrs) in
      bind_res (Project_size attrs row head) (\<lambda>tuple_size.
      Project_fill attrs 0 head row (CreateTuple (unat tuple_size))))"

subsection \<open>Open and GetNext\<close>

definition SeqScan_GetNext ::
  "iters \<Rightarrow> u32 \<Rightarrow> nat \<Rightarrow> nat \<Rightarrow> TupleRow \<Rightarrow> (State \<times> iters \<times> exec \<times> TupleRow) res" where
  "SeqScan_GetNext \<sigma> relid tuple_index rows row =
     (if IteratorHandler_Valid (\<sigma> relid) then
        bind_res (IteratorHandler_GetTuple (\<sigma> relid)) (\<lambda>t.
        bind_res (TupleRow_SetTuple row tuple_index (Some (map Some t))) (\<lambda>row'.
        bind_res (IteratorHandler_Next (\<sigma> relid)) (\<lambda>it.
        Inr (kStateOK, \<sigma>(relid := it), SeqScan relid tuple_index (Suc rows), row'))))
      else Inr (kStateEOF, \<sigma>, SeqScan relid tuple_index rows, row))"

fun Open :: "nat \<Rightarrow> iters \<Rightarrow> exec \<Rightarrow> (State \<times> iters \<times> exec) res"
  and GetNext :: "nat \<Rightarrow> iters \<Rightarrow> exec \<Rightarrow> TupleRow \<Rightarrow> (State \<times> iters \<times> exec \<times> TupleRow) res"
where
  "Open 0 \<sigma> e = Inl Out_of_fuel"
| "Open (Suc k) \<sigma> (SeqScan relid i n) =
     Inr (kStateOK, \<sigma>(relid := IteratorHandler_SeekToFirst (\<sigma> relid)), SeqScan relid i n)"
| "Open (Suc k) \<sigma> (Select left p) =
     bind_res (Open k \<sigma> left) (\<lambda>(state, \<sigma>, left). Inr (state, \<sigma>, Select left p))"
| "Open (Suc k) \<sigma> (Project left attrs row) =
     bind_res (Open k \<sigma> left) (\<lambda>(state, \<sigma>, left). Inr (state, \<sigma>, Project left attrs row))"
| "Open (Suc k) \<sigma> (NestedLoopJoin left right p row ls rs) =
     bind_res (Open k \<sigma> left) (\<lambda>(state, \<sigma>, left).
     if state \<noteq> kStateOK then Inr (state, \<sigma>, NestedLoopJoin left right p row ls rs)
     else bind_res (Open k \<sigma> right) (\<lambda>(state, \<sigma>, right).
     if state \<noteq> kStateOK then Inr (state, \<sigma>, NestedLoopJoin left right p row ls rs)
     else bind_res (GetNext k \<sigma> left row) (\<lambda>(ls, \<sigma>, left, row).
     if ls \<noteq> kStateEOF \<and> ls \<noteq> kStateOK
     then Inr (ls, \<sigma>, NestedLoopJoin left right p row ls rs)
     else Inr (kStateOK, \<sigma>, NestedLoopJoin left right p row ls kStateOK))))"
| "GetNext 0 \<sigma> e row = Inl Out_of_fuel"
| "GetNext (Suc k) \<sigma> (SeqScan relid i n) row = SeqScan_GetNext \<sigma> relid i n row"
| "GetNext (Suc k) \<sigma> (Select left p) row =
     bind_res (GetNext k \<sigma> left row) (\<lambda>(state, \<sigma>, left, row).
     if state = kStateEOF then Inr (kStateEOF, \<sigma>, Select left p, row)
     else bind_res (BooleanExpr_GetValue p row) (\<lambda>pre.
     if pre then Inr (kStateOK, \<sigma>, Select left p, row)
     else GetNext k \<sigma> (Select left p) row))"
| "GetNext (Suc k) \<sigma> (Project left attrs trow) row =
     bind_res (GetNext k \<sigma> left trow) (\<lambda>(state, \<sigma>, left, trow).
     if state \<noteq> kStateOK then Inr (state, \<sigma>, Project left attrs trow, row)
     else bind_res (Project_tuple attrs trow) (\<lambda>tuple.
     bind_res (TupleRow_SetTuple row 0 (Some tuple)) (\<lambda>row.
     Inr (kStateOK, \<sigma>, Project left attrs trow, row))))"
| "GetNext (Suc k) \<sigma> (NestedLoopJoin left right p jrow ls rs) row =
     (if ls = kStateEOF \<and> rs = kStateEOF
      then Inr (kStateEOF, \<sigma>, NestedLoopJoin left right p jrow ls rs, row)
      else bind_res (GetNext k \<sigma> right jrow) (\<lambda>(rs, \<sigma>, right, jrow).
      if rs = kStateOK then
        bind_res (BooleanExpr_GetValue p jrow) (\<lambda>b.
        if b then
          Inr (kStateOK, \<sigma>, NestedLoopJoin left right p jrow ls rs, TupleRow_CopyTo jrow row)
        else GetNext k \<sigma> (NestedLoopJoin left right p jrow ls rs) row)
      else if rs = kStateEOF then
        bind_res (GetNext k \<sigma> left jrow) (\<lambda>(ls, \<sigma>, left, jrow).
        if ls \<noteq> kStateOK then Inr (ls, \<sigma>, NestedLoopJoin left right p jrow ls rs, row)
        else bind_res (Open k \<sigma> right) (\<lambda>(rs, \<sigma>, right).
        if rs \<noteq> kStateOK then Inr (rs, \<sigma>, NestedLoopJoin left right p jrow ls rs, row)
        else GetNext k \<sigma> (NestedLoopJoin left right p jrow ls rs) row))
      else Inr (rs, \<sigma>, NestedLoopJoin left right p jrow ls rs, row)))"

subsection \<open>Fuel\<close>

text \<open>
  A run that ends within its fuel, with a result or a fault, does not depend on how much fuel
  it has: \<open>fuel_le\<close> compares two runs, the second with more fuel.
\<close>

definition fuel_le :: "'a res \<Rightarrow> 'a res \<Rightarrow> bool" where
  "fuel_le a b \<longleftrightarrow> a = Inl Out_of_fuel \<or> b = a"

lemma fuel_le_refl [simp, intro]: "fuel_le a a"
  by (simp add: fuel_le_def)

lemma fuel_le_out [simp, intro]: "fuel_le (Inl Out_of_fuel) a"
  by (simp add: fuel_le_def)

lemma fuel_le_bind:
  "fuel_le m m' \<Longrightarrow> (\<And>x. fuel_le (f x) (f' x)) \<Longrightarrow> fuel_le (bind_res m f) (bind_res m' f')"
  by (cases m; cases m') (auto simp: fuel_le_def)

lemma fuel_le_if:
  "(c \<Longrightarrow> fuel_le a a') \<Longrightarrow> (\<not> c \<Longrightarrow> fuel_le b b') \<Longrightarrow>
   fuel_le (if c then a else b) (if c then a' else b')"
  by simp

lemma fuel_le_case_prod:
  "(\<And>x y. fuel_le (f x y) (f' x y)) \<Longrightarrow> fuel_le (case_prod f z) (case_prod f' z)"
  by (cases z) simp

lemmas fuel_le_intros = fuel_le_bind fuel_le_if fuel_le_case_prod fuel_le_refl

lemma exec_step_mono:
  assumes "\<And>\<sigma> e. fuel_le (Open k \<sigma> e) (Open k' \<sigma> e)"
    and "\<And>\<sigma> e row. fuel_le (GetNext k \<sigma> e row) (GetNext k' \<sigma> e row)"
  shows "fuel_le (Open (Suc k) \<sigma> e) (Open (Suc k') \<sigma> e)"
    and "fuel_le (GetNext (Suc k) \<sigma> e row) (GetNext (Suc k') \<sigma> e row)"
  by (cases e; simp only: Open.simps GetNext.simps; intro fuel_le_intros assms)+

lemma exec_fuel_le:
  "k \<le> k' \<Longrightarrow> fuel_le (Open k \<sigma> e) (Open k' \<sigma> e) \<and> fuel_le (GetNext k \<sigma> e row) (GetNext k' \<sigma> e row)"
proof (induction k arbitrary: k' \<sigma> e row)
  case 0
  then show ?case by simp
next
  case (Suc k)
  then obtain m where m: "k' = Suc m" "k \<le> m" by (cases k') auto
  have "fuel_le (Open (Suc k) \<sigma> e) (Open (Suc m) \<sigma> e)"
    by (rule exec_step_mono(1)) (use Suc.IH m(2) in blast)+
  moreover have "fuel_le (GetNext (Suc k) \<sigma> e row) (GetNext (Suc m) \<sigma> e row)"
    by (rule exec_step_mono(2)) (use Suc.IH m(2) in blast)+
  ultimately show ?case using m(1) by simp
qed

lemma Open_mono: "Open k \<sigma> e = Inr r \<Longrightarrow> k \<le> k' \<Longrightarrow> Open k' \<sigma> e = Inr r"
  using exec_fuel_le [of k k' \<sigma> e] by (auto simp: fuel_le_def)

lemma GetNext_mono: "GetNext k \<sigma> e row = Inr r \<Longrightarrow> k \<le> k' \<Longrightarrow> GetNext k' \<sigma> e row = Inr r"
  using exec_fuel_le [of k k' \<sigma> e row] by (auto simp: fuel_le_def)

end
