(* ===== verification/Realizer.thy ===== *)
theory Realizer
  imports Level_Store Parser_Ast Executor
begin

section \<open>From syntax trees to plans\<close>

text \<open>
  Models \<open>Check\<close> and \<open>Build\<close> of \<^verbatim>\<open>realizer/query_realizer.cpp\<close>: names are resolved against the
  catalog, every column reference gets a slot (tuple and attribute position), and the tree
  becomes a plan of executors. A \<open>std::map\<close> from names is a list of pairs sorted by name,
  because \<open>SELECT *\<close> iterates over one; column references are found again by their identity.
\<close>

subsection \<open>State\<close>

datatype ClauseType = kSelect | kWhere | kJoinOn | kOrderBy | kGroupBy | kHaving

record QueryRealizer =
  message :: string
  name2relation :: "(string \<times> Relation) list"
  name2tuple_index :: "(string \<times> int) list"
  name2slot :: "(nat \<times> value_expr) list"
  select_ref :: "nat list"
  opt_group_by_ref :: "nat list"
  opt_order_by_ref :: "nat list"
  opt_order_by_is_desc :: "bool list"
  where_operations :: "expr list"
  all_tuple_desc :: "RowDesc list"
  output_row_desc :: RowDesc
  projection_list :: "value_expr list"
  top_exec :: "exec option"
  all_iter :: "io_handler list"

definition QueryRealizer_new :: QueryRealizer where
  "QueryRealizer_new = \<lparr>message = [], name2relation = [], name2tuple_index = [], name2slot = [],
     select_ref = [], opt_group_by_ref = [], opt_order_by_ref = [], opt_order_by_is_desc = [],
     where_operations = [], all_tuple_desc = [], output_row_desc = [], projection_list = [],
     top_exec = None, all_iter = []\<rparr>"

text \<open>\<open>std::map::insert\<close>: a key that is present keeps its value.\<close>

definition string_less :: "string \<Rightarrow> string \<Rightarrow> bool" where
  "string_less a b = bytes_less (bytes_of a) (bytes_of b)"

fun smap_insert :: "string \<Rightarrow> 'v \<Rightarrow> (string \<times> 'v) list \<Rightarrow> (string \<times> 'v) list" where
  "smap_insert k v [] = [(k, v)]"
| "smap_insert k v ((k', v') # m) =
     (if k = k' then (k', v') # m
      else if string_less k k' then (k, v) # (k', v') # m
      else (k', v') # smap_insert k v m)"

definition map_insert :: "'k \<Rightarrow> 'v \<Rightarrow> ('k \<times> 'v) list \<Rightarrow> ('k \<times> 'v) list" where
  "map_insert k v m = (if map_of m k = None then (k, v) # m else m)"

subsection \<open>Check\<close>

text \<open>
  The lookup of a column: the error state and message, or the table name, its relation and the
  position of the column. Without a table name every table is searched.
\<close>

definition find_column :: "QueryRealizer \<Rightarrow> string \<Rightarrow> string \<Rightarrow>
    (State \<times> string) + (string \<times> Relation \<times> int)" where
  "find_column q tname cname =
     (if tname \<noteq> [] then
        (case map_of (name2relation q) tname of
           None \<Rightarrow> Inl (kStateRelationNotFound, ''cannot find table name ['' @ tname @ '']'')
         | Some rel \<Rightarrow>
             let i = Relation_GetAttributeIndex rel cname in
             if i < 0 then Inl (kStateAttributeNotFound, ''cannot find attribute name ['' @ cname @ '']'')
             else Inr (tname, rel, i))
      else
        let hits = filter (\<lambda>(n, rel, i). i \<ge> 0)
              (map (\<lambda>(n, rel). (n, rel, Relation_GetAttributeIndex rel cname)) (name2relation q)) in
        if length hits > 1 then Inl (kStateNameAmbiguous, ''attribute ['' @ cname @ ''] ambiguous.'')
        else if hits = [] then
          Inl (kStateAttributeNotFound, ''cannot find attribute name ['' @ cname @ '']'')
        else Inr (hd hits))"

text \<open>The reference is entered into the list of its clause.\<close>

definition push_ref :: "ClauseType \<Rightarrow> nat \<Rightarrow> QueryRealizer \<Rightarrow> QueryRealizer res" where
  "push_ref type ref q = (case type of
     kSelect \<Rightarrow> Inr (q\<lparr>select_ref := select_ref q @ [ref]\<rparr>)
   | kGroupBy \<Rightarrow> Inr (q\<lparr>opt_group_by_ref := opt_group_by_ref q @ [ref]\<rparr>)
   | kOrderBy \<Rightarrow> Inr (q\<lparr>opt_order_by_ref := opt_order_by_ref q @ [ref]\<rparr>)
   | kJoinOn \<Rightarrow> Inr q
   | kWhere \<Rightarrow> Inr q
   | kHaving \<Rightarrow> Inl Assert_failed)"

definition CheckColumnReference ::
  "nat \<Rightarrow> string \<Rightarrow> string \<Rightarrow> ClauseType \<Rightarrow> QueryRealizer \<Rightarrow> (State \<times> QueryRealizer) res" where
  "CheckColumnReference ref tname cname type q =
     (case find_column q tname cname of
        Inl (state, msg) \<Rightarrow> Inr (state, q\<lparr>message := msg\<rparr>)
      | Inr (name, rel, slot_index) \<Rightarrow>
          (case map_of (name2tuple_index q) name of
             None \<Rightarrow> Inl Assert_failed
           | Some tuple_index \<Rightarrow>
               bind_res (Relation_GetAttribute rel (nat slot_index)) (\<lambda>attr.
               bind_res (push_ref type ref (q\<lparr>name2slot :=
                 map_insert ref (SlotReference (attr_data_type attr) tuple_index slot_index)
                   (name2slot q)\<rparr>)) (\<lambda>q.
               Inr (kStateOK, q)))))"

text \<open>A null operand is dereferenced. The last branch of the source repeats the test for an
  operation, so constants pass.\<close>

fun CheckExpressionBase :: "expr \<Rightarrow> ClauseType \<Rightarrow> QueryRealizer \<Rightarrow> (State \<times> QueryRealizer) res" where
  "CheckExpressionBase (ColumnReference ref tname cname) type q =
     CheckColumnReference ref tname cname type q"
| "CheckExpressionBase (ConstExpr c) type q = Inr (kStateOK, q)"
| "CheckExpressionBase (Operation op l r) type q =
     (if type \<noteq> kJoinOn \<and> type \<noteq> kWhere then Inl Assert_failed
      else case l of
        None \<Rightarrow> Inl Null_pointer
      | Some le \<Rightarrow> bind_res (CheckExpressionBase le type q) (\<lambda>(state, q).
          if state \<noteq> kStateOK then Inr (state, q)
          else case r of
            None \<Rightarrow> Inl Null_pointer
          | Some re \<Rightarrow> bind_res (CheckExpressionBase re type q) (\<lambda>(state, q).
              if state \<noteq> kStateOK then Inr (state, q)
              else if type = kWhere
              then Inr (kStateOK, q\<lparr>where_operations := where_operations q @ [Operation op l r]\<rparr>)
              else Inr (kStateOK, q))))"

text \<open>A check through a pointer to an expression.\<close>

definition CheckExpression_ptr ::
  "expr option \<Rightarrow> ClauseType \<Rightarrow> QueryRealizer \<Rightarrow> (State \<times> QueryRealizer) res" where
  "CheckExpression_ptr e type q =
     (case e of None \<Rightarrow> Inl Null_pointer | Some x \<Rightarrow> CheckExpressionBase x type q)"

fun CheckTableFactor :: "LevelStore \<Rightarrow> table_factor \<Rightarrow> QueryRealizer \<Rightarrow> (State \<times> QueryRealizer) res" where
  "CheckTableFactor st (TableReference tname alias) q =
     (case GetRelation st tname of
        None \<Rightarrow> Inr (kStateRelationNotFound, q\<lparr>message := ''cannot find relation ['' @ tname @ ''].''\<rparr>)
      | Some relation \<Rightarrow>
          let table_name = (if alias \<noteq> [] then alias else tname) in
          Inr (kStateOK, q\<lparr>
            name2tuple_index := map_insert table_name (int (length (name2tuple_index q))) (name2tuple_index q),
            name2relation := smap_insert table_name relation (name2relation q)\<rparr>))"
| "CheckTableFactor st (JoinClause l r p jt) q =
     (case l of None \<Rightarrow> Inl Null_pointer
      | Some lt \<Rightarrow> bind_res (CheckTableFactor st lt q) (\<lambda>(state, q).
          if state \<noteq> kStateOK then Inr (state, q)
          else case r of None \<Rightarrow> Inl Null_pointer
            | Some rt \<Rightarrow> bind_res (CheckTableFactor st rt q) (\<lambda>(state, q).
                if state \<noteq> kStateOK then Inr (state, q)
                else CheckExpression_ptr p kJoinOn q)))"
| "CheckTableFactor st (SubQuery s alias) q = Inr (kStateOK, q)"

text \<open>The loops of \<open>CheckFrom\<close>, \<open>CheckWhere\<close>, \<open>CheckGroupBy\<close>, \<open>CheckSelect\<close> and \<open>CheckOrderBy\<close> stop
  at the first state that is not OK.\<close>

fun check_all :: "('a \<Rightarrow> QueryRealizer \<Rightarrow> (State \<times> QueryRealizer) res) \<Rightarrow> 'a list \<Rightarrow> QueryRealizer \<Rightarrow>
    (State \<times> QueryRealizer) res" where
  "check_all f [] q = Inr (kStateOK, q)"
| "check_all f (x # xs) q =
     bind_res (f x q) (\<lambda>(state, q). if state \<noteq> kStateOK then Inr (state, q) else check_all f xs q)"

definition CheckFrom :: "LevelStore \<Rightarrow> select_stmt \<Rightarrow> QueryRealizer \<Rightarrow> (State \<times> QueryRealizer) res" where
  "CheckFrom st s q = check_all (CheckTableFactor st) (table_reference s) q"

definition CheckWhere :: "select_stmt \<Rightarrow> QueryRealizer \<Rightarrow> (State \<times> QueryRealizer) res" where
  "CheckWhere s q = check_all (\<lambda>e. CheckExpressionBase e kWhere) (opt_where s) q"

definition CheckGroupBy :: "select_stmt \<Rightarrow> QueryRealizer \<Rightarrow> (State \<times> QueryRealizer) res" where
  "CheckGroupBy s q = check_all (\<lambda>e. CheckExpressionBase e kGroupBy) (opt_group s) q"

definition CheckSelect :: "select_stmt \<Rightarrow> QueryRealizer \<Rightarrow> (State \<times> QueryRealizer) res" where
  "CheckSelect s q = check_all (\<lambda>(e, a). CheckExpressionBase e kSelect) (select_list s) q"

definition CheckOrderBy :: "select_stmt \<Rightarrow> QueryRealizer \<Rightarrow> (State \<times> QueryRealizer) res" where
  "CheckOrderBy s q = check_all (\<lambda>(e, d) q. CheckExpression_ptr e kOrderBy
     (q\<lparr>opt_order_by_is_desc := opt_order_by_is_desc q @ [d]\<rparr>)) (opt_order s) q"

text \<open>Sequencing of stages that stop at an error state.\<close>

definition then_check :: "(State \<times> QueryRealizer) res \<Rightarrow> (QueryRealizer \<Rightarrow> (State \<times> QueryRealizer) res) \<Rightarrow>
    (State \<times> QueryRealizer) res" where
  "then_check m f = bind_res m (\<lambda>(state, q). if state \<noteq> kStateOK then Inr (state, q) else f q)"

definition Check :: "LevelStore \<Rightarrow> ast \<Rightarrow> QueryRealizer \<Rightarrow> (State \<times> QueryRealizer) res" where
  "Check st tree q = (case tree of
     AST_Select s \<Rightarrow>
       then_check (CheckFrom st s q) (\<lambda>q.
       then_check (CheckWhere s q) (\<lambda>q.
       then_check (CheckGroupBy s q) (\<lambda>q.
       then_check (CheckSelect s q) (\<lambda>q.
       CheckOrderBy s q))))
   | _ \<Rightarrow> Inr (kStateOK, q))"

definition Optimize :: "QueryRealizer \<Rightarrow> (State \<times> QueryRealizer) res" where
  "Optimize q = Inr (kStateOK, q)"

subsection \<open>Expressions\<close>

text \<open>The result \<open>None\<close> is the null pointer.\<close>

fun BuildValueExpression :: "QueryRealizer \<Rightarrow> expr \<Rightarrow> value_expr option res" where
  "BuildValueExpression q (ColumnReference ref tname cname) =
     (case map_of (name2slot q) ref of None \<Rightarrow> Inl Assert_failed | Some s \<Rightarrow> Inr (Some s))"
| "BuildValueExpression q (ConstExpr c) =
     (if cv_data_type c = kDTInteger then Inr (Some (IntegerConstValue kDTInteger (int_val c)))
      else if cv_data_type c = kDTVarchar then Inr (Some (VarcharConstValue kDTVarchar (str_val c)))
      else Inr None)"
| "BuildValueExpression q (Operation op l r) =
     (case l of None \<Rightarrow> Inl Null_pointer
      | Some le \<Rightarrow> bind_res (BuildValueExpression q le) (\<lambda>_.
          case r of None \<Rightarrow> Inl Null_pointer
          | Some re \<Rightarrow> bind_res (BuildValueExpression q re) (\<lambda>_. Inr None)))"

text \<open>The comparison of two values, by their type.\<close>

definition build_compare :: "OperatorType \<Rightarrow> value_expr option \<Rightarrow> value_expr option \<Rightarrow> bool_expr option res" where
  "build_compare op l r = (case (l, r) of
     (Some le, Some re) \<Rightarrow>
       if GetDataType le \<noteq> GetDataType re then Inl Assert_failed
       else if GetDataType le = kDTInteger then Inr (Some (IntegerCompare op le re))
       else if GetDataType le = kDTFloat then Inr (Some (FloatCompare op le re))
       else if GetDataType le = kDTVarchar then Inr (Some (VarcharCompare op le re))
       else Inr None
   | _ \<Rightarrow> Inl Null_pointer)"

definition BuildValue_ptr :: "QueryRealizer \<Rightarrow> expr option \<Rightarrow> value_expr option res" where
  "BuildValue_ptr q e = (case e of None \<Rightarrow> Inl Null_pointer | Some x \<Rightarrow> BuildValueExpression q x)"

fun BuildBooleanExpression :: "QueryRealizer \<Rightarrow> expr \<Rightarrow> bool_expr option res" where
  "BuildBooleanExpression q (Operation op l r) =
     (if IsCompareOperator op then
        bind_res (BuildValue_ptr q l) (\<lambda>le.
        bind_res (BuildValue_ptr q r) (\<lambda>re. build_compare op le re))
      else if IsLogicOperator op then
        (case l of None \<Rightarrow> Inl Null_pointer
         | Some le \<Rightarrow> bind_res (BuildBooleanExpression q le) (\<lambda>bl.
             case r of None \<Rightarrow> Inl Null_pointer
             | Some re \<Rightarrow> bind_res (BuildBooleanExpression q re) (\<lambda>br.
                 case (bl, br) of (Some x, Some y) \<Rightarrow> Inr (Some (LogicExpr op x y)) | _ \<Rightarrow> Inr None)))
      else Inr None)"
| "BuildBooleanExpression q e = Inl Assert_failed"

subsection \<open>Plans\<close>

definition BuildTableScan ::
  "LevelStore \<Rightarrow> QueryRealizer \<Rightarrow> string \<Rightarrow> string \<Rightarrow> (exec \<times> LevelStore \<times> QueryRealizer) res" where
  "BuildTableScan st q tname alias =
     (case GetRelation st tname of
        None \<Rightarrow> Inl Null_pointer
      | Some rel \<Rightarrow>
          bind_res (NewIterator st (relation_id rel)) (\<lambda>st.
          let q = q\<lparr>all_iter := all_iter q @ [IO_iterator (relation_id rel)]\<rparr>;
              table_name = (if alias \<noteq> [] then alias else tname) in
          (case map_of (name2relation q) table_name of
             None \<Rightarrow> Inl Assert_failed
           | Some relation \<Rightarrow>
               Inr (SeqScan_new (relation_id rel) (length (all_tuple_desc q)), st,
                    q\<lparr>all_tuple_desc := all_tuple_desc q @ [Relation_ToDesc relation]\<rparr>))))"

fun BuildJoin :: "LevelStore \<Rightarrow> QueryRealizer \<Rightarrow> table_factor \<Rightarrow> (exec \<times> LevelStore \<times> QueryRealizer) res" where
  "BuildJoin st q (TableReference tname alias) = BuildTableScan st q tname alias"
| "BuildJoin st q (JoinClause l r p jt) =
     (case l of None \<Rightarrow> Inl Null_pointer
      | Some lt \<Rightarrow> bind_res (BuildJoin st q lt) (\<lambda>(left_exec, st, q).
          case r of None \<Rightarrow> Inl Null_pointer
          | Some rt \<Rightarrow> bind_res (BuildJoin st q rt) (\<lambda>(right_exec, st, q).
              case p of
                None \<Rightarrow> Inl Null_pointer
              | Some pe \<Rightarrow> bind_res (BuildBooleanExpression q pe) (\<lambda>b.
                  case b of
                    None \<Rightarrow> Inl Assert_failed
                  | Some be \<Rightarrow>
                      Inr (NestedLoopJoin_new (length (name2relation q)) left_exec right_exec be, st, q)))))"
| "BuildJoin st q (SubQuery s alias) = Inl Assert_failed"

text \<open>One target of a projection; anything but a column is skipped.\<close>

definition project_target :: "expr \<Rightarrow> QueryRealizer \<Rightarrow> (State \<times> QueryRealizer) res" where
  "project_target e q = (case e of
     ColumnReference ref tname cname \<Rightarrow>
       (case map_of (name2slot q) ref of
          None \<Rightarrow> Inr (kStateBuildError, q\<lparr>message :=
            ''build projection, fatal error, cannot find name ['' @ cname @ ''].''\<rparr>)
        | Some (SlotReference t i j) \<Rightarrow>
            if \<not> nat i < length (all_tuple_desc q) then Inl Assert_failed
            else let row_desc = all_tuple_desc q ! nat i in
              if \<not> nat j < RowDesc_GetColumnCount row_desc then Inl Assert_failed
              else bind_res (RowDesc_GetColumnDesc row_desc (nat j)) (\<lambda>col_desc.
                Inr (kStateOK, q\<lparr>projection_list := projection_list q @ [SlotReference t i j],
                       output_row_desc := RowDesc_PushColumnDesc (output_row_desc q) col_desc\<rparr>))
        | Some _ \<Rightarrow> Inl Assert_failed)
   | _ \<Rightarrow> Inr (kStateOK, q))"

text \<open>One column of \<open>SELECT *\<close>. The references made here keep the default data type.\<close>

definition star_column :: "string \<Rightarrow> Attribute \<Rightarrow> QueryRealizer \<Rightarrow> QueryRealizer res" where
  "star_column name attr q =
     (let i = (case map_of (name2tuple_index q) name of Some i \<Rightarrow> i | None \<Rightarrow> 0);
          j = attribute_index attr in
      bind_res (nth_res (all_tuple_desc q) (nat i)) (\<lambda>row_desc.
      bind_res (RowDesc_GetColumnDesc row_desc (unat j)) (\<lambda>col_desc.
      Inr (q\<lparr>projection_list := projection_list q @ [SlotReference kDTBoolean i (sint j)],
             output_row_desc := RowDesc_PushColumnDesc (output_row_desc q) col_desc\<rparr>))))"

fun star_columns :: "string \<Rightarrow> Attribute list \<Rightarrow> QueryRealizer \<Rightarrow> QueryRealizer res" where
  "star_columns name [] q = Inr q"
| "star_columns name (a # as) q = bind_res (star_column name a q) (\<lambda>q. star_columns name as q)"

fun star_relations :: "(string \<times> Relation) list \<Rightarrow> QueryRealizer \<Rightarrow> QueryRealizer res" where
  "star_relations [] q = Inr q"
| "star_relations ((name, rel) # m) q =
     bind_res (star_columns name (attributes rel) q) (\<lambda>q. star_relations m q)"

definition BuildProjection :: "(expr \<times> string) list \<Rightarrow> exec \<Rightarrow> QueryRealizer \<Rightarrow> (State \<times> QueryRealizer) res" where
  "BuildProjection sel te q =
     then_check (check_all (\<lambda>(e, a). project_target e) sel q) (\<lambda>q.
     bind_res (if sel = [] then star_relations (name2relation q) q else Inr q) (\<lambda>q.
     Inr (kStateOK, q\<lparr>top_exec := Some (Project_new te (projection_list q) (length (name2relation q)))\<rparr>)))"

definition BuildSelect :: "expr \<Rightarrow> exec \<Rightarrow> QueryRealizer \<Rightarrow> exec option res" where
  "BuildSelect e te q =
     bind_res (BuildBooleanExpression q e) (\<lambda>b. Inr (map_option (Select te) b))"

text \<open>\<open>BuildJoin\<close> of the list: the first table factor is built, the others are ignored.\<close>

definition BuildJoin_list ::
  "LevelStore \<Rightarrow> QueryRealizer \<Rightarrow> table_factor list \<Rightarrow> (exec option \<times> LevelStore \<times> QueryRealizer) res" where
  "BuildJoin_list st q ts = (case ts of
     [] \<Rightarrow> Inr (None, st, q\<lparr>message := ''unsupported SQL 89 join syntax.''\<rparr>)
   | t # _ \<Rightarrow> bind_res (BuildJoin st q t) (\<lambda>(e, st, q). Inr (Some e, st, q)))"

definition Build :: "LevelStore \<Rightarrow> ast \<Rightarrow> QueryRealizer \<Rightarrow> (State \<times> LevelStore \<times> QueryRealizer) res" where
  "Build st tree q = (case tree of
     AST_Select s \<Rightarrow>
       bind_res (BuildJoin_list st q (table_reference s)) (\<lambda>(e, st, q).
       case e of None \<Rightarrow> Inr (kStateBuildError, st, q\<lparr>top_exec := None\<rparr>)
       | Some te \<Rightarrow>
           bind_res (case opt_where s of [] \<Rightarrow> Inr (Some te) | w # _ \<Rightarrow> BuildSelect w te q) (\<lambda>e.
           case e of None \<Rightarrow> Inr (kStateBuildError, st, q\<lparr>top_exec := None\<rparr>)
           | Some te \<Rightarrow>
               bind_res (BuildProjection (select_list s) te (q\<lparr>top_exec := Some te\<rparr>)) (\<lambda>(state, q).
               if state \<noteq> kStateOK then Inr (kStateBuildError, st, q\<lparr>top_exec := None\<rparr>)
               else Inr (kStateOK, st, q))))
   | _ \<Rightarrow> Inr (kStateOK, st, q))"

text \<open>The destructor gives the iterators back.\<close>

fun release_all :: "io_handler list \<Rightarrow> LevelStore \<Rightarrow> LevelStore res" where
  "release_all [] st = Inr st"
| "release_all (h # hs) st = bind_res (DeleteIOObject st h) (\<lambda>st. release_all hs st)"

end
