(* ===== verification/Realizer_Check.thy ===== *)
theory Realizer_Check
  imports Realizer
begin

section \<open>What Check establishes\<close>

text \<open>
  A statement that passes \<open>Check\<close> has all its names resolved: the tables are numbered in the order
  of the \<open>FROM\<close> clause, and every column reference leads to an existing column, of the recorded
  type, of a table that is already known where the reference stands.
\<close>

subsection \<open>Tables and references of a tree\<close>

text \<open>The tables of a factor from left to right: the name that columns use, and the relation's name.\<close>

fun factor_tables :: "table_factor \<Rightarrow> (string \<times> string) list" where
  "factor_tables (TableReference t a) = [(if a \<noteq> [] then a else t, t)]"
| "factor_tables (JoinClause l r p jt) =
     (case l of None \<Rightarrow> [] | Some lt \<Rightarrow> factor_tables lt) @
     (case r of None \<Rightarrow> [] | Some rt \<Rightarrow> factor_tables rt)"
| "factor_tables (SubQuery s a) = []"

fun refs :: "expr \<Rightarrow> nat set" where
  "refs (ColumnReference n t c) = {n}"
| "refs (ConstExpr c) = {}"
| "refs (Operation op l r) =
     (case l of None \<Rightarrow> {} | Some x \<Rightarrow> refs x) \<union> (case r of None \<Rightarrow> {} | Some x \<Rightarrow> refs x)"

text \<open>Joins of a factor with one table on the right side of each.\<close>

fun left_deep :: "table_factor \<Rightarrow> bool" where
  "left_deep (TableReference t a) = True"
| "left_deep (JoinClause (Some l) (Some (TableReference t a)) (Some p) jt) = left_deep l"
| "left_deep _ = False"

subsection \<open>Invariant\<close>

text \<open>
  \<open>T\<close> are the tables of the statement, with their relations; \<open>known T m q\<close> says that the maps of the
  realizer describe the first \<open>m\<close> of them.
\<close>

type_synonym tables = "(string \<times> Relation) list"

definition known :: "tables \<Rightarrow> nat \<Rightarrow> QueryRealizer \<Rightarrow> bool" where
  "known T m q \<longleftrightarrow> m \<le> length T \<and>
     length (name2tuple_index q) = m \<and> length (name2relation q) = m \<and>
     distinct (map fst (name2relation q)) \<and>
     set (name2relation q) = set (take m T) \<and>
     (\<forall>n. map_of (name2tuple_index q) n = map_of (zip (map fst (take m T)) (map int [0..<m])) n)"

definition slot_ok :: "tables \<Rightarrow> nat \<Rightarrow> value_expr \<Rightarrow> bool" where
  "slot_ok T m s \<longleftrightarrow> (\<exists>k j. k < m \<and> j < length (attributes (snd (T ! k))) \<and>
     s = SlotReference (attr_data_type (attributes (snd (T ! k)) ! j)) (int k) (int j))"

definition slots_ok :: "tables \<Rightarrow> nat \<Rightarrow> QueryRealizer \<Rightarrow> bool" where
  "slots_ok T m q \<longleftrightarrow> (\<forall>r s. map_of (name2slot q) r = Some s \<longrightarrow> slot_ok T m s)"

definition refs_ok :: "tables \<Rightarrow> nat \<Rightarrow> expr \<Rightarrow> QueryRealizer \<Rightarrow> bool" where
  "refs_ok T m e q \<longleftrightarrow> (\<forall>r \<in> refs e. \<exists>s. map_of (name2slot q) r = Some s \<and> slot_ok T m s)"

text \<open>What the checks of expressions change: slots are added, the tables stay.\<close>

definition extends :: "QueryRealizer \<Rightarrow> QueryRealizer \<Rightarrow> bool" where
  "extends q q' \<longleftrightarrow> name2relation q' = name2relation q \<and> name2tuple_index q' = name2tuple_index q \<and>
     all_tuple_desc q' = all_tuple_desc q \<and> output_row_desc q' = output_row_desc q \<and>
     projection_list q' = projection_list q \<and> all_iter q' = all_iter q \<and> map_of (name2slot q) \<subseteq>\<^sub>m map_of (name2slot q')"

lemma extends_refl [simp]: "extends q q"
  by (simp add: extends_def)

lemma extends_trans: "extends a b \<Longrightarrow> extends b c \<Longrightarrow> extends a c"
  by (auto simp: extends_def intro: map_le_trans)

lemma known_extends: "extends q q' \<Longrightarrow> known T m q' = known T m q"
  by (simp add: extends_def known_def)

lemma slot_ok_mono: "slot_ok T m s \<Longrightarrow> m \<le> m' \<Longrightarrow> slot_ok T m' s"
  by (auto simp: slot_ok_def)

lemma slots_ok_mono: "slots_ok T m q \<Longrightarrow> m \<le> m' \<Longrightarrow> slots_ok T m' q"
  using slot_ok_mono by (fastforce simp: slots_ok_def)

lemma map_le_someD: "m \<subseteq>\<^sub>m m' \<Longrightarrow> m k = Some v \<Longrightarrow> m' k = Some v"
  by (metis domI map_le_def)

lemma refs_ok_map_le:
  "map_of (name2slot q) \<subseteq>\<^sub>m map_of (name2slot q') \<Longrightarrow> refs_ok T m e q \<Longrightarrow> refs_ok T m e q'"
  unfolding refs_ok_def using map_le_someD by metis

lemma refs_ok_extends: "extends q q' \<Longrightarrow> refs_ok T m e q \<Longrightarrow> refs_ok T m e q'"
  using refs_ok_map_le by (auto simp: extends_def)

subsection \<open>Columns\<close>

lemma GetAttributeIndex_bounds:
  "Relation_GetAttributeIndex rel c \<ge> 0 \<Longrightarrow>
   nat (Relation_GetAttributeIndex rel c) < length (attributes rel)"
  by (simp add: GetAttributeIndex_Find Let_def split: if_splits)

lemma find_column_found:
  "find_column q t c = Inr (n, rel, i) \<Longrightarrow>
   (n, rel) \<in> set (name2relation q) \<and> 0 \<le> i \<and> nat i < length (attributes rel) \<and>
   attr_name (attributes rel ! nat i) = c"
proof -
  assume f: "find_column q t c = Inr (n, rel, i)"
  have "(n, rel) \<in> set (name2relation q) \<and> i = Relation_GetAttributeIndex rel c \<and> i \<ge> 0"
  proof (cases "t = []")
    case True
    define H where "H = filter (\<lambda>(n, rel, i). i \<ge> 0)
      (map (\<lambda>(n, rel). (n, rel, Relation_GetAttributeIndex rel c)) (name2relation q))"
    from f True have "H \<noteq> []" "hd H = (n, rel, i)"
      by (auto simp: find_column_def Let_def H_def [symmetric] split: if_splits)
    then have "(n, rel, i) \<in> set H" using hd_in_set [of H] by simp
    then show ?thesis by (auto simp: H_def)
  qed (use f in \<open>auto simp: find_column_def Let_def dest: map_of_SomeD split: option.splits if_splits\<close>)
  moreover from this have "attr_name (attributes rel ! nat i) = c"
    using FindAttribute_spec [of rel c "nat i"] GetAttributeIndex_bounds [of rel c]
    by (auto simp: GetAttributeIndex_Find Let_def split: if_splits)
  ultimately show ?thesis using GetAttributeIndex_bounds [of rel c] by auto
qed

lemma known_table:
  assumes "known T m q" and "distinct (map fst T)" and "(n, rel) \<in> set (name2relation q)"
  obtains k where "k < m" "T ! k = (n, rel)" "map_of (name2tuple_index q) n = Some (int k)"
proof -
  from assms have "(n, rel) \<in> set (take m T)" "m \<le> length T" by (auto simp: known_def)
  then obtain k where k: "k < m" "T ! k = (n, rel)" by (auto simp: in_set_conv_nth)
  have "distinct (map fst (take m T))" using assms(2) by (simp add: take_map [symmetric])
  moreover have "map fst (take m T) ! k = n" using k \<open>m \<le> length T\<close> by simp
  ultimately have "map_of (zip (map fst (take m T)) (map int [0..<m])) n = Some (int k)"
    using map_of_zip_nth [of "map fst (take m T)" "map int [0..<m]" k] k \<open>m \<le> length T\<close> by simp
  with k that assms(1) show thesis by (auto simp: known_def)
qed

lemma push_ref_extends: "push_ref type r q = Inr q' \<Longrightarrow> extends q q' \<and> name2slot q' = name2slot q"
  by (auto simp: push_ref_def extends_def split: ClauseType.splits)

lemma extends_slot:
  "extends q (q\<lparr>name2slot := map_insert r s (name2slot q)\<rparr>)"
  by (auto simp: extends_def map_insert_def map_le_def)

lemma CheckColumnReference_ok:
  assumes "CheckColumnReference r t c type q = Inr (kStateOK, q')"
    and "known T m q" "slots_ok T m q" "distinct (map fst T)"
  shows "extends q q' \<and> slots_ok T m q' \<and> refs_ok T m (ColumnReference r t c) q'"
proof -
  from assms(1) obtain n rel i where f: "find_column q t c = Inr (n, rel, i)"
    by (auto simp: CheckColumnReference_def find_column_def Let_def
        split: sum.splits prod.splits option.splits if_splits)
  from find_column_found [OF f] have n: "(n, rel) \<in> set (name2relation q)" "0 \<le> i"
    "nat i < length (attributes rel)" by auto
  from known_table [OF assms(2,4) n(1)] obtain k where k: "k < m" "T ! k = (n, rel)"
    "map_of (name2tuple_index q) n = Some (int k)" .
  let ?s = "SlotReference (attr_data_type (attributes rel ! nat i)) (int k) i"
  let ?q = "q\<lparr>name2slot := map_insert r ?s (name2slot q)\<rparr>"
  from assms(1) f k n have p: "push_ref type r ?q = Inr q'"
    by (simp add: CheckColumnReference_def Relation_GetAttribute_def)
  have s: "slot_ok T m ?s" unfolding slot_ok_def
    by (rule exI [of _ k], rule exI [of _ "nat i"]) (use k n in simp)
  from push_ref_extends [OF p] have e: "extends ?q q'" "name2slot q' = name2slot ?q" by auto
  have slots: "slots_ok T m q'" using assms(3) s
    by (auto simp: slots_ok_def e(2) map_insert_def split: if_splits)
  have "\<exists>x. map_of (name2slot q') r = Some x" by (auto simp: e(2) map_insert_def)
  then have "refs_ok T m (ColumnReference r t c) q'" using slots by (auto simp: refs_ok_def slots_ok_def)
  with slots extends_trans [OF extends_slot e(1)] show ?thesis by simp
qed

lemma CheckExpressionBase_ok:
  "CheckExpressionBase e type q = Inr (kStateOK, q') \<Longrightarrow> known T m q \<Longrightarrow> slots_ok T m q \<Longrightarrow>
   distinct (map fst T) \<Longrightarrow> extends q q' \<and> slots_ok T m q' \<and> refs_ok T m e q'"
proof (induction e arbitrary: q q')
  case (ColumnReference r t c)
  then show ?case using CheckColumnReference_ok [of r t c type q q' T m] by simp
next
  case (ConstExpr c)
  then show ?case by (simp add: refs_ok_def)
next
  case (Operation op l r)
  from Operation.prems(1) obtain le re q1 q2 where l: "l = Some le" "r = Some re"
    and 1: "CheckExpressionBase le type q = Inr (kStateOK, q1)"
    and 2: "CheckExpressionBase re type q1 = Inr (kStateOK, q2)"
    and q': "extends q2 q'" "name2slot q' = name2slot q2"
    by (auto simp: extends_def split: if_splits option.splits)
  have a: "extends q q1" "slots_ok T m q1" "refs_ok T m le q1"
    using Operation.IH(1) [OF _ 1 Operation.prems(2-4)] l by auto
  have b: "extends q1 q2" "slots_ok T m q2" "refs_ok T m re q2"
    using Operation.IH(2) [OF _ 2 _ a(2) Operation.prems(4)] known_extends [OF a(1)] Operation.prems(2) l by auto
  have "refs_ok T m le q'" "refs_ok T m re q'"
    using refs_ok_extends [OF extends_trans [OF b(1) q'(1)] a(3)] refs_ok_extends [OF q'(1) b(3)] by auto
  then have "refs_ok T m (Operation op l r) q'" by (auto simp: refs_ok_def l)
  with a b q' show ?case using extends_trans [OF extends_trans [OF a(1) b(1)] q'(1)]
    by (simp add: slots_ok_def)
qed

subsection \<open>Tables\<close>

text \<open>The join predicates of a factor whose first table has number \<open>m\<close>.\<close>

fun joins_ok :: "tables \<Rightarrow> nat \<Rightarrow> table_factor \<Rightarrow> QueryRealizer \<Rightarrow> bool" where
  "joins_ok T m (JoinClause (Some l) (Some (TableReference t a)) (Some p) jt) q =
     (joins_ok T m l q \<and> refs_ok T (m + length (factor_tables l) + 1) p q)"
| "joins_ok T m _ q = True"

lemma joins_ok_map_le:
  "map_of (name2slot q) \<subseteq>\<^sub>m map_of (name2slot q') \<Longrightarrow> joins_ok T m tf q \<Longrightarrow> joins_ok T m tf q'"
  by (induction T m tf q rule: joins_ok.induct) (auto intro: refs_ok_map_le)

text \<open>The tables of a factor stand in \<open>T\<close> from position \<open>m\<close> on, with the relations of the catalog.\<close>

definition placed :: "LevelStore \<Rightarrow> tables \<Rightarrow> nat \<Rightarrow> (string \<times> string) list \<Rightarrow> bool" where
  "placed st T m ts \<longleftrightarrow> m + length ts \<le> length T \<and>
     (\<forall>i < length ts. fst (T ! (m + i)) = fst (ts ! i) \<and> GetRelation st (snd (ts ! i)) = Some (snd (T ! (m + i))))"

lemma placed_append:
  "placed st T m (xs @ ys) \<longleftrightarrow> placed st T m xs \<and> placed st T (m + length xs) ys"
proof -
  have "(\<forall>i < length xs + length ys. P i) \<longleftrightarrow> (\<forall>i < length xs. P i) \<and> (\<forall>i < length ys. P (length xs + i))"
    for P
  proof (intro iffI allI impI conjI)
    fix i assume h: "(\<forall>i < length xs. P i) \<and> (\<forall>i < length ys. P (length xs + i))" "i < length xs + length ys"
    show "P i"
    proof (cases "i < length xs")
      case False
      with h(2) have "i - length xs < length ys" "length xs + (i - length xs) = i" by simp_all
      with h(1) show ?thesis by metis
    qed (use h in simp)
  qed auto
  then show ?thesis by (auto simp: placed_def nth_append add.assoc)
qed

lemma length_smap_insert:
  "k \<notin> fst ` set m \<Longrightarrow> length (smap_insert k v m) = Suc (length m)"
  by (induction k v m rule: smap_insert.induct) auto

lemma set_smap_insert: "k \<notin> fst ` set m \<Longrightarrow> set (smap_insert k v m) = insert (k, v) (set m)"
  by (induction k v m rule: smap_insert.induct) auto

lemma distinct_smap_insert:
  "k \<notin> fst ` set m \<Longrightarrow> distinct (map fst m) \<Longrightarrow> distinct (map fst (smap_insert k v m))"
proof (induction k v m rule: smap_insert.induct)
  case (2 k v k' v' m)
  then show ?case using set_smap_insert [of k m v] by (auto simp: image_iff)
qed simp

lemma known_next:
  assumes "known T m q" and "m < length T" and "distinct (map fst T)" and "T ! m = (n, rel)"
  shows "known T (Suc m) (q\<lparr>name2tuple_index := map_insert n (int (length (name2tuple_index q))) (name2tuple_index q),
    name2relation := smap_insert n rel (name2relation q)\<rparr>)"
proof -
  have t: "take (Suc m) T = take m T @ [(n, rel)]" using assms(2,4) by (simp add: take_Suc_conv_app_nth)
  have "distinct (map fst (take m T @ [(n, rel)]))" using assms(3) unfolding t [symmetric] by (simp add: take_map [symmetric])
  then have new: "n \<notin> fst ` set (take m T)" by simp
  then have nr: "n \<notin> fst ` set (name2relation q)" using assms(1) by (simp add: known_def)
  have "map_of (zip (map fst (take m T)) (map int [0..<m])) n = None"
    using new assms(1) by (simp add: known_def)
  then have none: "map_of (name2tuple_index q) n = None" using assms(1) by (simp add: known_def)
  have "map_of (zip (map fst (take m T) @ [n]) (map int [0..<m] @ [int m])) =
      (map_of (zip (map fst (take m T)) (map int [0..<m])))(n \<mapsto> int m)"
    using new assms(1) by (intro map_of_zip_snoc [symmetric]) (auto simp: known_def)
  then show ?thesis
    using assms(1,2) none nr new
    by (auto simp: known_def t map_insert_def length_smap_insert set_smap_insert distinct_smap_insert)
qed

lemma CheckTableFactor_ok:
  "CheckTableFactor st tf q = Inr (kStateOK, q') \<Longrightarrow> left_deep tf \<Longrightarrow> known T m q \<Longrightarrow> slots_ok T m q \<Longrightarrow>
   distinct (map fst T) \<Longrightarrow> placed st T m (factor_tables tf) \<Longrightarrow>
   known T (m + length (factor_tables tf)) q' \<and> slots_ok T (m + length (factor_tables tf)) q' \<and>
   map_of (name2slot q) \<subseteq>\<^sub>m map_of (name2slot q') \<and> joins_ok T m tf q' \<and>
   all_tuple_desc q' = all_tuple_desc q \<and> output_row_desc q' = output_row_desc q \<and>
   projection_list q' = projection_list q \<and> all_iter q' = all_iter q"
proof (induction tf arbitrary: q q' rule: left_deep.induct)
  case (1 t a)
  let ?n = "if a \<noteq> [] then a else t"
  from 1 obtain rel where r: "GetRelation st t = Some rel" "T ! m = (?n, rel)" "m < length T"
    by (auto simp: placed_def prod_eq_iff)
  with 1 have q': "q' = q\<lparr>name2tuple_index := map_insert ?n (int (length (name2tuple_index q))) (name2tuple_index q),
    name2relation := smap_insert ?n rel (name2relation q)\<rparr>" by (auto simp: Let_def)
  have "known T (Suc m) q'" unfolding q' by (rule known_next [OF 1(3) r(3) 1(5) r(2)])
  moreover have "slots_ok T (Suc m) q'" using slots_ok_mono [OF 1(4), of "Suc m"] by (simp add: q' slots_ok_def)
  ultimately show ?case by (simp add: q')
next
  case (2 l t a p jt)
  let ?n = "if a \<noteq> [] then a else t" and ?m = "m + length (factor_tables l)"
  from 2(2) obtain q1 q2 where c1: "CheckTableFactor st l q = Inr (kStateOK, q1)"
    and c2: "CheckTableFactor st (TableReference t a) q1 = Inr (kStateOK, q2)"
    and c3: "CheckExpressionBase p kJoinOn q2 = Inr (kStateOK, q')"
    by (auto simp: CheckExpression_ptr_def split: if_splits option.splits)
  from 2(7) have pl: "placed st T m (factor_tables l)" "placed st T ?m [(?n, t)]"
    by (simp_all add: placed_append)
  from 2(1) [OF c1 _ 2(4-6) pl(1)] 2(3) have a: "known T ?m q1" "slots_ok T ?m q1"
    "map_of (name2slot q) \<subseteq>\<^sub>m map_of (name2slot q1)" "joins_ok T m l q1"
    "all_tuple_desc q1 = all_tuple_desc q" "output_row_desc q1 = output_row_desc q"
    "projection_list q1 = projection_list q" "all_iter q1 = all_iter q" by auto
  from pl(2) obtain rel where r: "GetRelation st t = Some rel" "T ! ?m = (?n, rel)" "?m < length T"
    by (auto simp: placed_def prod_eq_iff)
  with c2 have q2: "q2 = q1\<lparr>name2tuple_index := map_insert ?n (int (length (name2tuple_index q1))) (name2tuple_index q1),
    name2relation := smap_insert ?n rel (name2relation q1)\<rparr>" by (auto simp: Let_def)
  have k2: "known T (Suc ?m) q2" unfolding q2 by (rule known_next [OF a(1) r(3) 2(6) r(2)])
  have s2: "slots_ok T (Suc ?m) q2" using slots_ok_mono [OF a(2), of "Suc ?m"] by (simp add: q2 slots_ok_def)
  have n2: "name2slot q2 = name2slot q1" by (simp add: q2)
  from CheckExpressionBase_ok [OF c3 k2 s2 2(6)] have e: "extends q2 q'" "slots_ok T (Suc ?m) q'"
    "refs_ok T (Suc ?m) p q'" by auto
  have le: "map_of (name2slot q1) \<subseteq>\<^sub>m map_of (name2slot q')" using e(1) n2 by (simp add: extends_def)
  have "known T (Suc ?m) q'" using known_extends [OF e(1)] k2 by simp
  moreover have "joins_ok T m l q'" by (rule joins_ok_map_le [OF le a(4)])
  ultimately show ?case using e a map_le_trans [OF a(3) le] by (simp add: extends_def q2)
qed auto

end
