(* ===== verification/Plan_Semantics.thy ===== *)
theory Plan_Semantics
  imports Executor
begin

section \<open>What a plan delivers\<close>

text \<open>
  The executors of \<^verbatim>\<open>Executor.thy\<close> against a relational semantics. \<open>all_rows\<close> is the list of
  rows a plan denotes; \<open>remaining\<close> is the part of it that a plan in the middle of a run has
  still to deliver. \<open>Open\<close> rewinds a plan to all of its rows, and every \<open>GetNext\<close> delivers
  the first of the remaining rows or reports the end. The lemmas hold for the plans that the
  realizer builds without aliasing: scans at distinct positions over distinct relations,
  joins whose right child is a scan, predicates over the columns of their own tables.
\<close>

subsection \<open>Runs without fuel\<close>

definition opens :: "iters \<Rightarrow> exec \<Rightarrow> State \<times> iters \<times> exec \<Rightarrow> bool" where
  "opens \<sigma> e r \<longleftrightarrow> (\<exists>k. Open k \<sigma> e = Inr r)"

definition nexts :: "iters \<Rightarrow> exec \<Rightarrow> TupleRow \<Rightarrow> State \<times> iters \<times> exec \<times> TupleRow \<Rightarrow> bool" where
  "nexts \<sigma> e row r \<longleftrightarrow> (\<exists>k. GetNext k \<sigma> e row = Inr r)"

lemma opens_Suc:
  "opens \<sigma> l r \<Longrightarrow> (\<And>k. Open k \<sigma> l = Inr r \<Longrightarrow> Open (Suc k) \<sigma>' e = Inr r') \<Longrightarrow> opens \<sigma>' e r'"
  by (auto simp: opens_def)

lemma nexts_Suc:
  "nexts \<sigma> l row r \<Longrightarrow> (\<And>k. GetNext k \<sigma> l row = Inr r \<Longrightarrow> GetNext (Suc k) \<sigma>' e row' = Inr r') \<Longrightarrow>
   nexts \<sigma>' e row' r'"
  by (auto simp: nexts_def)

lemma opens_SeqScan:
  "opens \<sigma> (SeqScan r i n)
     (kStateOK, \<sigma>(r := IteratorHandler_SeekToFirst (\<sigma> r)), SeqScan r i n)"
  unfolding opens_def by (rule exI [of _ 1]) simp

lemma opens_Select:
  "opens \<sigma> l (st, \<sigma>', l') \<Longrightarrow> opens \<sigma> (Select l p) (st, \<sigma>', Select l' p)"
  by (erule opens_Suc) simp

lemma opens_Project:
  "opens \<sigma> l (st, \<sigma>', l') \<Longrightarrow> opens \<sigma> (Project l as row) (st, \<sigma>', Project l' as row)"
  by (erule opens_Suc) simp

lemma opens_NestedLoopJoin:
  assumes "opens \<sigma> l (kStateOK, \<sigma>1, l1)" and "opens \<sigma>1 r (kStateOK, \<sigma>2, r1)"
    and "nexts \<sigma>2 l1 row (ls', \<sigma>3, l2, row')" and "ls' = kStateOK \<or> ls' = kStateEOF"
  shows "opens \<sigma> (NestedLoopJoin l r p row ls rs)
           (kStateOK, \<sigma>3, NestedLoopJoin l2 r1 p row' ls' kStateOK)"
proof -
  from assms(1-3) obtain k1 k2 k3 where
    "Open k1 \<sigma> l = Inr (kStateOK, \<sigma>1, l1)" "Open k2 \<sigma>1 r = Inr (kStateOK, \<sigma>2, r1)"
    "GetNext k3 \<sigma>2 l1 row = Inr (ls', \<sigma>3, l2, row')"
    by (auto simp: opens_def nexts_def)
  then have "Open (max k1 (max k2 k3)) \<sigma> l = Inr (kStateOK, \<sigma>1, l1)"
    "Open (max k1 (max k2 k3)) \<sigma>1 r = Inr (kStateOK, \<sigma>2, r1)"
    "GetNext (max k1 (max k2 k3)) \<sigma>2 l1 row = Inr (ls', \<sigma>3, l2, row')"
    by (auto elim!: Open_mono GetNext_mono)
  with assms(4) have "Open (Suc (max k1 (max k2 k3))) \<sigma> (NestedLoopJoin l r p row ls rs) =
      Inr (kStateOK, \<sigma>3, NestedLoopJoin l2 r1 p row' ls' kStateOK)"
    by auto
  then show ?thesis unfolding opens_def by blast
qed

lemma nexts_SeqScan: "SeqScan_GetNext \<sigma> r i n row = Inr res \<Longrightarrow> nexts \<sigma> (SeqScan r i n) row res"
  unfolding nexts_def by (rule exI [of _ 1]) simp

lemma nexts_Select_EOF:
  "nexts \<sigma> l row (kStateEOF, \<sigma>', l', row') \<Longrightarrow>
   nexts \<sigma> (Select l p) row (kStateEOF, \<sigma>', Select l' p, row')"
  by (erule nexts_Suc) (simp del: bind_res_eq_Inr)

lemma nexts_Select_take:
  "nexts \<sigma> l row (kStateOK, \<sigma>', l', row') \<Longrightarrow> BooleanExpr_GetValue p row' = Inr True \<Longrightarrow>
   nexts \<sigma> (Select l p) row (kStateOK, \<sigma>', Select l' p, row')"
  by (erule nexts_Suc) (simp del: bind_res_eq_Inr)

lemma nexts_Select_skip:
  assumes "nexts \<sigma> l row (kStateOK, \<sigma>', l', row')" and "BooleanExpr_GetValue p row' = Inr False"
    and "nexts \<sigma>' (Select l' p) row' res"
  shows "nexts \<sigma> (Select l p) row res"
proof -
  from assms(1,3) obtain k1 k2 where "GetNext k1 \<sigma> l row = Inr (kStateOK, \<sigma>', l', row')"
    "GetNext k2 \<sigma>' (Select l' p) row' = Inr res" by (auto simp: nexts_def)
  then have "GetNext (max k1 k2) \<sigma> l row = Inr (kStateOK, \<sigma>', l', row')"
    "GetNext (max k1 k2) \<sigma>' (Select l' p) row' = Inr res"
    by (auto elim!: GetNext_mono)
  with assms(2) have "GetNext (Suc (max k1 k2)) \<sigma> (Select l p) row = Inr res" by simp
  then show ?thesis unfolding nexts_def by blast
qed

lemma nexts_Project_end:
  "nexts \<sigma> l trow (st, \<sigma>', l', trow') \<Longrightarrow> st \<noteq> kStateOK \<Longrightarrow>
   nexts \<sigma> (Project l as trow) row (st, \<sigma>', Project l' as trow', row)"
  by (erule nexts_Suc) (simp del: bind_res_eq_Inr)

lemma nexts_Project_row:
  "nexts \<sigma> l trow (kStateOK, \<sigma>', l', trow') \<Longrightarrow> Project_tuple as trow' = Inr t \<Longrightarrow>
   0 < length row \<Longrightarrow>
   nexts \<sigma> (Project l as trow) row (kStateOK, \<sigma>', Project l' as trow', row[0 := Some t])"
  by (erule nexts_Suc) (simp add: TupleRow_SetTuple_def del: bind_res_eq_Inr)

lemma nexts_Join_end:
  "nexts \<sigma> (NestedLoopJoin l r p jrow kStateEOF kStateEOF) row
     (kStateEOF, \<sigma>, NestedLoopJoin l r p jrow kStateEOF kStateEOF, row)"
  unfolding nexts_def by (rule exI [of _ 1]) simp

lemma nexts_Join_take:
  assumes "\<not> (ls = kStateEOF \<and> rs = kStateEOF)"
    and "nexts \<sigma> r jrow (kStateOK, \<sigma>', r', jrow')" and "BooleanExpr_GetValue p jrow' = Inr True"
  shows "nexts \<sigma> (NestedLoopJoin l r p jrow ls rs) row
    (kStateOK, \<sigma>', NestedLoopJoin l r' p jrow' ls kStateOK, TupleRow_CopyTo jrow' row)"
proof -
  from assms(2) obtain k where "GetNext k \<sigma> r jrow = Inr (kStateOK, \<sigma>', r', jrow')"
    by (auto simp: nexts_def)
  with assms(1,3) have "GetNext (Suc k) \<sigma> (NestedLoopJoin l r p jrow ls rs) row =
    Inr (kStateOK, \<sigma>', NestedLoopJoin l r' p jrow' ls kStateOK, TupleRow_CopyTo jrow' row)"
    by auto
  then show ?thesis unfolding nexts_def by blast
qed

lemma nexts_Join_skip:
  assumes "\<not> (ls = kStateEOF \<and> rs = kStateEOF)"
    and "nexts \<sigma> r jrow (kStateOK, \<sigma>', r', jrow')" and "BooleanExpr_GetValue p jrow' = Inr False"
    and "nexts \<sigma>' (NestedLoopJoin l r' p jrow' ls kStateOK) row res"
  shows "nexts \<sigma> (NestedLoopJoin l r p jrow ls rs) row res"
proof -
  from assms(2,4) obtain k1 k2 where "GetNext k1 \<sigma> r jrow = Inr (kStateOK, \<sigma>', r', jrow')"
    "GetNext k2 \<sigma>' (NestedLoopJoin l r' p jrow' ls kStateOK) row = Inr res"
    by (auto simp: nexts_def)
  then have "GetNext (max k1 k2) \<sigma> r jrow = Inr (kStateOK, \<sigma>', r', jrow')"
    "GetNext (max k1 k2) \<sigma>' (NestedLoopJoin l r' p jrow' ls kStateOK) row = Inr res"
    by (auto elim!: GetNext_mono)
  with assms(1,3) have "GetNext (Suc (max k1 k2)) \<sigma> (NestedLoopJoin l r p jrow ls rs) row = Inr res"
    by auto
  then show ?thesis unfolding nexts_def by blast
qed

lemma nexts_Join_left_end:
  assumes "\<not> (ls = kStateEOF \<and> rs = kStateEOF)"
    and "nexts \<sigma> r jrow (kStateEOF, \<sigma>1, r', jrow1)" and "nexts \<sigma>1 l jrow1 (ls', \<sigma>2, l', jrow2)"
    and "ls' \<noteq> kStateOK"
  shows "nexts \<sigma> (NestedLoopJoin l r p jrow ls rs) row
    (ls', \<sigma>2, NestedLoopJoin l' r' p jrow2 ls' kStateEOF, row)"
proof -
  from assms(2,3) obtain k1 k2 where "GetNext k1 \<sigma> r jrow = Inr (kStateEOF, \<sigma>1, r', jrow1)"
    "GetNext k2 \<sigma>1 l jrow1 = Inr (ls', \<sigma>2, l', jrow2)" by (auto simp: nexts_def)
  then have "GetNext (max k1 k2) \<sigma> r jrow = Inr (kStateEOF, \<sigma>1, r', jrow1)"
    "GetNext (max k1 k2) \<sigma>1 l jrow1 = Inr (ls', \<sigma>2, l', jrow2)"
    by (auto elim!: GetNext_mono)
  with assms(1,4) have "GetNext (Suc (max k1 k2)) \<sigma> (NestedLoopJoin l r p jrow ls rs) row =
    Inr (ls', \<sigma>2, NestedLoopJoin l' r' p jrow2 ls' kStateEOF, row)"
    by auto
  then show ?thesis unfolding nexts_def by blast
qed

lemma nexts_Join_advance:
  assumes "\<not> (ls = kStateEOF \<and> rs = kStateEOF)"
    and "nexts \<sigma> r jrow (kStateEOF, \<sigma>1, r1, jrow1)"
    and "nexts \<sigma>1 l jrow1 (kStateOK, \<sigma>2, l', jrow2)"
    and "opens \<sigma>2 r1 (kStateOK, \<sigma>3, r2)"
    and "nexts \<sigma>3 (NestedLoopJoin l' r2 p jrow2 kStateOK kStateOK) row res"
  shows "nexts \<sigma> (NestedLoopJoin l r p jrow ls rs) row res"
proof -
  from assms(2-5) obtain k1 k2 k3 k4 where
    "GetNext k1 \<sigma> r jrow = Inr (kStateEOF, \<sigma>1, r1, jrow1)"
    "GetNext k2 \<sigma>1 l jrow1 = Inr (kStateOK, \<sigma>2, l', jrow2)"
    "Open k3 \<sigma>2 r1 = Inr (kStateOK, \<sigma>3, r2)"
    "GetNext k4 \<sigma>3 (NestedLoopJoin l' r2 p jrow2 kStateOK kStateOK) row = Inr res"
    by (auto simp: nexts_def opens_def)
  then have "GetNext (max (max k1 k2) (max k3 k4)) \<sigma> r jrow = Inr (kStateEOF, \<sigma>1, r1, jrow1)"
    "GetNext (max (max k1 k2) (max k3 k4)) \<sigma>1 l jrow1 = Inr (kStateOK, \<sigma>2, l', jrow2)"
    "Open (max (max k1 k2) (max k3 k4)) \<sigma>2 r1 = Inr (kStateOK, \<sigma>3, r2)"
    "GetNext (max (max k1 k2) (max k3 k4)) \<sigma>3
       (NestedLoopJoin l' r2 p jrow2 kStateOK kStateOK) row = Inr res"
    by (auto elim!: Open_mono GetNext_mono)
  with assms(1) have
    "GetNext (Suc (max (max k1 k2) (max k3 k4))) \<sigma> (NestedLoopJoin l r p jrow ls rs) row = Inr res"
    by auto
  then show ?thesis unfolding nexts_def by blast
qed

subsection \<open>Positions and slots\<close>

fun positions :: "exec \<Rightarrow> nat set" where
  "positions (SeqScan r i n) = {i}"
| "positions (Select l p) = positions l"
| "positions (Project l as row) = positions l"
| "positions (NestedLoopJoin l r p row ls rs) = positions l \<union> positions r"

fun relids :: "exec \<Rightarrow> u32 set" where
  "relids (SeqScan r i n) = {r}"
| "relids (Select l p) = relids l"
| "relids (Project l as row) = relids l"
| "relids (NestedLoopJoin l r p row ls rs) = relids l \<union> relids r"

fun value_slots :: "value_expr \<Rightarrow> nat set" where
  "value_slots (SlotReference _ i j) = {nat i}"
| "value_slots _ = {}"

fun bool_slots :: "bool_expr \<Rightarrow> nat set" where
  "bool_slots (VarcharCompare op l r) = value_slots l \<union> value_slots r"
| "bool_slots (IntegerCompare op l r) = value_slots l \<union> value_slots r"
| "bool_slots (FloatCompare op l r) = value_slots l \<union> value_slots r"
| "bool_slots (LogicExpr op l r) = bool_slots l \<union> bool_slots r"

text \<open>Rows that agree outside a set of positions, and rows that are null outside one.\<close>

definition agree_off :: "nat set \<Rightarrow> TupleRow \<Rightarrow> TupleRow \<Rightarrow> bool" where
  "agree_off D a b \<longleftrightarrow> length a = length b \<and> (\<forall>i < length a. i \<notin> D \<longrightarrow> a ! i = b ! i)"

definition clean :: "nat set \<Rightarrow> TupleRow \<Rightarrow> bool" where
  "clean S row \<longleftrightarrow> (\<forall>i < length row. i \<notin> S \<longrightarrow> row ! i = None)"

lemma agree_off_empty [simp]: "agree_off {} a b \<longleftrightarrow> a = b"
  by (auto simp: agree_off_def intro: nth_equalityI)

lemma agree_off_refl [simp]: "agree_off D a a"
  by (simp add: agree_off_def)

lemma agree_off_length: "agree_off D a b \<Longrightarrow> length a = length b"
  by (simp add: agree_off_def)

lemma ValueExpr_GetValue_cong:
  assumes "agree_off D a b" and "value_slots e \<inter> D = {}"
  shows "ValueExpr_GetValue e a = ValueExpr_GetValue e b"
proof (cases e)
  case (SlotReference t i j)
  with assms have "TupleRow_GetTuple a (nat i) = TupleRow_GetTuple b (nat i)"
    by (auto simp: agree_off_def TupleRow_GetTuple_def nth_res_def)
  with SlotReference show ?thesis
    by (simp add: SlotReference_GetValue_def cong del: bind_res_weak_cong)
qed simp_all

lemma BooleanExpr_GetValue_cong:
  assumes "agree_off D a b" and "bool_slots e \<inter> D = {}"
  shows "BooleanExpr_GetValue e a = BooleanExpr_GetValue e b"
  using assms(2)
proof (induction e)
  case (VarcharCompare op l r)
  with assms(1) have "ValueExpr_GetValue l a = ValueExpr_GetValue l b"
    "ValueExpr_GetValue r a = ValueExpr_GetValue r b"
    by (auto intro!: ValueExpr_GetValue_cong)
  then show ?case by (simp add: VarcharCompare_GetValue_def read_string_def cong del: bind_res_weak_cong)
next
  case (IntegerCompare op l r)
  with assms(1) have "ValueExpr_GetValue l a = ValueExpr_GetValue l b"
    "ValueExpr_GetValue r a = ValueExpr_GetValue r b"
    by (auto intro!: ValueExpr_GetValue_cong)
  then show ?case by (simp add: IntegerCompare_GetValue_def read_word64_def cong del: bind_res_weak_cong)
next
  case (FloatCompare op l r)
  with assms(1) have "ValueExpr_GetValue l a = ValueExpr_GetValue l b"
    "ValueExpr_GetValue r a = ValueExpr_GetValue r b"
    by (auto intro!: ValueExpr_GetValue_cong)
  then show ?case by (simp add: FloatCompare_GetValue_def read_word64_def cong del: bind_res_weak_cong)
next
  case (LogicExpr op l r)
  then have "BooleanExpr_GetValue l a = BooleanExpr_GetValue l b"
    "BooleanExpr_GetValue r a = BooleanExpr_GetValue r b" by auto
  then show ?case by simp
qed

subsection \<open>The rows of a plan\<close>

definition scan_row :: "nat \<Rightarrow> nat \<Rightarrow> byte list \<Rightarrow> TupleRow" where
  "scan_row n i t = (TupleRow_new n)[i := Some (map Some t)]"

text \<open>The tuples of the right row, and those of the left row where the right one has none.\<close>

definition merge_rows :: "TupleRow \<Rightarrow> TupleRow \<Rightarrow> TupleRow" where
  "merge_rows x y = map (\<lambda>(a, b). if b = None then a else b) (zip x y)"

definition holds :: "bool_expr \<Rightarrow> TupleRow \<Rightarrow> bool" where
  "holds p row \<longleftrightarrow> BooleanExpr_GetValue p row = Inr True"

definition projected :: "value_expr list \<Rightarrow> TupleRow \<Rightarrow> TupleRow" where
  "projected as row = [case Project_tuple as row of Inl _ \<Rightarrow> None | Inr t \<Rightarrow> Some t]"

fun all_rows :: "nat \<Rightarrow> iters \<Rightarrow> exec \<Rightarrow> TupleRow list" where
  "all_rows n \<sigma> (SeqScan r i c) = map (scan_row n i) (iter_all (\<sigma> r))"
| "all_rows n \<sigma> (Select l p) = filter (holds p) (all_rows n \<sigma> l)"
| "all_rows n \<sigma> (Project l as row) = map (projected as) (all_rows n \<sigma> l)"
| "all_rows n \<sigma> (NestedLoopJoin l r p row ls rs) =
     concat (map (\<lambda>x. filter (holds p) (map (merge_rows x) (all_rows n \<sigma> r))) (all_rows n \<sigma> l))"

fun remaining :: "nat \<Rightarrow> iters \<Rightarrow> exec \<Rightarrow> TupleRow list" where
  "remaining n \<sigma> (SeqScan r i c) = map (scan_row n i) (iter_rest (\<sigma> r))"
| "remaining n \<sigma> (Select l p) = filter (holds p) (remaining n \<sigma> l)"
| "remaining n \<sigma> (Project l as row) = map (projected as) (remaining n \<sigma> l)"
| "remaining n \<sigma> (NestedLoopJoin l r p row ls rs) =
     (if ls = kStateOK then filter (holds p) (map (merge_rows row) (remaining n \<sigma> r)) else [])
     @ concat (map (\<lambda>x. filter (holds p) (map (merge_rows x) (all_rows n \<sigma> r))) (remaining n \<sigma> l))"

text \<open>The plan without the members that a run changes.\<close>

fun strip :: "exec \<Rightarrow> exec" where
  "strip (SeqScan r i c) = SeqScan r i 0"
| "strip (Select l p) = Select (strip l) p"
| "strip (Project l as row) = Project (strip l) as []"
| "strip (NestedLoopJoin l r p row ls rs) = NestedLoopJoin (strip l) (strip r) p [] kStateOK kStateOK"

lemma strip_idem [simp]: "strip (strip e) = strip e"
  by (induction e) auto

lemma positions_strip: "positions (strip e) = positions e"
  by (induction e) auto

lemma relids_strip: "relids (strip e) = relids e"
  by (induction e) auto

lemma all_rows_strip: "all_rows n \<sigma> (strip e) = all_rows n \<sigma> e"
  by (induction e) auto

lemma strip_eqD:
  assumes "strip e = strip e'"
  shows "positions e = positions e'" and "relids e = relids e'"
    and "all_rows n \<sigma> e = all_rows n \<sigma> e'"
  using assms by (metis positions_strip, metis relids_strip, metis all_rows_strip)

lemma strip_eq_cases:
  "strip e = SeqScan r i 0 \<Longrightarrow> \<exists>c. e = SeqScan r i c"
  "strip e = Select s p \<Longrightarrow> \<exists>l. e = Select l p \<and> strip l = s"
  "strip e = NestedLoopJoin s t p [] kStateOK kStateOK \<Longrightarrow>
     \<exists>l r row ls rs. e = NestedLoopJoin l r p row ls rs \<and> strip l = s \<and> strip r = t"
  by (cases e; simp)+

lemma length_scan_row [simp]: "length (scan_row n i t) = n"
  by (simp add: scan_row_def TupleRow_new_def)

lemma length_merge_rows [simp]: "length (merge_rows x y) = min (length x) (length y)"
  by (simp add: merge_rows_def)

lemma merge_scan_row:
  "length x = n \<Longrightarrow> i < n \<Longrightarrow> merge_rows x (scan_row n i t) = x[i := Some (map Some t)]"
  by (rule nth_equalityI) (auto simp: merge_rows_def scan_row_def TupleRow_new_def nth_list_update)

lemma merge_scan_row_cong:
  assumes "agree_off {i} x x'" and "length x = n" and "i < n"
  shows "merge_rows x (scan_row n i t) = merge_rows x' (scan_row n i t)"
proof -
  from assms have "length x' = n" by (simp add: agree_off_def)
  moreover have "x[i := a] = x'[i := a]" for a
    using assms by (auto simp: agree_off_def nth_list_update intro!: nth_equalityI)
  ultimately show ?thesis using assms by (simp add: merge_scan_row)
qed

end
