(* ===== verification/Plan_Correct.thy ===== *)
theory Plan_Correct
  imports Plan_Semantics
begin

section \<open>Plans deliver their rows\<close>

text \<open>
  The invariant of a running plan, and the two laws that make a plan a source of rows:
  \<open>GetNext\<close> delivers the first remaining row or reports the end, and \<open>Open\<close> rewinds.
\<close>

subsection \<open>Well-formed plans\<close>

text \<open>
  \<open>n\<close> is the number of tables. Scans have distinct positions and relations, the right child
  of a join is a scan, and a predicate refers to the tables below it.
\<close>

fun plan_ok :: "nat \<Rightarrow> exec \<Rightarrow> bool" where
  "plan_ok n (SeqScan r i c) = (i < n)"
| "plan_ok n (Select l p) = (plan_ok n l \<and> bool_slots p \<subseteq> positions l)"
| "plan_ok n (Project l as row) = False"
| "plan_ok n (NestedLoopJoin l r p row ls rs) =
     (case r of
        SeqScan rr j c \<Rightarrow> plan_ok n l \<and> j < n \<and> j \<notin> positions l \<and> rr \<notin> relids l \<and>
          bool_slots p \<subseteq> insert j (positions l)
      | _ \<Rightarrow> False)"

text \<open>Evaluating the predicates never faults, and no join meets an empty left side alone.\<close>

fun plan_safe :: "nat \<Rightarrow> iters \<Rightarrow> exec \<Rightarrow> bool" where
  "plan_safe n \<sigma> (SeqScan r i c) = True"
| "plan_safe n \<sigma> (Select l p) =
     (plan_safe n \<sigma> l \<and> (\<forall>x \<in> set (all_rows n \<sigma> l). \<exists>b. BooleanExpr_GetValue p x = Inr b))"
| "plan_safe n \<sigma> (Project l as row) = plan_safe n \<sigma> l"
| "plan_safe n \<sigma> (NestedLoopJoin l r p row ls rs) =
     (plan_safe n \<sigma> l \<and>
      (\<forall>x \<in> set (all_rows n \<sigma> l). \<forall>y \<in> set (all_rows n \<sigma> r).
         \<exists>b. BooleanExpr_GetValue p (merge_rows x y) = Inr b) \<and>
      (all_rows n \<sigma> l \<noteq> [] \<or> all_rows n \<sigma> r = []))"

text \<open>What holds between calls: the members of a join agree with the state of its children.\<close>

fun plan_inv :: "nat \<Rightarrow> iters \<Rightarrow> exec \<Rightarrow> bool" where
  "plan_inv n \<sigma> (SeqScan r i c) = True"
| "plan_inv n \<sigma> (Select l p) = plan_inv n \<sigma> l"
| "plan_inv n \<sigma> (Project l as row) = plan_inv n \<sigma> l"
| "plan_inv n \<sigma> (NestedLoopJoin l r p row ls rs) =
     (plan_inv n \<sigma> l \<and> length row = n \<and> clean (positions l \<union> positions r) row \<and>
      (ls = kStateOK \<and> rs = kStateOK \<and> (\<exists>x \<in> set (all_rows n \<sigma> l). agree_off (positions r) row x) \<or>
       ls = kStateEOF \<and> remaining n \<sigma> l = [] \<and>
         (rs = kStateEOF \<or> rs = kStateOK \<and> remaining n \<sigma> r = [])))"

definition same_data :: "iters \<Rightarrow> iters \<Rightarrow> bool" where
  "same_data \<sigma> \<sigma>' \<longleftrightarrow> (\<forall>r. iter_all (\<sigma>' r) = iter_all (\<sigma> r))"

definition same_off :: "u32 set \<Rightarrow> iters \<Rightarrow> iters \<Rightarrow> bool" where
  "same_off R \<sigma> \<sigma>' \<longleftrightarrow> (\<forall>r. r \<notin> R \<longrightarrow> \<sigma>' r = \<sigma> r)"

lemma same_data_refl [simp]: "same_data \<sigma> \<sigma>" by (simp add: same_data_def)
lemma same_off_refl [simp]: "same_off R \<sigma> \<sigma>" by (simp add: same_off_def)

lemma same_data_trans: "same_data a b \<Longrightarrow> same_data b c \<Longrightarrow> same_data a c"
  by (simp add: same_data_def)

lemma same_off_trans: "same_off R a b \<Longrightarrow> same_off S b c \<Longrightarrow> same_off (R \<union> S) a c"
  by (simp add: same_off_def)

lemma same_off_mono: "same_off R a b \<Longrightarrow> R \<subseteq> S \<Longrightarrow> same_off S a b"
  by (auto simp: same_off_def)

lemma all_rows_same_data: "same_data \<sigma> \<sigma>' \<Longrightarrow> all_rows n \<sigma>' e = all_rows n \<sigma> e"
  by (induction e) (auto simp: same_data_def)

lemma plan_safe_same_data: "same_data \<sigma> \<sigma>' \<Longrightarrow> plan_safe n \<sigma>' e = plan_safe n \<sigma> e"
  by (induction e) (auto simp: all_rows_same_data)

lemma plan_safe_strip: "plan_safe n \<sigma> (strip e) = plan_safe n \<sigma> e"
  by (induction e) (auto simp: all_rows_strip)

lemma plan_ok_strip: "plan_ok n (strip e) = plan_ok n e"
  by (induction e) (auto simp: positions_strip relids_strip split: exec.splits)

lemma strip_eqD2:
  assumes "strip e = strip e'"
  shows "plan_ok n e = plan_ok n e'" and "plan_safe n \<sigma> e = plan_safe n \<sigma> e'"
  using assms by (metis plan_ok_strip, metis plan_safe_strip)

lemma remaining_same_off: "same_off R \<sigma> \<sigma>' \<Longrightarrow> R \<inter> relids e = {} \<Longrightarrow> remaining n \<sigma>' e = remaining n \<sigma> e
  \<and> all_rows n \<sigma>' e = all_rows n \<sigma> e"
proof (induction e)
  case (NestedLoopJoin l r p row ls rs)
  then have "R \<inter> relids l = {}" "R \<inter> relids r = {}" by auto
  with NestedLoopJoin show ?case by simp
qed (auto simp: same_off_def)

lemma plan_inv_same_off: "same_off R \<sigma> \<sigma>' \<Longrightarrow> R \<inter> relids e = {} \<Longrightarrow> plan_inv n \<sigma>' e = plan_inv n \<sigma> e"
proof (induction e)
  case (NestedLoopJoin l r p row ls rs)
  then have "R \<inter> relids l = {}" "R \<inter> relids r = {}" by auto
  with NestedLoopJoin show ?case
    using remaining_same_off [of R \<sigma> \<sigma>' l n] remaining_same_off [of R \<sigma> \<sigma>' r n] by simp
qed auto

lemma length_all_rows: "plan_ok n e \<Longrightarrow> x \<in> set (all_rows n \<sigma> e) \<Longrightarrow> length x = n"
  by (induction e arbitrary: x) (auto split: exec.splits)

lemma clean_mono: "clean S row \<Longrightarrow> S \<subseteq> T \<Longrightarrow> clean T row"
  by (auto simp: clean_def)

lemma clean_update: "clean S row \<Longrightarrow> i \<in> S \<Longrightarrow> clean S (row[i := t])"
  unfolding clean_def by (metis length_list_update nth_list_update_neq)

lemma clean_agree_off: "agree_off D a b \<Longrightarrow> clean S b \<Longrightarrow> clean (S \<union> D) a"
  by (auto simp: clean_def agree_off_def)

lemma all_rows_clean: "plan_ok n e \<Longrightarrow> x \<in> set (all_rows n \<sigma> e) \<Longrightarrow> clean (positions e) x"
proof (induction e arbitrary: x)
  case (SeqScan r i c)
  then show ?case by (auto simp: clean_def scan_row_def TupleRow_new_def nth_list_update)
next
  case (NestedLoopJoin l r p row ls rs)
  then obtain rr j c where r: "r = SeqScan rr j c" by (auto split: exec.splits)
  from NestedLoopJoin.prems r obtain y t where y: "y \<in> set (all_rows n \<sigma> l)"
    and x: "x = merge_rows y (scan_row n j t)" by auto
  from NestedLoopJoin.prems r have ok: "plan_ok n l" "j < n" by auto
  from NestedLoopJoin.IH(1) [OF ok(1) y] have "clean (positions l) y" .
  then have "clean (positions l \<union> {j}) y" by (rule clean_mono) auto
  then show ?case
    using x r ok length_all_rows [OF ok(1) y] by (simp add: merge_scan_row clean_update)
qed auto

lemma remaining_subset:
  "plan_ok n e \<Longrightarrow> plan_inv n \<sigma> e \<Longrightarrow> set (remaining n \<sigma> e) \<subseteq> set (all_rows n \<sigma> e)"
proof (induction e)
  case (SeqScan r i c)
  show ?case
    by (auto simp: iter_rest_def iter_all_def dest!: in_set_dropD)
next
  case (NestedLoopJoin l r p row ls rs)
  then obtain rr j c where r: "r = SeqScan rr j c" by (auto split: exec.splits)
  with NestedLoopJoin.prems have ok: "plan_ok n l" "j < n" "plan_inv n \<sigma> l" "length row = n" by auto
  have rest: "set (iter_rest (\<sigma> rr)) \<subseteq> set (iter_all (\<sigma> rr))"
    by (auto simp: iter_rest_def iter_all_def dest!: in_set_dropD)
  show ?case
  proof (cases "ls = kStateOK")
    case True
    with NestedLoopJoin.prems r obtain x where x: "x \<in> set (all_rows n \<sigma> l)" "agree_off {j} row x"
      by auto
    have "merge_rows row (scan_row n j t) = merge_rows x (scan_row n j t)" for t
      by (rule merge_scan_row_cong) (use x ok in auto)
    with x(1) NestedLoopJoin.IH(1) [OF ok(1,3)] rest show ?thesis by (auto simp: r)
  next
    case False
    with NestedLoopJoin.IH(1) [OF ok(1,3)] show ?thesis by auto
  qed
qed auto

subsection \<open>One call of GetNext\<close>

definition step_ok ::
  "nat \<Rightarrow> nat set \<Rightarrow> iters \<Rightarrow> exec \<Rightarrow> State \<times> iters \<times> exec \<times> TupleRow \<Rightarrow> bool" where
  "step_ok n D \<sigma> e r = (case r of (st, \<sigma>', e', row') \<Rightarrow>
     strip e' = strip e \<and> same_data \<sigma> \<sigma>' \<and> same_off (relids e) \<sigma> \<sigma>' \<and> plan_inv n \<sigma>' e' \<and>
     length row' = n \<and> clean (positions e \<union> D) row' \<and>
     (case remaining n \<sigma> e of
        [] \<Rightarrow> st = kStateEOF \<and> remaining n \<sigma>' e' = []
      | x # xs \<Rightarrow> st = kStateOK \<and> agree_off D row' x \<and> remaining n \<sigma>' e' = xs))"

definition delivers :: "nat \<Rightarrow> nat set \<Rightarrow> iters \<Rightarrow> exec \<Rightarrow> TupleRow \<Rightarrow> bool" where
  "delivers n D \<sigma> e row \<longleftrightarrow> (\<exists>r. nexts \<sigma> e row r \<and> step_ok n D \<sigma> e r)"

definition ready :: "nat \<Rightarrow> nat set \<Rightarrow> iters \<Rightarrow> exec \<Rightarrow> TupleRow \<Rightarrow> bool" where
  "ready n D \<sigma> e row \<longleftrightarrow>
     plan_inv n \<sigma> e \<and> plan_safe n \<sigma> e \<and> length row = n \<and> clean (positions e \<union> D) row"

text \<open>Every state of a plan with the skeleton of \<open>s\<close> delivers its next row.\<close>

definition good :: "nat \<Rightarrow> nat set \<Rightarrow> exec \<Rightarrow> bool" where
  "good n D s \<longleftrightarrow> (\<forall>\<sigma> e row. strip e = strip s \<longrightarrow> ready n D \<sigma> e row \<longrightarrow> delivers n D \<sigma> e row)"

lemma step_ok_ready:
  assumes "step_ok n D \<sigma> e (st, \<sigma>', e', row')" and "ready n D \<sigma> e row"
  shows "ready n D \<sigma>' e' row'"
  using assms strip_eqD(1) [of e' e] strip_eqD2(2) [of e' e n \<sigma>'] plan_safe_same_data [of \<sigma> \<sigma>' n e]
  by (auto simp: step_ok_def ready_def)

lemma delivers_after:
  assumes d: "delivers n D \<sigma>1 e1 row1"
    and pre: "\<And>r. nexts \<sigma>1 e1 row1 r \<Longrightarrow> nexts \<sigma> e row r"
    and e1: "strip e1 = strip e" "same_data \<sigma> \<sigma>1" "same_off (relids e) \<sigma> \<sigma>1"
    and rem: "remaining n \<sigma>1 e1 = remaining n \<sigma> e"
  shows "delivers n D \<sigma> e row"
proof -
  from d obtain r where r: "nexts \<sigma>1 e1 row1 r" "step_ok n D \<sigma>1 e1 r"
    by (auto simp: delivers_def)
  from r(2) e1 rem strip_eqD(1,2) [OF e1(1)] have "step_ok n D \<sigma> e r"
    using same_off_trans [of "relids e" \<sigma> \<sigma>1 "relids e"]
    by (auto simp: step_ok_def intro: same_data_trans)
  with pre [OF r(1)] show ?thesis unfolding delivers_def by blast
qed

lemma good_SeqScan:
  assumes "i < n" and "i \<notin> D"
  shows "good n D (SeqScan r i c)"
  unfolding good_def
proof (intro allI impI)
  fix \<sigma> e row assume e: "strip e = strip (SeqScan r i c)" and rdy: "ready n D \<sigma> e row"
  from e obtain c' where e: "e = SeqScan r i c'" using strip_eq_cases(1) [of e r i] by auto
  from rdy have row: "length row = n" "clean (insert i D) row" by (auto simp: ready_def e)
  show "delivers n D \<sigma> e row"
  proof (cases "iter_rest (\<sigma> r)")
    case Nil
    then have "SeqScan_GetNext \<sigma> r i c' row = Inr (kStateEOF, \<sigma>, e, row)"
      by (simp add: SeqScan_GetNext_def iter_rest_Nil_Valid e)
    then have "nexts \<sigma> e row (kStateEOF, \<sigma>, e, row)" unfolding e by (rule nexts_SeqScan)
    moreover have "step_ok n D \<sigma> e (kStateEOF, \<sigma>, e, row)"
      using Nil row by (simp add: step_ok_def e)
    ultimately show ?thesis unfolding delivers_def by blast
  next
    case (Cons t ts)
    then obtain it where it: "IteratorHandler_Valid (\<sigma> r)" "IteratorHandler_GetTuple (\<sigma> r) = Inr t"
      "IteratorHandler_Next (\<sigma> r) = Inr it" "iter_rest it = ts" "iter_all it = iter_all (\<sigma> r)"
      by (rule iter_rest_Cons)
    let ?row = "row[i := Some (map Some t)]" and ?\<sigma> = "\<sigma>(r := it)"
    have "SeqScan_GetNext \<sigma> r i c' row = Inr (kStateOK, ?\<sigma>, SeqScan r i (Suc c'), ?row)"
      using it assms row by (simp add: SeqScan_GetNext_def TupleRow_SetTuple_def)
    then have nx: "nexts \<sigma> e row (kStateOK, ?\<sigma>, SeqScan r i (Suc c'), ?row)"
      unfolding e by (rule nexts_SeqScan)
    have "agree_off D ?row (scan_row n i t)"
      using row assms
      by (auto simp: agree_off_def scan_row_def TupleRow_new_def clean_def nth_list_update)
    then have "step_ok n D \<sigma> e (kStateOK, ?\<sigma>, SeqScan r i (Suc c'), ?row)"
      using Cons it row by (auto simp: step_ok_def e same_data_def same_off_def intro: clean_update)
    with nx show ?thesis unfolding delivers_def by blast
  qed
qed

lemma goodD: "good n D s \<Longrightarrow> strip e = strip s \<Longrightarrow> ready n D \<sigma> e row \<Longrightarrow> delivers n D \<sigma> e row"
  by (simp add: good_def)

lemma deliversE:
  assumes "delivers n D \<sigma> e row"
  obtains (EOF) \<sigma>' e' row' where "nexts \<sigma> e row (kStateEOF, \<sigma>', e', row')"
      "step_ok n D \<sigma> e (kStateEOF, \<sigma>', e', row')" "remaining n \<sigma> e = []" "remaining n \<sigma>' e' = []"
  | (row) \<sigma>' e' row' x xs where "nexts \<sigma> e row (kStateOK, \<sigma>', e', row')"
      "step_ok n D \<sigma> e (kStateOK, \<sigma>', e', row')" "remaining n \<sigma> e = x # xs"
      "agree_off D row' x" "remaining n \<sigma>' e' = xs"
proof -
  from assms obtain st \<sigma>' e' row' where r: "nexts \<sigma> e row (st, \<sigma>', e', row')"
    "step_ok n D \<sigma> e (st, \<sigma>', e', row')" by (auto simp: delivers_def)
  show ?thesis
  proof (cases "remaining n \<sigma> e")
    case Nil
    with r that(1) [of \<sigma>' e' row'] show ?thesis by (auto simp: step_ok_def)
  next
    case (Cons x xs)
    with r that(2) [of \<sigma>' e' row' x xs] show ?thesis by (auto simp: step_ok_def)
  qed
qed

lemma deliver_Select:
  assumes gl: "good n D s" and ok: "plan_ok n s" "bool_slots p \<subseteq> positions s" "D \<inter> positions s = {}"
  shows "strip l = strip s \<Longrightarrow> ready n D \<sigma> (Select l p) row \<Longrightarrow> delivers n D \<sigma> (Select l p) row"
proof (induction "length (remaining n \<sigma> l)" arbitrary: \<sigma> l row rule: less_induct)
  case less
  have l: "plan_ok n l" "positions l = positions s"
    using strip_eqD(1) [OF less.prems(1)] strip_eqD2(1) [OF less.prems(1), of n] ok by auto
  from less.prems(2) have rdy: "ready n D \<sigma> l row" by (auto simp: ready_def)
  from goodD [OF gl less.prems(1) rdy] show ?case
  proof (cases rule: deliversE)
    case (EOF \<sigma>' l' row')
    have "step_ok n D \<sigma> (Select l p) (kStateEOF, \<sigma>', Select l' p, row')"
      using EOF by (simp add: step_ok_def)
    with nexts_Select_EOF [OF EOF(1), of p] show ?thesis unfolding delivers_def by blast
  next
    case (row \<sigma>' l' row' x xs)
    have "plan_inv n \<sigma> l" using rdy by (simp add: ready_def)
    with remaining_subset [OF l(1), of \<sigma>] row have "x \<in> set (all_rows n \<sigma> l)" by auto
    then obtain b where "BooleanExpr_GetValue p x = Inr b"
      using less.prems(2) by (auto simp: ready_def)
    moreover have "BooleanExpr_GetValue p row' = BooleanExpr_GetValue p x"
      by (rule BooleanExpr_GetValue_cong [OF row(4)]) (use ok in auto)
    ultimately have b: "BooleanExpr_GetValue p row' = Inr b" "holds p x = b"
      by (simp_all add: holds_def)
    show ?thesis
    proof (cases b)
      case True
      then have "step_ok n D \<sigma> (Select l p) (kStateOK, \<sigma>', Select l' p, row')"
        using row b by (simp add: step_ok_def)
      moreover have "nexts \<sigma> (Select l p) row (kStateOK, \<sigma>', Select l' p, row')"
        using nexts_Select_take [OF row(1), of p] b True by simp
      ultimately show ?thesis unfolding delivers_def by blast
    next
      case False
      have "ready n D \<sigma>' (Select l' p) row'"
        using step_ok_ready [of n D \<sigma> "Select l p" kStateOK \<sigma>' "Select l' p" row']
          step_ok_ready [OF row(2) rdy] less.prems(2) row(2)
        by (auto simp: ready_def step_ok_def all_rows_same_data strip_eqD(3) [of l' l])
      moreover have sl: "strip l' = strip s" using row(2) less.prems(1) by (simp add: step_ok_def)
      ultimately have d: "delivers n D \<sigma>' (Select l' p) row'"
        using less.hyps [of \<sigma>' l' row'] row(3,5) by simp
      show ?thesis
      proof (rule delivers_after [OF d])
        show "nexts \<sigma> (Select l p) row r" if "nexts \<sigma>' (Select l' p) row' r" for r
          using nexts_Select_skip [OF row(1) _ that] b False by simp
      qed (use row b False in \<open>auto simp: step_ok_def\<close>)
    qed
  qed
qed

lemma good_Select:
  assumes "good n D s" and "plan_ok n s" "bool_slots p \<subseteq> positions s" "D \<inter> positions s = {}"
  shows "good n D (Select s p)"
  unfolding good_def
proof (intro allI impI)
  fix \<sigma> e row assume "strip e = strip (Select s p)" and rdy: "ready n D \<sigma> e row"
  then obtain l where "e = Select l p" "strip l = strip s" using strip_eq_cases(2) by force
  with deliver_Select [OF assms, of l \<sigma> row] rdy show "delivers n D \<sigma> e row" by simp
qed

text \<open>The join: its right child is the scan of \<open>rr\<close> at position \<open>j\<close>.\<close>

lemma deliver_Join_row:
  assumes rdy: "ready n D \<sigma> (NestedLoopJoin l (SeqScan rr j c) p jrow ls rs) row"
    and ok: "j < n" "rr \<notin> relids l" and t: "iter_rest (\<sigma> rr) = t # ts"
    and nend: "\<not> (ls = kStateEOF \<and> rs = kStateEOF)"
    and d: "\<And>\<sigma>' c' jrow'. iter_rest (\<sigma>' rr) = ts \<Longrightarrow> same_off {rr} \<sigma> \<sigma>' \<Longrightarrow> same_data \<sigma> \<sigma>' \<Longrightarrow>
      ready n D \<sigma>' (NestedLoopJoin l (SeqScan rr j c') p jrow' ls kStateOK) row \<Longrightarrow>
      delivers n D \<sigma>' (NestedLoopJoin l (SeqScan rr j c') p jrow' ls kStateOK) row"
    and len: "\<And>x. x \<in> set (all_rows n \<sigma> l) \<Longrightarrow> length x = n"
  shows "delivers n D \<sigma> (NestedLoopJoin l (SeqScan rr j c) p jrow ls rs) row"
    (is "delivers n D \<sigma> ?e row")
proof -
  from t obtain it where it: "IteratorHandler_Valid (\<sigma> rr)" "IteratorHandler_GetTuple (\<sigma> rr) = Inr t"
    "IteratorHandler_Next (\<sigma> rr) = Inr it" "iter_rest it = ts" "iter_all it = iter_all (\<sigma> rr)"
    by (rule iter_rest_Cons)
  from rdy t nend obtain x where ls: "ls = kStateOK" "rs = kStateOK"
    and x: "x \<in> set (all_rows n \<sigma> l)" "agree_off {j} jrow x" by (auto simp: ready_def)
  from rdy have j: "length jrow = n" "length row = n" "clean (insert j (positions l)) jrow"
    "plan_inv n \<sigma> l" by (auto simp: ready_def)
  let ?jrow = "jrow[j := Some (map Some t)]" and ?\<sigma> = "\<sigma>(rr := it)"
  let ?e' = "NestedLoopJoin l (SeqScan rr j (Suc c)) p ?jrow ls kStateOK"
  have nx: "nexts \<sigma> (SeqScan rr j c) jrow (kStateOK, ?\<sigma>, SeqScan rr j (Suc c), ?jrow)"
    by (rule nexts_SeqScan) (use it ok j in \<open>simp add: SeqScan_GetNext_def TupleRow_SetTuple_def\<close>)
  have off: "same_off {rr} \<sigma> ?\<sigma>" "same_data \<sigma> ?\<sigma>"
    using it by (auto simp: same_off_def same_data_def)
  have jx: "?jrow = merge_rows x (scan_row n j t)" "?jrow = merge_rows jrow (scan_row n j t)"
    using merge_scan_row [of jrow n j t] merge_scan_row_cong [OF x(2) j(1) ok(1), of t] ok j by simp_all
  have l: "remaining n ?\<sigma> l = remaining n \<sigma> l" "plan_inv n ?\<sigma> l" "all_rows n ?\<sigma> l = all_rows n \<sigma> l"
    using remaining_same_off [OF off(1), of l n] plan_inv_same_off [OF off(1), of l n] ok(2) j(4) by auto
  have "t \<in> set (iter_all (\<sigma> rr))"
    using t by (metis in_set_dropD iter_all_def iter_rest_def list.set_intros(1) drop_map)
  with rdy x(1) obtain b where b: "BooleanExpr_GetValue p ?jrow = Inr b"
    unfolding jx(1) by (auto simp: ready_def)
  have agree: "agree_off {j} ?jrow x" using x(2) by (auto simp: agree_off_def)
  have inv: "plan_inv n ?\<sigma> ?e'"
    using l j agree x(1) ls clean_update [OF j(3), of j] by auto
  have mj: "merge_rows ?jrow \<circ> scan_row n j = merge_rows jrow \<circ> scan_row n j"
    using merge_scan_row_cong [OF agree, of n] merge_scan_row_cong [OF x(2), of n] j ok
    by (simp add: fun_eq_iff)
  have rem: "remaining n \<sigma> ?e = (if b then ?jrow # remaining n ?\<sigma> ?e' else remaining n ?\<sigma> ?e')"
    using t it l b by (simp add: ls mj holds_def jx(2) [symmetric])
  show ?thesis
  proof (cases b)
    case True
    have "step_ok n D \<sigma> ?e (kStateOK, ?\<sigma>, ?e', TupleRow_CopyTo ?jrow row)"
      unfolding step_ok_def prod.case rem
      using True inv off j clean_update [OF j(3), of j]
      by (auto simp: TupleRow_CopyTo_same same_off_def intro: clean_mono)
    with nexts_Join_take [OF _ nx, of ls rs p l row] b True ls show ?thesis
      unfolding delivers_def by auto
  next
    case False
    have "ready n D ?\<sigma> ?e' row"
      using inv rdy plan_safe_same_data [OF off(2), of n ?e] strip_eqD2(2) [of ?e' ?e n ?\<sigma>]
      by (simp add: ready_def del: plan_safe.simps plan_inv.simps)
    with d [of ?\<sigma>] it off have d': "delivers n D ?\<sigma> ?e' row" by simp
    show ?thesis
    proof (rule delivers_after [OF d'])
      show "nexts \<sigma> ?e row r" if "nexts ?\<sigma> ?e' row r" for r
        using nexts_Join_skip [OF _ nx _ that] b False ls by simp
    qed (use off rem False in \<open>auto simp: same_off_def\<close>)
  qed
qed

lemma deliver_Join_next_left:
  assumes rdy: "ready n D \<sigma> (NestedLoopJoin l (SeqScan rr j c) p jrow ls rs) row"
    and ok: "j < n" "rr \<notin> relids l" "j \<notin> positions l" "plan_ok n l"
    and t: "iter_rest (\<sigma> rr) = []"
    and nend: "\<not> (ls = kStateEOF \<and> rs = kStateEOF)"
    and left: "delivers n {j} \<sigma> l jrow"
    and d: "\<And>\<sigma>' l' jrow'. strip l' = strip l \<Longrightarrow> same_data \<sigma> \<sigma>' \<Longrightarrow>
      Suc (length (remaining n \<sigma>' l')) = length (remaining n \<sigma> l) \<Longrightarrow>
      ready n D \<sigma>' (NestedLoopJoin l' (SeqScan rr j c) p jrow' kStateOK kStateOK) row \<Longrightarrow>
      delivers n D \<sigma>' (NestedLoopJoin l' (SeqScan rr j c) p jrow' kStateOK kStateOK) row"
  shows "delivers n D \<sigma> (NestedLoopJoin l (SeqScan rr j c) p jrow ls rs) row"
    (is "delivers n D \<sigma> ?e row")
proof -
  have nx: "nexts \<sigma> (SeqScan rr j c) jrow (kStateEOF, \<sigma>, SeqScan rr j c, jrow)"
    by (rule nexts_SeqScan) (simp add: SeqScan_GetNext_def iter_rest_Nil_Valid t)
  from rdy have r: "length row = n" "clean (insert j (positions l) \<union> D) row" by (auto simp: ready_def)
  from left show ?thesis
  proof (cases rule: deliversE)
    case (EOF \<sigma>' l' jrow')
    let ?e' = "NestedLoopJoin l' (SeqScan rr j c) p jrow' kStateEOF kStateEOF"
    have "step_ok n D \<sigma> ?e (kStateEOF, \<sigma>', ?e', row)"
      using EOF t r strip_eqD(1) [of l' l]
      by (auto simp: step_ok_def same_off_def)
    with nexts_Join_left_end [OF nend nx EOF(1), of p row] show ?thesis
      unfolding delivers_def by auto
  next
    case (row \<sigma>' l' jrow' x xs)
    let ?\<sigma> = "\<sigma>'(rr := IteratorHandler_SeekToFirst (\<sigma>' rr))"
    let ?e' = "NestedLoopJoin l' (SeqScan rr j c) p jrow' kStateOK kStateOK"
    have l': "strip l' = strip l" "positions l' = positions l" "relids l' = relids l" "plan_inv n \<sigma>' l'"
      "all_rows n ?\<sigma> l' = all_rows n ?\<sigma> l" "plan_safe n ?\<sigma> l' = plan_safe n ?\<sigma> l"
      "length jrow' = n" "clean (positions l \<union> {j}) jrow'"
      using row(2) strip_eqD [of l' l] strip_eqD2 [of l' l] by (auto simp: step_ok_def)
    have off: "same_off {rr} \<sigma>' ?\<sigma>" "same_data \<sigma>' ?\<sigma>" by (auto simp: same_off_def same_data_def)
    from row(2) off(2) have sd: "same_data \<sigma> ?\<sigma>" by (auto simp: step_ok_def intro: same_data_trans)
    have rl: "remaining n ?\<sigma> l' = xs" "plan_inv n ?\<sigma> l'"
      using remaining_same_off [OF off(1), of l' n] plan_inv_same_off [OF off(1), of l' n] ok l' row(5) by auto
    have x: "x \<in> set (all_rows n ?\<sigma> l)"
      using remaining_subset [OF ok(4), of \<sigma>] row(3) rdy all_rows_same_data [OF sd, of n l]
      by (auto simp: ready_def)
    have rdy': "ready n D ?\<sigma> ?e' row"
      using rdy rl l' x row(4) plan_safe_same_data [OF sd, of n l] all_rows_same_data [OF sd, of n l]
        all_rows_same_data [OF sd, of n "SeqScan rr j c"]
      by (auto simp: ready_def simp del: fun_upd_apply)
    have d': "delivers n D ?\<sigma> ?e' row"
      by (rule d [OF l'(1) sd _ rdy']) (use rl row(3) in simp)
    show ?thesis
    proof (rule delivers_after [OF d'])
      show "nexts \<sigma> ?e row r" if "nexts ?\<sigma> ?e' row r" for r
        using nexts_Join_advance [OF nend nx row(1) opens_SeqScan that] .
      have "merge_rows jrow' \<circ> scan_row n j = merge_rows x \<circ> scan_row n j"
        using merge_scan_row_cong [OF row(4) l'(7) ok(1)] by (simp add: fun_eq_iff)
      moreover have "iter_all (\<sigma>' rr) = iter_all (\<sigma> rr)"
        using row(2) by (simp add: step_ok_def same_data_def)
      ultimately show "remaining n ?\<sigma> ?e' = remaining n \<sigma> ?e" using rl(1) row(3) t by simp
    qed (use l' sd row(2) in \<open>auto simp: step_ok_def same_off_def\<close>)
  qed
qed

lemma deliver_Join:
  assumes gl: "good n {j} s"
    and ok: "plan_ok n s" "j < n" "j \<notin> positions s" "rr \<notin> relids s"
  shows "strip l = strip s \<Longrightarrow> ready n D \<sigma> (NestedLoopJoin l (SeqScan rr j c) p jrow ls rs) row \<Longrightarrow>
    delivers n D \<sigma> (NestedLoopJoin l (SeqScan rr j c) p jrow ls rs) row"
proof (induction "length (remaining n \<sigma> l) * Suc (length (iter_all (\<sigma> rr))) + length (iter_rest (\<sigma> rr))"
    arbitrary: \<sigma> l c jrow ls rs rule: less_induct)
  case less
  have l: "plan_ok n l" "j \<notin> positions l" "rr \<notin> relids l"
    using strip_eqD [OF less.prems(1)] strip_eqD2 [OF less.prems(1)] ok by auto
  show ?case
  proof (cases "ls = kStateEOF \<and> rs = kStateEOF")
    case True
    with less.prems(2) have "step_ok n D \<sigma> (NestedLoopJoin l (SeqScan rr j c) p jrow ls rs)
      (kStateEOF, \<sigma>, NestedLoopJoin l (SeqScan rr j c) p jrow ls rs, row)"
      by (auto simp: step_ok_def ready_def)
    with nexts_Join_end True show ?thesis unfolding delivers_def by blast
  next
    case nend: False
    show ?thesis
    proof (cases "iter_rest (\<sigma> rr)")
      case (Cons t ts)
      show ?thesis
      proof (rule deliver_Join_row [OF less.prems(2) ok(2) l(3) Cons nend])
        fix \<sigma>' c' jrow'
        assume a: "iter_rest (\<sigma>' rr) = ts" "same_off {rr} \<sigma> \<sigma>'" "same_data \<sigma> \<sigma>'"
          "ready n D \<sigma>' (NestedLoopJoin l (SeqScan rr j c') p jrow' ls kStateOK) row"
        have "remaining n \<sigma>' l = remaining n \<sigma> l" "iter_all (\<sigma>' rr) = iter_all (\<sigma> rr)"
          using remaining_same_off [OF a(2), of l n] l(3) a(3) by (auto simp: same_data_def)
        with less.hyps [OF _ less.prems(1) a(4)] a(1) Cons
        show "delivers n D \<sigma>' (NestedLoopJoin l (SeqScan rr j c') p jrow' ls kStateOK) row" by simp
      qed (use length_all_rows [OF l(1)] in blast)
    next
      case Nil
      from less.prems(2) have "ready n {j} \<sigma> l jrow"
        by (auto simp: ready_def)
      then have left: "delivers n {j} \<sigma> l jrow" by (rule goodD [OF gl less.prems(1)])
      show ?thesis
      proof (rule deliver_Join_next_left [OF less.prems(2) ok(2) l(3) l(2) l(1) Nil nend left])
        fix \<sigma>' l' jrow'
        assume a: "strip l' = strip l" "same_data \<sigma> \<sigma>'"
          "Suc (length (remaining n \<sigma>' l')) = length (remaining n \<sigma> l)"
          "ready n D \<sigma>' (NestedLoopJoin l' (SeqScan rr j c) p jrow' kStateOK kStateOK) row"
        have "iter_all (\<sigma>' rr) = iter_all (\<sigma> rr)" using a(2) by (simp add: same_data_def)
        moreover have "length (iter_rest (\<sigma>' rr)) \<le> length (iter_all (\<sigma>' rr))"
          by (simp add: iter_rest_def iter_all_def)
        ultimately show "delivers n D \<sigma>' (NestedLoopJoin l' (SeqScan rr j c) p jrow' kStateOK kStateOK) row"
          using less.hyps [OF _ _ a(4)] a(1) less.prems(1) Nil a(3) [symmetric] by simp
      qed
    qed
  qed
qed

lemma good_NestedLoopJoin:
  assumes "good n {j} s" and "plan_ok n s" "j < n" "j \<notin> positions s" "rr \<notin> relids s"
  shows "good n D (NestedLoopJoin s (SeqScan rr j c) p row ls rs)"
  unfolding good_def
proof (intro allI impI)
  fix \<sigma> e row' assume "strip e = strip (NestedLoopJoin s (SeqScan rr j c) p row ls rs)"
    and rdy: "ready n D \<sigma> e row'"
  then obtain l r jrow ls' rs' where e: "e = NestedLoopJoin l r p jrow ls' rs'" "strip l = strip s"
    "strip r = SeqScan rr j 0"
    using strip_eq_cases(3) [of e "strip s" "SeqScan rr j 0" p] by auto
  from strip_eq_cases(1) [OF e(3)] obtain c' where "r = SeqScan rr j c'" by blast
  with deliver_Join [OF assms e(2)] rdy e(1) show "delivers n D \<sigma> e row'" by simp
qed

text \<open>Every well-formed plan delivers its rows.\<close>

lemma plan_good: "plan_ok n e \<Longrightarrow> D \<inter> positions e = {} \<Longrightarrow> good n D e"
proof (induction e arbitrary: D)
  case (SeqScan r i c)
  then show ?case by (auto intro: good_SeqScan)
next
  case (Select l p)
  then show ?case by (auto intro: good_Select)
next
  case (NestedLoopJoin l r p row ls rs)
  then obtain rr j c where "r = SeqScan rr j c" by (auto split: exec.splits)
  with NestedLoopJoin show ?case by (auto intro!: good_NestedLoopJoin)
qed auto

subsection \<open>Open\<close>

text \<open>The row of a join has a place for every table, and no tuple of a table of another plan.\<close>

fun plan_rows :: "nat \<Rightarrow> exec \<Rightarrow> bool" where
  "plan_rows n (SeqScan r i c) = True"
| "plan_rows n (Select l p) = plan_rows n l"
| "plan_rows n (Project l as row) = plan_rows n l"
| "plan_rows n (NestedLoopJoin l r p row ls rs) =
     (plan_rows n l \<and> length row = n \<and> clean (positions l \<union> positions r) row)"

definition reopens :: "nat \<Rightarrow> iters \<Rightarrow> exec \<Rightarrow> bool" where
  "reopens n \<sigma> e \<longleftrightarrow> (\<exists>\<sigma>' e'. opens \<sigma> e (kStateOK, \<sigma>', e') \<and> strip e' = strip e \<and>
     same_data \<sigma> \<sigma>' \<and> same_off (relids e) \<sigma> \<sigma>' \<and> plan_inv n \<sigma>' e' \<and>
     remaining n \<sigma>' e' = all_rows n \<sigma> e)"

lemma reopensI:
  "opens \<sigma> e (kStateOK, \<sigma>', e') \<Longrightarrow> strip e' = strip e \<Longrightarrow> same_data \<sigma> \<sigma>' \<Longrightarrow>
   same_off (relids e) \<sigma> \<sigma>' \<Longrightarrow> plan_inv n \<sigma>' e' \<Longrightarrow> remaining n \<sigma>' e' = all_rows n \<sigma> e \<Longrightarrow>
   reopens n \<sigma> e"
  unfolding reopens_def by blast

lemma plan_inv_rows: "plan_inv n \<sigma> e \<Longrightarrow> plan_rows n e"
  by (induction e) auto

lemma plan_safe_reopen:
  "plan_safe n \<sigma> e \<Longrightarrow> strip e' = strip e \<Longrightarrow> same_data \<sigma> \<sigma>' \<Longrightarrow> plan_safe n \<sigma>' e'"
  using strip_eqD2(2) [of e' e n \<sigma>'] plan_safe_same_data [of \<sigma> \<sigma>' n e] by simp

lemma reopens_Join:
  assumes l: "reopens n \<sigma> l" and ok: "plan_ok n (NestedLoopJoin l (SeqScan rr j c) p row ls rs)"
    and sf: "plan_safe n \<sigma> (NestedLoopJoin l (SeqScan rr j c) p row ls rs)"
    and rw: "plan_rows n (NestedLoopJoin l (SeqScan rr j c) p row ls rs)"
  shows "reopens n \<sigma> (NestedLoopJoin l (SeqScan rr j c) p row ls rs)" (is "reopens n \<sigma> ?e")
proof -
  from l obtain \<sigma>1 l1 where l1: "opens \<sigma> l (kStateOK, \<sigma>1, l1)" "strip l1 = strip l"
    "same_data \<sigma> \<sigma>1" "same_off (relids l) \<sigma> \<sigma>1" "plan_inv n \<sigma>1 l1" "remaining n \<sigma>1 l1 = all_rows n \<sigma> l"
    by (auto simp: reopens_def)
  let ?\<sigma> = "\<sigma>1(rr := IteratorHandler_SeekToFirst (\<sigma>1 rr))"
  have off: "same_off {rr} \<sigma>1 ?\<sigma>" "same_data \<sigma>1 ?\<sigma>" by (auto simp: same_off_def same_data_def)
  have sd: "same_data \<sigma> ?\<sigma>" using l1(3) off(2) by (rule same_data_trans)
  have k: "positions l1 = positions l" "relids l1 = relids l" "plan_ok n l1"
    using strip_eqD [OF l1(2)] strip_eqD2 [OF l1(2)] ok by auto
  have r1: "remaining n ?\<sigma> l1 = all_rows n \<sigma> l" "plan_inv n ?\<sigma> l1"
    using remaining_same_off [OF off(1), of l1 n] plan_inv_same_off [OF off(1), of l1 n] ok k l1 by auto
  have "ready n {j} ?\<sigma> l1 row"
    using r1 rw k sf plan_safe_reopen [OF _ l1(2) sd] by (auto simp: ready_def)
  moreover have "good n {j} l1" by (rule plan_good) (use ok k in auto)
  ultimately have "delivers n {j} ?\<sigma> l1 row" using goodD by blast
  then show ?thesis
  proof (cases rule: deliversE)
    case (EOF \<sigma>' l' row')
    from EOF(2) l1(2) k have f: "strip l' = strip l" "same_data ?\<sigma> \<sigma>'" "same_off (relids l) ?\<sigma> \<sigma>'"
      "plan_inv n \<sigma>' l'" "length row' = n" "clean (insert j (positions l)) row'"
      by (auto simp: step_ok_def)
    have empty: "all_rows n \<sigma> l = []" "iter_all (\<sigma> rr) = []" using EOF(3) r1 sf by auto
    have "\<sigma>' rr = ?\<sigma> rr" using f(3) ok by (auto simp: same_off_def)
    then have rest: "iter_rest (\<sigma>' rr) = []" using empty(2) l1(3) by (simp add: same_data_def)
    have o: "opens \<sigma> ?e (kStateOK, \<sigma>', NestedLoopJoin l' (SeqScan rr j c) p row' kStateEOF kStateOK)"
      by (rule opens_NestedLoopJoin [OF l1(1) opens_SeqScan EOF(1)]) simp
    show ?thesis
      by (rule reopensI [OF o])
        (use f EOF(4) empty sd l1(4) rest strip_eqD(1) [OF f(1)] in
          \<open>auto simp: same_off_def intro: same_data_trans\<close>)
  next
    case (row \<sigma>' l' row' x xs)
    from row(2) l1(2) k have f: "strip l' = strip l" "same_data ?\<sigma> \<sigma>'" "same_off (relids l) ?\<sigma> \<sigma>'"
      "plan_inv n \<sigma>' l'" "length row' = n" "clean (insert j (positions l)) row'"
      by (auto simp: step_ok_def)
    have sd': "same_data \<sigma> \<sigma>'" using sd f(2) by (rule same_data_trans)
    have x: "all_rows n \<sigma> l = x # xs" using row(3) r1 by simp
    have "\<sigma>' rr = ?\<sigma> rr" using f(3) ok by (auto simp: same_off_def)
    then have rest: "iter_rest (\<sigma>' rr) = iter_all (\<sigma> rr)" "iter_all (\<sigma>' rr) = iter_all (\<sigma> rr)"
      using l1(3) by (simp_all add: same_data_def)
    have m: "merge_rows row' \<circ> scan_row n j = merge_rows x \<circ> scan_row n j"
      using merge_scan_row_cong [OF row(4) f(5)] ok by (auto simp: fun_eq_iff)
    have ar: "all_rows n \<sigma>' l' = x # xs"
      using all_rows_same_data [OF sd', of n l] strip_eqD(3) [OF f(1), of n \<sigma>'] x by simp
    have o: "opens \<sigma> ?e (kStateOK, \<sigma>', NestedLoopJoin l' (SeqScan rr j c) p row' kStateOK kStateOK)"
      by (rule opens_NestedLoopJoin [OF l1(1) opens_SeqScan row(1)]) simp
    show ?thesis
      by (rule reopensI [OF o])
        (use f row sd' l1(4) strip_eqD(1) [OF f(1)] in \<open>auto simp: same_off_def ar x rest m\<close>)
  qed
qed

lemma plan_reopens:
  "plan_ok n e \<Longrightarrow> plan_safe n \<sigma> e \<Longrightarrow> plan_rows n e \<Longrightarrow> reopens n \<sigma> e"
proof (induction e)
  case (SeqScan r i c)
  show ?case by (rule reopensI, rule opens_SeqScan) (auto simp: same_data_def same_off_def)
next
  case (Select l p)
  then obtain \<sigma>' l' where l: "opens \<sigma> l (kStateOK, \<sigma>', l')" "strip l' = strip l"
    "same_data \<sigma> \<sigma>'" "same_off (relids l) \<sigma> \<sigma>'" "plan_inv n \<sigma>' l'" "remaining n \<sigma>' l' = all_rows n \<sigma> l"
    by (auto simp: reopens_def)
  show ?case by (rule reopensI, rule opens_Select, rule l(1)) (use l in auto)
next
  case (NestedLoopJoin l r p row ls rs)
  then obtain rr j c where r: "r = SeqScan rr j c" by (auto split: exec.splits)
  with NestedLoopJoin show ?case by (auto intro!: reopens_Join)
qed auto

end
