(* ===== verification/Project_Encode.thy ===== *)
theory Project_Encode
  imports Executor
begin

section \<open>The tuple a projection builds\<close>

text \<open>
  \<open>Project::GetNext\<close> computes the size of the new tuple, allocates it and writes slots and values
  one after the other. The result is the image of the values: reading slot \<open>i\<close> of it leads to
  the bytes of the \<open>i\<close>-th projected expression.
\<close>

definition value_cells :: "TupleRow \<Rightarrow> value_expr \<Rightarrow> cell list \<Rightarrow> bool" where
  "value_cells row e v \<longleftrightarrow> (\<exists>p n. ValueExpr_GetValue e row = Inr (v @ p, n) \<and> unat n = length v)"

lemma ucast_u16_of_nat: "ucast (of_nat n :: u32) = (of_nat n :: u16)"
  by (simp add: word_unat_eq_iff unsigned_ucast_eq unat_of_nat take_bit_eq_mod mod_mod_cancel)

lemma u32_eq_of_nat: "unat (w :: u32) = n \<Longrightarrow> w = of_nat n"
  by auto

lemma Project_size_sum:
  "list_all2 (value_cells row) es vs \<Longrightarrow>
   Project_size es row s = Inr (s + of_nat (length (concat vs)))"
proof (induction es vs arbitrary: s rule: list_all2_induct)
  case (Cons e es v vs)
  then obtain p n where "ValueExpr_GetValue e row = Inr (v @ p, n)" "unat n = length v"
    by (auto simp: value_cells_def)
  moreover from this have "n = of_nat (length v)" by (metis u32_eq_of_nat)
  ultimately show ?case using Cons.IH by (simp add: add.assoc)
qed simp

lemma split_length: "length xs = a + b \<Longrightarrow> \<exists>us vs. xs = us @ vs \<and> length us = a \<and> length vs = b"
  by (rule exI [of _ "take a xs"], rule exI [of _ "drop a xs"]) simp

lemma Project_fill_filled:
  assumes "list_all2 (value_cells row) es vs"
    and "i = length ws" and "off = of_nat (4 * n + length (concat ws))"
    and "n = length ws + length es" and "length D = 4 * length es"
    and "length T = length (concat vs)"
    and "4 * n + length (concat ws) + length (concat vs) < 2 ^ 32"
  shows "Project_fill es i off row (filled n ws D T) = Inr (filled n (ws @ vs) [] [])"
  using assms
proof (induction es vs arbitrary: i off ws D T rule: list_all2_induct)
  case (Cons e es v vs)
  then obtain p m where v: "ValueExpr_GetValue e row = Inr (v @ p, m)" "unat m = length v"
    by (auto simp: value_cells_def)
  have "length D = 2 + (2 + 4 * length es)" using Cons.prems by simp
  then obtain d1 D' where D': "D = d1 @ D'" "length d1 = 2" "length D' = 2 + 4 * length es"
    using split_length by metis
  then obtain d2 D'' where D: "D = d1 @ d2 @ D''" "length d2 = 2" "length D'' = 4 * length es"
    using split_length by metis
  have "length T = length v + length (concat vs)" using Cons.prems by simp
  then obtain t T' where T: "T = t @ T'" "length t = length v" "length T' = length (concat vs)"
    using split_length by metis
  have m: "m = of_nat (length v)" using v(2) by (metis u32_eq_of_nat)
  have off: "unat off = 4 * n + length (concat ws)"
    using Cons.prems(2,6) by (simp add: unat_of_nat del: of_nat_add of_nat_mult)
  have "Project_fill (e # es) i off row (filled n ws D T) =
    Project_fill es (Suc i) (off + m) row (filled n (ws @ [v]) D'' T')"
    using Cons.prems v D D'(2) T off
    by (simp add: set_slot_filled SetValue_filled ucast_u16_of_nat m filled_snoc [symmetric]
        sizeof_Slot_def del: of_nat_add of_nat_mult)
  also have "\<dots> = Inr (filled n ((ws @ [v]) @ vs) [] [])"
    by (rule Cons.IH) (use Cons.prems D T m in auto)
  finally show ?case by simp
qed simp

lemma Project_tuple_image:
  assumes "list_all2 (value_cells row) es vs" and "image_size vs < 2 ^ 32"
  shows "Project_tuple es row = Inr (tuple_image vs)"
proof -
  have n: "length es = length vs" using assms(1) by (rule list_all2_lengthD)
  have u: "unat (of_nat (image_size vs) :: u32) = image_size vs"
    using assms(2) by (simp add: unat_of_nat)
  have "CreateTuple (image_size vs) =
      filled (length vs) [] (replicate (4 * length vs) None) (replicate (length (concat vs)) None)"
    by (simp add: CreateTuple_def filled_def image_size_def sizeof_Slot_def replicate_add)
  moreover have "Project_fill es 0 (of_nat (4 * length vs)) row
      (filled (length vs) [] (replicate (4 * length vs) None) (replicate (length (concat vs)) None)) =
      Inr (filled (length vs) ([] @ vs) [] [])"
    by (rule Project_fill_filled [OF assms(1)]) (use n assms(2) in \<open>auto simp: image_size_def sizeof_Slot_def\<close>)
  ultimately show ?thesis
    using Project_size_sum [OF assms(1), of "of_nat (4 * length vs)"] n u filled_complete [of vs "[]"]
    by (simp add: Project_tuple_def Let_def sizeof_Slot_def image_size_def)
qed

text \<open>Projection of encoded rows: the tuple is the encoding of the values of the expressions.\<close>

lemma Project_tuple_encoded:
  assumes "list_all2 (\<lambda>e v. eval_value e env = Some v) es vs" and "row_fits env"
    and "\<forall>e \<in> set es. value_expr_ok e" and "length (encode_tuple vs) < 2 ^ 32"
  shows "Project_tuple es (encode_row env) = Inr (encode_tuple vs)"
proof -
  have "list_all2 (value_cells (encode_row env)) es (map (\<lambda>v. map Some (encode_value v)) vs)"
    unfolding list_all2_conv_all_nth
  proof (intro conjI allI impI)
    show "length es = length (map (\<lambda>v. map Some (encode_value v)) vs)"
      using list_all2_lengthD [OF assms(1)] by simp
    fix i assume i: "i < length es"
    then have "eval_value (es ! i) env = Some (vs ! i)" "value_expr_ok (es ! i)" "i < length vs"
      using assms(1,3) by (auto simp: list_all2_conv_all_nth)
    moreover from this(1,2) obtain p n where "ValueExpr_GetValue (es ! i) (encode_row env) =
        Inr (map Some (encode_value (vs ! i)) @ p, n)" "unat n = length (encode_value (vs ! i))"
      using eval_value_GetValue [OF _ assms(2)] by blast
    ultimately show "value_cells (encode_row env) (es ! i)
        (map (\<lambda>v. map Some (encode_value v)) vs ! i)"
      by (auto simp: value_cells_def)
  qed
  from Project_tuple_image [OF this] assms(4) show ?thesis
    by (simp add: encode_tuple_def length_tuple_image)
qed

end
