(* ===== verification/Message_Buffer.thy ===== *)
theory Message_Buffer
  imports DB_Prelude
begin

section \<open>The message buffer of a connection\<close>

text \<open>
  Models \<^verbatim>\<open>include/common/message.h\<close>. A \<open>MessageBuffer\<close> owns a block allocated by \<open>malloc\<close>;
  \<open>buffer_length\<close> is what the class believes the size of the block to be, \<open>data_length\<close> the number of
  bytes in use. The lemmas give the content of the buffer after a sequence of appends that
  fit into the block, and show that \<open>Append\<close> never makes the block larger, so that a message
  longer than the block is written beyond its end.
\<close>

record MessageBuffer =
  mb_data :: "cell list"
  data_length :: nat
  buffer_length :: nat

definition MessageBuffer_new :: MessageBuffer where
  "MessageBuffer_new = \<lparr>mb_data = replicate 512 None, data_length = 0, buffer_length = 0\<rparr>"

text \<open>\<open>realloc\<close> keeps the common part; new bytes are uninitialised.\<close>

definition realloc :: "cell list \<Rightarrow> nat \<Rightarrow> cell list" where
  "realloc p n = take n p @ replicate (n - length p) None"

text \<open>The floating-point test \<open>size < buffer_length_ * 0.2\<close> is \<open>5 * size < buffer_length\<close> for sizes below \<open>2 ^ 52\<close>.\<close>

definition MessageBuffer_ReAlloc :: "MessageBuffer \<Rightarrow> nat \<Rightarrow> MessageBuffer" where
  "MessageBuffer_ReAlloc mb n =
     (if n > buffer_length mb \<or> 5 * n < buffer_length mb \<and> buffer_length mb > 512
      then mb\<lparr>buffer_length := n, mb_data := realloc (mb_data mb) n\<rparr>
      else mb)"

definition MessageBuffer_Append :: "MessageBuffer \<Rightarrow> byte list \<Rightarrow> MessageBuffer res" where
  "MessageBuffer_Append mb bs =
     (let mb1 =
        (if data_length mb + length bs > buffer_length mb
         then (let mb' = mb\<lparr>buffer_length := data_length mb + length bs\<rparr>;
                   mb' = mb'\<lparr>buffer_length := buffer_length mb' * 2\<rparr> in
               MessageBuffer_ReAlloc mb' (buffer_length mb'))
         else mb) in
      bind_res (store_bytes (mb_data mb1) (data_length mb1) bs) (\<lambda>d.
      Inr (mb1\<lparr>mb_data := d, data_length := data_length mb1 + length bs\<rparr>)))"

definition MessageBuffer_SetSize :: "MessageBuffer \<Rightarrow> nat \<Rightarrow> MessageBuffer" where
  "MessageBuffer_SetSize mb n = mb\<lparr>data_length := n\<rparr>"

definition MessageBuffer_GetSize :: "MessageBuffer \<Rightarrow> nat" where
  "MessageBuffer_GetSize mb = data_length mb"

definition MessageBuffer_Capacity :: "MessageBuffer \<Rightarrow> nat" where
  "MessageBuffer_Capacity mb = buffer_length mb"

text \<open>The bytes of the message, what \<open>Data()\<close> and \<open>GetSize()\<close> give to a reader.\<close>

definition MessageBuffer_bytes :: "MessageBuffer \<Rightarrow> byte list res" where
  "MessageBuffer_bytes mb = deref (data_length mb) (mb_data mb)"

subsection \<open>Append\<close>

lemma ReAlloc_same [simp]: "MessageBuffer_ReAlloc mb (buffer_length mb) = mb"
  by (simp add: MessageBuffer_ReAlloc_def)

text \<open>The block that \<open>Append\<close> writes to is the one it finds, whatever its size.\<close>

lemma Append_block:
  "MessageBuffer_Append mb bs =
   bind_res (store_bytes (mb_data mb) (data_length mb) bs) (\<lambda>d.
   Inr (mb\<lparr>buffer_length := (if data_length mb + length bs > buffer_length mb
              then (data_length mb + length bs) * 2 else buffer_length mb),
           mb_data := d, data_length := data_length mb + length bs\<rparr>))"
  by (auto simp: MessageBuffer_Append_def Let_def MessageBuffer_ReAlloc_def
      cong del: bind_res_weak_cong)

lemma Append_overflow:
  "MessageBuffer_Append mb bs = Inl Out_of_bounds \<longleftrightarrow> length (mb_data mb) < data_length mb + length bs"
  by (auto simp: Append_block store_bytes_def store_cells_def)

lemma Append_length:
  "MessageBuffer_Append mb bs = Inr mb' \<Longrightarrow> length (mb_data mb') = length (mb_data mb)"
  by (auto simp: Append_block dest!: store_bytes_length)

subsection \<open>A message under construction\<close>

text \<open>
  \<open>holding mb cs\<close>: the cells in use are \<open>cs\<close>. \<open>building mb t bs\<close>: they are the type byte \<open>t\<close>,
  room for the length word and the body \<open>bs\<close>.
\<close>

definition holding :: "MessageBuffer \<Rightarrow> cell list \<Rightarrow> bool" where
  "holding mb cs \<longleftrightarrow> (\<exists>rest. mb_data mb = cs @ rest) \<and> data_length mb = length cs"

definition building :: "MessageBuffer \<Rightarrow> byte \<Rightarrow> byte list \<Rightarrow> bool" where
  "building mb t bs \<longleftrightarrow> (\<exists>hole. length hole = 4 \<and> holding mb (Some t # hole @ map Some bs))"

lemma holding_Append:
  assumes "holding mb cs" and "length cs + length xs \<le> length (mb_data mb)"
  shows "\<exists>mb'. MessageBuffer_Append mb xs = Inr mb' \<and> holding mb' (cs @ map Some xs) \<and>
    length (mb_data mb') = length (mb_data mb)"
proof -
  from assms(1) obtain rest where d: "mb_data mb = cs @ rest" and n: "data_length mb = length cs"
    by (auto simp: holding_def)
  have len: "length xs \<le> length rest" using assms(2) d by simp
  then have "store_bytes (mb_data mb) (data_length mb) xs = Inr (cs @ map Some xs @ drop (length xs) rest)"
    using store_bytes_at [of "data_length mb" cs "take (length xs) rest" xs "drop (length xs) rest"] d n
    by simp
  with d n len show ?thesis by (auto simp: Append_block holding_def)
qed

text \<open>Appends one after the other, as the \<open>Send\<close> functions make them.\<close>

fun append_all :: "MessageBuffer \<Rightarrow> byte list list \<Rightarrow> MessageBuffer res" where
  "append_all mb [] = Inr mb"
| "append_all mb (xs # xss) = bind_res (MessageBuffer_Append mb xs) (\<lambda>mb. append_all mb xss)"

lemma append_all_append:
  "append_all mb (xss @ yss) = bind_res (append_all mb xss) (\<lambda>mb. append_all mb yss)"
  by (induction xss arbitrary: mb) (simp_all add: bind_res_assoc cong del: bind_res_weak_cong)

lemma holding_append_all:
  "holding mb cs \<Longrightarrow> length cs + length (concat xss) \<le> length (mb_data mb) \<Longrightarrow>
   \<exists>mb'. append_all mb xss = Inr mb' \<and> holding mb' (cs @ map Some (concat xss)) \<and>
     length (mb_data mb') = length (mb_data mb)"
proof (induction xss arbitrary: mb cs)
  case (Cons xs xss)
  then obtain mb1 where 1: "MessageBuffer_Append mb xs = Inr mb1" "holding mb1 (cs @ map Some xs)"
    "length (mb_data mb1) = length (mb_data mb)"
    using holding_Append [of mb cs xs] by auto
  with Cons.IH [of mb1 "cs @ map Some xs"] Cons.prems(2) obtain mb2 where "append_all mb1 xss = Inr mb2"
    "holding mb2 ((cs @ map Some xs) @ map Some (concat xss))"
    "length (mb_data mb2) = length (mb_data mb1)" by auto
  with 1 show ?case by auto
qed auto

lemma building_append_all:
  assumes "building mb t bs" and "5 + length bs + length (concat xss) \<le> length (mb_data mb)"
  shows "\<exists>mb'. append_all mb xss = Inr mb' \<and> building mb' t (bs @ concat xss) \<and>
     length (mb_data mb') = length (mb_data mb)"
proof -
  from assms(1) obtain hole where "length hole = 4" "holding mb (Some t # hole @ map Some bs)"
    by (auto simp: building_def)
  with holding_append_all [of mb "Some t # hole @ map Some bs" xss] assms(2) show ?thesis
    by (auto simp: building_def)
qed

lemma holding_bytes: "holding mb (map Some bs) \<Longrightarrow> MessageBuffer_bytes mb = Inr bs"
  by (auto simp: holding_def MessageBuffer_bytes_def deref_append_n)

lemma holding_empty: "holding (MessageBuffer_SetSize mb 0) []"
  by (simp add: holding_def MessageBuffer_SetSize_def)

lemma append_all_overflow:
  "data_length mb \<le> length (mb_data mb) \<Longrightarrow>
   length (mb_data mb) < data_length mb + length (concat xss) \<Longrightarrow>
   append_all mb xss = Inl Out_of_bounds"
proof (induction xss arbitrary: mb)
  case (Cons xs xss)
  show ?case
  proof (cases "length (mb_data mb) < data_length mb + length xs")
    case False
    then obtain mb1 where 1: "MessageBuffer_Append mb xs = Inr mb1"
      by (auto simp: Append_block store_bytes_def store_cells_def)
    then have "length (mb_data mb1) = length (mb_data mb)" "data_length mb1 = data_length mb + length xs"
      by (auto simp: Append_block dest: store_bytes_length)
    with 1 Cons False show ?thesis by simp
  qed (use Append_overflow [of mb xs] in simp)
qed (auto)

end
