(* ===== verification/Session_Send.thy ===== *)
theory Session_Send
  imports Message_Buffer Schema Expr_Eval
begin

section \<open>Messages to the client\<close>

text \<open>
  Models the sending half of \<^verbatim>\<open>rrportal/session.cpp\<close> and \<^verbatim>\<open>rrportal/session.h\<close>, and the forwarding
  class \<open>RowOutput\<close> of \<^verbatim>\<open>rrportal/row_output.cpp\<close>. The socket is Boost's: its two operations are
  parameters (\<open>socket_ops\<close>), and \<open>writes_all\<close> states what the code relies on. The lemmas show that
  every message goes out as a frame of the PostgreSQL protocol: a type byte, a length word
  in network byte order that counts itself and the body, and the body.
\<close>

subsection \<open>Session state and socket\<close>

record 's socket_ops =
  asio_read :: "'s \<Rightarrow> nat \<Rightarrow> (byte list \<times> 's) res"
  asio_write :: "'s \<Rightarrow> byte list \<Rightarrow> (nat \<times> 's) res"

record 's Session =
  sock :: 's
  read_msg :: MessageBuffer
  write_msg :: MessageBuffer
  database_name :: string
  user_name :: string
  cmdline_options :: string
  guc_options :: "(string \<times> string) list"
  proto_version :: u32
  session_state :: State
  stopped :: bool

definition Session_new :: "'s \<Rightarrow> 's Session" where
  "Session_new s = \<lparr>sock = s, read_msg = MessageBuffer_new, write_msg = MessageBuffer_new,
     database_name = [], user_name = [], cmdline_options = [], guc_options = [],
     proto_version = 0, session_state = kStateOK, stopped = False\<rparr>"

subsection \<open>Building a message\<close>

definition ascii :: "char \<Rightarrow> byte" where
  "ascii c = byte_of_char c"

definition Send :: "'s socket_ops \<Rightarrow> 's Session \<Rightarrow> 's Session res" where
  "Send net ss =
     bind_res (MessageBuffer_bytes (write_msg ss)) (\<lambda>bs.
     bind_res (asio_write net (sock ss) bs) (\<lambda>(n, s).
     if n \<noteq> MessageBuffer_GetSize (write_msg ss) then Inl Assert_failed
     else Inr (ss\<lparr>sock := s\<rparr>)))"

definition BackendMsgAppend :: "'s Session \<Rightarrow> byte list \<Rightarrow> 's Session res" where
  "BackendMsgAppend ss bs =
     bind_res (MessageBuffer_Append (write_msg ss) bs) (\<lambda>mb. Inr (ss\<lparr>write_msg := mb\<rparr>))"

definition BackendMsgBegin :: "'s Session \<Rightarrow> byte \<Rightarrow> 's Session res" where
  "BackendMsgBegin ss msg_id =
     bind_res (BackendMsgAppend (ss\<lparr>write_msg := MessageBuffer_SetSize (write_msg ss) 0\<rparr>) [msg_id]) (\<lambda>ss.
     Inr (ss\<lparr>write_msg := MessageBuffer_SetSize (write_msg ss) 5\<rparr>))"

definition BackendMsgAppendInt8 :: "'s Session \<Rightarrow> byte \<Rightarrow> 's Session res" where
  "BackendMsgAppendInt8 ss v = BackendMsgAppend ss [v]"

definition BackendMsgAppendInt16 :: "'s Session \<Rightarrow> u16 \<Rightarrow> 's Session res" where
  "BackendMsgAppendInt16 ss v = BackendMsgAppend ss (be_bytes 2 v)"

definition BackendMsgAppendInt32 :: "'s Session \<Rightarrow> u32 \<Rightarrow> 's Session res" where
  "BackendMsgAppendInt32 ss v = BackendMsgAppend ss (be_bytes 4 v)"

text \<open>\<open>strlen\<close> stops at the first null character of the string.\<close>

definition c_string :: "string \<Rightarrow> byte list" where
  "c_string s = bytes_of (takeWhile (\<lambda>c. c \<noteq> CHR 0x00) s) @ [0]"

definition BackendMsgAppendCString :: "'s Session \<Rightarrow> string \<Rightarrow> 's Session res" where
  "BackendMsgAppendCString ss s = BackendMsgAppend ss (c_string s)"

definition BackendMsgAppendString :: "'s Session \<Rightarrow> string \<Rightarrow> 's Session res" where
  "BackendMsgAppendString ss s = BackendMsgAppend ss (bytes_of s)"

definition BackendMsgEnd :: "'s socket_ops \<Rightarrow> 's Session \<Rightarrow> byte \<Rightarrow> 's Session res" where
  "BackendMsgEnd net ss msg_id =
     bind_res (store_bytes (mb_data (write_msg ss)) 1
       (be_bytes 4 (of_nat (MessageBuffer_GetSize (write_msg ss) - 1) :: u32))) (\<lambda>d.
     bind_res (Send net (ss\<lparr>write_msg := (write_msg ss)\<lparr>mb_data := d\<rparr>\<rparr>)) (\<lambda>ss.
     bind_res (load_bytes (mb_data (write_msg ss)) 0 1) (\<lambda>first.
     if first = [msg_id] then Inr ss else Inl Assert_failed)))"

subsection \<open>The messages\<close>

definition SendAuthRequest :: "'s socket_ops \<Rightarrow> 's Session \<Rightarrow> (bool \<times> 's Session) res" where
  "SendAuthRequest net ss =
     bind_res (BackendMsgAppend (ss\<lparr>write_msg := MessageBuffer_SetSize (write_msg ss) 0\<rparr>) [ascii CHR ''R'']) (\<lambda>ss.
     bind_res (BackendMsgAppend ss (be_bytes 4 (8 :: u32))) (\<lambda>ss.
     bind_res (BackendMsgAppend ss (be_bytes 4 (0 :: u32))) (\<lambda>ss.
     bind_res (MessageBuffer_bytes (write_msg ss)) (\<lambda>bs.
     bind_res (asio_write net (sock ss) bs) (\<lambda>(n, s).
     Inr (n = MessageBuffer_GetSize (write_msg ss), ss\<lparr>sock := s\<rparr>))))))"

text \<open>The value that is sent with an option is its name, as in the source.\<close>

fun SendParameterStatus_loop :: "'s Session \<Rightarrow> (string \<times> string) list \<Rightarrow> 's Session res" where
  "SendParameterStatus_loop ss [] = Inr ss"
| "SendParameterStatus_loop ss (option # options) =
     (let name = fst option; value = fst option;
          n = of_nat (4 + length name + 1 + length value + 1) :: u32 in
      bind_res (BackendMsgAppend ss [ascii CHR ''S'']) (\<lambda>ss.
      bind_res (BackendMsgAppend ss (be_bytes 4 n)) (\<lambda>ss.
      bind_res (BackendMsgAppend ss (bytes_of name @ [0])) (\<lambda>ss.
      bind_res (BackendMsgAppend ss (bytes_of value @ [0])) (\<lambda>ss.
      SendParameterStatus_loop ss options)))))"

definition SendParameterStatus :: "'s socket_ops \<Rightarrow> 's Session \<Rightarrow> (bool \<times> 's Session) res" where
  "SendParameterStatus net ss =
     bind_res (SendParameterStatus_loop (ss\<lparr>write_msg := MessageBuffer_SetSize (write_msg ss) 0\<rparr>)
       (guc_options ss)) (\<lambda>ss.
     bind_res (MessageBuffer_bytes (write_msg ss)) (\<lambda>bs.
     bind_res (asio_write net (sock ss) bs) (\<lambda>(n, s).
     Inr (n = MessageBuffer_GetSize (write_msg ss), ss\<lparr>sock := s\<rparr>))))"

definition SendReadForQuery :: "'s socket_ops \<Rightarrow> 's Session \<Rightarrow> byte \<Rightarrow> 's Session res" where
  "SendReadForQuery net ss status =
     bind_res (BackendMsgAppend (ss\<lparr>write_msg := MessageBuffer_SetSize (write_msg ss) 0\<rparr>) [ascii CHR ''Z'']) (\<lambda>ss.
     bind_res (BackendMsgAppend ss (be_bytes 4 (4 + 1 :: u32))) (\<lambda>ss.
     bind_res (BackendMsgAppend ss [status]) (\<lambda>ss.
     Send net ss)))"

definition SendBackendKeyData :: "'s socket_ops \<Rightarrow> 's Session \<Rightarrow> 's Session res" where
  "SendBackendKeyData net ss =
     bind_res (BackendMsgAppend (ss\<lparr>write_msg := MessageBuffer_SetSize (write_msg ss) 0\<rparr>) [ascii CHR ''K'']) (\<lambda>ss.
     bind_res (BackendMsgAppend ss (be_bytes 4 (4 + 4 + 4 :: u32))) (\<lambda>ss.
     bind_res (BackendMsgAppend ss (be_bytes 4 (0 :: u32))) (\<lambda>ss.
     bind_res (BackendMsgAppend ss (be_bytes 4 (0 :: u32))) (\<lambda>ss.
     Send net ss))))"

definition SendRowDescription_column :: "'s Session \<Rightarrow> ColumnDesc \<Rightarrow> 's Session res" where
  "SendRowDescription_column ss col =
     bind_res (BackendMsgAppendCString ss (column_name col)) (\<lambda>ss.
     bind_res (case cd_relation_id col of None \<Rightarrow> Inl Uninitialised | Some r \<Rightarrow> BackendMsgAppendInt32 ss r) (\<lambda>ss.
     bind_res (BackendMsgAppendInt16 ss (ucast (attribute_id col))) (\<lambda>ss.
     bind_res (BackendMsgAppendInt32 ss (DataType_code (data_type col))) (\<lambda>ss.
     bind_res (BackendMsgAppendInt16 ss (data_type_size col)) (\<lambda>ss.
     bind_res (BackendMsgAppendInt32 ss (- 1)) (\<lambda>ss.
     BackendMsgAppendInt16 ss 0))))))"

fun SendRowDescription_loop :: "'s Session \<Rightarrow> RowDesc \<Rightarrow> nat list \<Rightarrow> 's Session res" where
  "SendRowDescription_loop ss desc [] = Inr ss"
| "SendRowDescription_loop ss desc (i # is) =
     bind_res (RowDesc_GetColumnDesc desc i) (\<lambda>col.
     bind_res (SendRowDescription_column ss col) (\<lambda>ss.
     SendRowDescription_loop ss desc is))"

text \<open>The column count is a signed 16-bit integer.\<close>

definition SendRowDescription :: "'s socket_ops \<Rightarrow> 's Session \<Rightarrow> RowDesc \<Rightarrow> 's Session res" where
  "SendRowDescription net ss desc =
     (let columns_count = (of_nat (RowDesc_GetColumnCount desc) :: u16) in
      bind_res (BackendMsgBegin ss (ascii CHR ''T'')) (\<lambda>ss.
      bind_res (BackendMsgAppendInt16 ss columns_count) (\<lambda>ss.
      bind_res (SendRowDescription_loop ss desc [0..<nat (sint columns_count)]) (\<lambda>ss.
      BackendMsgEnd net ss (ascii CHR ''T'')))))"

text \<open>
  The text of a column value. Floating-point columns are skipped by the switch of the
  source and go out as the empty string.
\<close>

definition SendRowData_value :: "DataType \<Rightarrow> raw_tuple \<Rightarrow> Slot \<Rightarrow> string res" where
  "SendRowData_value ty tuple slot =
     (if ty = kDTInteger \<or> ty = kDTDate then
        bind_res (RawTuple_GetInteger tuple (unat (offset slot))) (\<lambda>i. Inr (show_int (sint i)))
      else if ty = kDTVarchar then
        bind_res (deref (unat (len slot)) (RawTuple_GetValue tuple (unat (offset slot)))) (\<lambda>bs.
        Inr (string_of bs))
      else Inr [])"

fun SendRowData_loop :: "'s Session \<Rightarrow> TupleRow \<Rightarrow> RowDesc \<Rightarrow> nat list \<Rightarrow> 's Session res" where
  "SendRowData_loop ss row desc [] = Inr ss"
| "SendRowData_loop ss row desc (i # is) =
     bind_res (RowDesc_GetColumnDesc desc i) (\<lambda>col.
     bind_res (TupleRow_GetTuple row 0) (\<lambda>tuple.
     bind_res (deref_tuple tuple) (\<lambda>tuple.
     bind_res (RawTuple_GetSlot tuple i) (\<lambda>slot.
     bind_res (SendRowData_value (data_type col) tuple slot) (\<lambda>value.
     bind_res (BackendMsgAppendInt32 ss (of_nat (length value))) (\<lambda>ss.
     bind_res (BackendMsgAppendString ss value) (\<lambda>ss.
     SendRowData_loop ss row desc is)))))))"

definition SendRowData :: "'s socket_ops \<Rightarrow> 's Session \<Rightarrow> TupleRow \<Rightarrow> RowDesc \<Rightarrow> 's Session res" where
  "SendRowData net ss row desc =
     (let number = (of_nat (RowDesc_GetColumnCount desc) :: u16) in
      bind_res (BackendMsgBegin ss (ascii CHR ''D'')) (\<lambda>ss.
      bind_res (BackendMsgAppendInt16 ss number) (\<lambda>ss.
      bind_res (SendRowData_loop ss row desc [0..<unat number]) (\<lambda>ss.
      BackendMsgEnd net ss (ascii CHR ''D'')))))"

definition SendCopyData :: "'s socket_ops \<Rightarrow> 's Session \<Rightarrow> string \<Rightarrow> 's Session res" where
  "SendCopyData net ss msg =
     (let t = (if msg \<noteq> [] then ascii CHR ''d'' else ascii CHR ''c'') in
      bind_res (BackendMsgBegin ss t) (\<lambda>ss.
      bind_res (BackendMsgAppendString ss msg) (\<lambda>ss.
      BackendMsgEnd net ss t)))"

definition SendCommandComplete :: "'s socket_ops \<Rightarrow> 's Session \<Rightarrow> string \<Rightarrow> 's Session res" where
  "SendCommandComplete net ss msg =
     bind_res (BackendMsgBegin ss (ascii CHR ''C'')) (\<lambda>ss.
     bind_res (BackendMsgAppendCString ss msg) (\<lambda>ss.
     BackendMsgEnd net ss (ascii CHR ''C'')))"

definition SendErrorResponse :: "'s socket_ops \<Rightarrow> 's Session \<Rightarrow> string \<Rightarrow> 's Session res" where
  "SendErrorResponse net ss msg =
     bind_res (BackendMsgBegin ss (ascii CHR ''E'')) (\<lambda>ss.
     bind_res (BackendMsgAppendInt8 ss (ascii CHR ''M'')) (\<lambda>ss.
     bind_res (BackendMsgAppendCString ss msg) (\<lambda>ss.
     bind_res (BackendMsgAppendInt8 ss 0) (\<lambda>ss.
     BackendMsgEnd net ss (ascii CHR ''E'')))))"

fun SendCopyResponse_loop :: "'s Session \<Rightarrow> nat \<Rightarrow> 's Session res" where
  "SendCopyResponse_loop ss 0 = Inr ss"
| "SendCopyResponse_loop ss (Suc n) =
     bind_res (BackendMsgAppendInt16 ss 0) (\<lambda>ss. SendCopyResponse_loop ss n)"

definition SendCopyInResponse :: "'s socket_ops \<Rightarrow> 's Session \<Rightarrow> u32 \<Rightarrow> 's Session res" where
  "SendCopyInResponse net ss columns =
     bind_res (BackendMsgBegin ss (ascii CHR ''G'')) (\<lambda>ss.
     bind_res (BackendMsgAppendInt8 ss 0) (\<lambda>ss.
     bind_res (BackendMsgAppendInt16 ss (ucast columns)) (\<lambda>ss.
     bind_res (SendCopyResponse_loop ss (nat (sint columns))) (\<lambda>ss.
     BackendMsgEnd net ss (ascii CHR ''G'')))))"

definition SendCopyOutResponse :: "'s socket_ops \<Rightarrow> 's Session \<Rightarrow> u32 \<Rightarrow> 's Session res" where
  "SendCopyOutResponse net ss columns =
     bind_res (BackendMsgBegin ss (ascii CHR ''H'')) (\<lambda>ss.
     bind_res (BackendMsgAppendInt8 ss 0) (\<lambda>ss.
     bind_res (BackendMsgAppendInt16 ss (ucast columns)) (\<lambda>ss.
     bind_res (SendCopyResponse_loop ss (nat (sint columns))) (\<lambda>ss.
     BackendMsgEnd net ss (ascii CHR ''H'')))))"

subsection \<open>Frames\<close>

text \<open>A message as the protocol frames it, and the socket the code relies on.\<close>

definition frame :: "byte \<Rightarrow> byte list \<Rightarrow> byte list" where
  "frame t body = t # be_bytes 4 (of_nat (4 + length body) :: u32) @ body"

definition writes_all :: "'s socket_ops \<Rightarrow> ('s \<Rightarrow> byte list) \<Rightarrow> bool" where
  "writes_all net out \<longleftrightarrow>
     (\<forall>s bs. \<exists>s'. asio_write net s bs = Inr (length bs, s') \<and> out s' = out s @ bs)"

text \<open>The session after a message has gone out: the socket has the frame, the rest is unchanged.\<close>

definition sent :: "('s \<Rightarrow> byte list) \<Rightarrow> 's Session \<Rightarrow> byte list \<Rightarrow> 's Session \<Rightarrow> bool" where
  "sent out ss bs ss' \<longleftrightarrow> out (sock ss') = out (sock ss) @ bs \<and>
     length (mb_data (write_msg ss')) = length (mb_data (write_msg ss)) \<and>
     (\<exists>s mb. ss' = ss\<lparr>sock := s, write_msg := mb\<rparr>)"

lemma sentI:
  "out s = out (sock ss) @ bs \<Longrightarrow> length (mb_data mb) = length (mb_data (write_msg ss)) \<Longrightarrow>
   sent out ss bs (ss\<lparr>write_msg := mb, sock := s\<rparr>)"
  unfolding sent_def by (intro conjI exI [of _ s] exI [of _ mb]) simp_all

lemma sent_refl: "sent out ss [] ss"
  unfolding sent_def by (intro conjI exI [of _ "sock ss"] exI [of _ "write_msg ss"]) simp_all

lemma sent_trans: "sent out a bs b \<Longrightarrow> sent out b cs c \<Longrightarrow> sent out a (bs @ cs) c"
  unfolding sent_def by (elim conjE exE, intro conjI) (simp, simp, force)

definition append_msgs :: "'s Session \<Rightarrow> byte list list \<Rightarrow> 's Session res" where
  "append_msgs ss xss = bind_res (append_all (write_msg ss) xss) (\<lambda>mb. Inr (ss\<lparr>write_msg := mb\<rparr>))"

lemma append_msgs_Nil [simp]: "append_msgs ss [] = Inr ss"
  by (simp add: append_msgs_def)

lemma append_msgs_Cons:
  "append_msgs ss (xs # xss) = bind_res (BackendMsgAppend ss xs) (\<lambda>ss. append_msgs ss xss)"
  by (simp add: append_msgs_def BackendMsgAppend_def bind_res_assoc cong del: bind_res_weak_cong)

lemma append_msgs_append:
  "append_msgs ss (xss @ yss) = bind_res (append_msgs ss xss) (\<lambda>ss. append_msgs ss yss)"
  by (simp add: append_msgs_def append_all_append bind_res_assoc cong del: bind_res_weak_cong)

lemma append_msgs_single: "BackendMsgAppend ss xs = append_msgs ss [xs]"
  by (cases "BackendMsgAppend ss xs") (simp_all add: append_msgs_Cons)

lemmas append_msg_defs = BackendMsgAppendInt8_def BackendMsgAppendInt16_def BackendMsgAppendInt32_def
  BackendMsgAppendCString_def BackendMsgAppendString_def append_msgs_single

lemma BackendMsgBegin_building:
  assumes "5 \<le> length (mb_data (write_msg ss))"
  shows "\<exists>mb. BackendMsgBegin ss t = Inr (ss\<lparr>write_msg := mb\<rparr>) \<and> building mb t [] \<and>
    length (mb_data mb) = length (mb_data (write_msg ss))"
proof -
  let ?d = "mb_data (write_msg ss)"
  obtain d0 hole rest where d: "?d = d0 # hole @ rest" "length hole = 4"
    by (rule that [of "hd ?d" "take 4 (tl ?d)" "drop 4 (tl ?d)"]) (use assms in \<open>cases ?d; auto\<close>)+
  have "store_bytes ?d 0 [t] = Inr (Some t # hole @ rest)"
    using store_bytes_at [of 0 "[]" "[d0]" "[t]" "hole @ rest"] d by simp
  then have "BackendMsgBegin ss t = Inr (ss\<lparr>write_msg := (write_msg ss)
      \<lparr>buffer_length := (if buffer_length (write_msg ss) = 0 then 2 else buffer_length (write_msg ss)),
        mb_data := Some t # hole @ rest, data_length := 5\<rparr>\<rparr>)" (is "_ = Inr (ss\<lparr>write_msg := ?mb\<rparr>)")
    by (simp add: BackendMsgBegin_def BackendMsgAppend_def Append_block MessageBuffer_SetSize_def)
  then show ?thesis using d by (intro exI [of _ ?mb]) (auto simp: building_def holding_def)
qed

lemma BackendMsgEnd_sent:
  assumes net: "writes_all net out" and b: "building (write_msg ss) t body"
  shows "\<exists>ss'. BackendMsgEnd net ss t = Inr ss' \<and> sent out ss (frame t body) ss'"
proof -
  let ?mb = "write_msg ss"
  from b obtain hole rest where d: "mb_data ?mb = Some t # hole @ map Some body @ rest" "length hole = 4"
    and n: "data_length ?mb = 5 + length body" by (auto simp: building_def holding_def)
  let ?len = "be_bytes 4 (of_nat (4 + length body) :: u32)"
  let ?d = "map Some (frame t body) @ rest"
  have st: "store_bytes (mb_data ?mb) 1 ?len = Inr ?d"
    using store_bytes_at [of 1 "[Some t]" hole ?len "map Some body @ rest"] d by (simp add: frame_def)
  have bytes: "MessageBuffer_bytes (?mb\<lparr>mb_data := ?d\<rparr>) = Inr (frame t body)"
    using deref_append_n [of "5 + length body" "frame t body" rest] n
    by (simp add: MessageBuffer_bytes_def frame_def)
  from net obtain s' where w: "asio_write net (sock ss) (frame t body) = Inr (length (frame t body), s')"
    "out s' = out (sock ss) @ frame t body" unfolding writes_all_def by blast
  have "length (frame t body) = 5 + length body" by (simp add: frame_def)
  then have send: "Send net (ss\<lparr>write_msg := ?mb\<lparr>mb_data := ?d\<rparr>\<rparr>) =
      Inr (ss\<lparr>sock := s', write_msg := ?mb\<lparr>mb_data := ?d\<rparr>\<rparr>)"
    using bytes w(1) n by (simp add: Send_def MessageBuffer_GetSize_def)
  have first: "load_bytes ?d 0 1 = Inr [t]"
    by (simp add: load_bytes_def deref_def frame_def)
  have "BackendMsgEnd net ss t = Inr (ss\<lparr>sock := s', write_msg := ?mb\<lparr>mb_data := ?d\<rparr>\<rparr>)"
    using st send first n by (simp add: BackendMsgEnd_def MessageBuffer_GetSize_def)
  moreover have "length ?d = length (mb_data ?mb)" using d by (simp add: frame_def)
  ultimately show ?thesis using w(2) by (auto simp: sent_def)
qed

text \<open>A message that fits into the block goes out as one frame; a longer one overruns the block.\<close>

lemma send_message:
  assumes "writes_all net out" and "5 + length (concat xss) \<le> length (mb_data (write_msg ss))"
  shows "\<exists>ss'. bind_res (BackendMsgBegin ss t) (\<lambda>ss. bind_res (append_msgs ss xss) (\<lambda>ss.
      BackendMsgEnd net ss t)) = Inr ss' \<and> sent out ss (frame t (concat xss)) ss'"
proof -
  obtain mb where mb: "BackendMsgBegin ss t = Inr (ss\<lparr>write_msg := mb\<rparr>)" "building mb t []"
    "length (mb_data mb) = length (mb_data (write_msg ss))"
    using BackendMsgBegin_building [of ss t] assms(2) by auto
  with building_append_all [of mb t "[]" xss] assms(2) obtain mb' where
    mb': "append_all mb xss = Inr mb'" "building mb' t (concat xss)"
    "length (mb_data mb') = length (mb_data mb)" by auto
  let ?ss = "ss\<lparr>write_msg := mb'\<rparr>"
  have "building (write_msg ?ss) t (concat xss)" using mb'(2) by simp
  from BackendMsgEnd_sent [OF assms(1) this] obtain ss' where
    e: "BackendMsgEnd net ?ss t = Inr ss'" "sent out ?ss (frame t (concat xss)) ss'" by blast
  have "sent out ss (frame t (concat xss)) ss'"
    using e(2) mb(3) mb'(3) by (auto simp: sent_def)
  then show ?thesis using mb(1) mb'(1) e(1) by (simp add: append_msgs_def)
qed

lemma send_message_overflow:
  assumes "5 \<le> length (mb_data (write_msg ss))"
    and "length (mb_data (write_msg ss)) < 5 + length (concat xss)"
  shows "bind_res (BackendMsgBegin ss t) (\<lambda>ss. bind_res (append_msgs ss xss) (\<lambda>ss.
      BackendMsgEnd net ss t)) = Inl Out_of_bounds"
proof -
  obtain mb where mb: "BackendMsgBegin ss t = Inr (ss\<lparr>write_msg := mb\<rparr>)" "building mb t []"
    "length (mb_data mb) = length (mb_data (write_msg ss))"
    using BackendMsgBegin_building [of ss t] assms(1) by auto
  have "append_all mb xss = Inl Out_of_bounds"
    by (rule append_all_overflow) (use mb assms in \<open>auto simp: building_def holding_def\<close>)
  with mb(1) show ?thesis by (simp add: append_msgs_def)
qed

text \<open>The messages that are put together without \<open>BackendMsgBegin\<close>.\<close>

lemma append_from_empty:
  assumes "length (concat xss) \<le> length (mb_data (write_msg ss))"
  shows "\<exists>mb. append_msgs (ss\<lparr>write_msg := MessageBuffer_SetSize (write_msg ss) 0\<rparr>) xss =
      Inr (ss\<lparr>write_msg := mb\<rparr>) \<and> MessageBuffer_bytes mb = Inr (concat xss) \<and>
      MessageBuffer_GetSize mb = length (concat xss) \<and>
      length (mb_data mb) = length (mb_data (write_msg ss))"
proof -
  obtain mb where mb: "append_all (MessageBuffer_SetSize (write_msg ss) 0) xss = Inr mb"
    "holding mb (map Some (concat xss))" "length (mb_data mb) = length (mb_data (write_msg ss))"
    using holding_append_all [OF holding_empty [of "write_msg ss"], of xss] assms
    by (auto simp: MessageBuffer_SetSize_def)
  show ?thesis
    by (rule exI [of _ mb])
      (use mb in \<open>simp add: append_msgs_def holding_bytes MessageBuffer_GetSize_def holding_def\<close>)
qed

lemma Send_sent:
  assumes "writes_all net out" and "MessageBuffer_bytes mb = Inr bs"
    and "MessageBuffer_GetSize mb = length bs" and "length (mb_data mb) = length (mb_data (write_msg ss))"
  shows "\<exists>ss'. Send net (ss\<lparr>write_msg := mb\<rparr>) = Inr ss' \<and> sent out ss bs ss'"
proof -
  from assms(1) obtain s' where "asio_write net (sock ss) bs = Inr (length bs, s')"
    "out s' = out (sock ss) @ bs" unfolding writes_all_def by blast
  then show ?thesis using assms(2-) by (auto simp: Send_def intro: sentI)
qed

lemma send_plain:
  assumes "writes_all net out" and "length (concat xss) \<le> length (mb_data (write_msg ss))"
  shows "\<exists>ss'. bind_res (append_msgs (ss\<lparr>write_msg := MessageBuffer_SetSize (write_msg ss) 0\<rparr>) xss)
      (Send net) = Inr ss' \<and> sent out ss (concat xss) ss'"
  using append_from_empty [OF assms(2)] Send_sent [OF assms(1)] by fastforce

subsection \<open>Every message is a frame\<close>

text \<open>The text in which a value goes to the client.\<close>

fun value_text :: "db_value \<Rightarrow> string" where
  "value_text (VInteger v) = show_int (sint v)"
| "value_text (VDate v) = show_int (sint v)"
| "value_text (VVarchar s) = s"
| "value_text (VFloat v) = []"

definition text_field :: "string \<Rightarrow> byte list" where
  "text_field s = be_bytes 4 (of_nat (length s) :: u32) @ bytes_of s"

definition data_row_body :: "db_value list \<Rightarrow> byte list" where
  "data_row_body vs = be_bytes 2 (of_nat (length vs) :: u16) @ concat (map (text_field \<circ> value_text) vs)"

lemma SendRowData_value_text:
  assumes "i < length vs" and "fits_slots vs"
  shows "\<exists>s. RawTuple_GetSlot (encode_tuple vs) i = Inr s \<and>
    SendRowData_value (value_type (vs ! i)) (encode_tuple vs) s = Inr (value_text (vs ! i))"
proof -
  obtain s where s: "RawTuple_GetSlot (encode_tuple vs) i = Inr s"
    "unat (len s) = length (encode_value (vs ! i))"
    "\<exists>rest. RawTuple_GetValue (encode_tuple vs) (unat (offset s)) = map Some (encode_value (vs ! i)) @ rest"
    using encoded_slot [OF assms] .
  then show ?thesis
    by (cases "vs ! i")
      (auto simp: SendRowData_value_def RawTuple_GetInteger_def deref_append_n)
qed

lemma SendRowData_loop_appends:
  assumes "row ! 0 = Some (encode_tuple vs)" and "0 < length row" and "fits_slots vs"
    and "map data_type desc = map value_type vs" and "\<forall>i \<in> set is. i < length vs"
  shows "SendRowData_loop ss row desc is =
    append_msgs ss (concat (map (\<lambda>i. [be_bytes 4 (of_nat (length (value_text (vs ! i))) :: u32),
      bytes_of (value_text (vs ! i))]) is))"
  using assms(5)
proof (induction "is" arbitrary: ss)
  case (Cons i "is")
  then have i: "i < length vs" by simp
  with assms(4) have "i < length desc" "data_type (desc ! i) = value_type (vs ! i)"
    by (metis length_map, metis length_map nth_map)
  moreover obtain s where "RawTuple_GetSlot (encode_tuple vs) i = Inr s"
    "SendRowData_value (value_type (vs ! i)) (encode_tuple vs) s = Inr (value_text (vs ! i))"
    using SendRowData_value_text [OF i assms(3)] by blast
  ultimately have "SendRowData_loop ss row desc (i # is) =
      bind_res (BackendMsgAppendInt32 ss (of_nat (length (value_text (vs ! i))))) (\<lambda>ss.
      bind_res (BackendMsgAppendString ss (value_text (vs ! i))) (\<lambda>ss.
      SendRowData_loop ss row desc is))"
    using assms(1,2)
    by (simp add: RowDesc_GetColumnDesc_def nth_res_def TupleRow_GetTuple_def deref_tuple_def)
  also have "\<dots> = append_msgs ss (concat (map (\<lambda>i. [be_bytes 4 (of_nat (length (value_text (vs ! i))) :: u32),
      bytes_of (value_text (vs ! i))]) (i # is)))"
    using Cons by (simp add: append_msgs_Cons BackendMsgAppendInt32_def BackendMsgAppendString_def
        cong del: bind_res_weak_cong)
  finally show ?case .
qed simp

lemma SendRowData_sent:
  assumes "writes_all (net :: 's socket_ops) out" and "row ! 0 = Some (encode_tuple vs)" and "0 < length row"
    and "fits_slots vs" and "map data_type desc = map value_type vs"
    and "5 + length (data_row_body vs) \<le> length (mb_data (write_msg ss))"
  shows "\<exists>ss'. SendRowData net ss row desc = Inr ss' \<and>
    sent out ss (frame (ascii CHR ''D'') (data_row_body vs)) ss'"
proof -
  let ?n = "of_nat (length vs) :: u16"
  let ?xss = "be_bytes 2 ?n # concat (map (\<lambda>i. [be_bytes 4 (of_nat (length (value_text (vs ! i))) :: u32),
      bytes_of (value_text (vs ! i))]) [0..<length vs])"
  have len: "length desc = length vs" using assms(5) by (metis length_map)
  have "length vs < 65536" using assms(4)
    by (simp add: fits_slots_def encode_tuple_def length_tuple_image image_size_def sizeof_Slot_def)
  then have n: "unat ?n = length vs" by (rule unat_of_nat_u16)
  have "concat (concat (map (\<lambda>v. [be_bytes 4 (of_nat (length (value_text v)) :: u32),
      bytes_of (value_text v)]) ws)) = concat (map (text_field \<circ> value_text) ws)" for ws
    by (induction ws) (simp_all add: text_field_def)
  then have body: "concat ?xss = data_row_body vs" 
    using map_upt_nth [of "\<lambda>v. [be_bytes 4 (of_nat (length (value_text v)) :: u32),
      bytes_of (value_text v)]" vs] by (simp add: data_row_body_def)
  have "SendRowData_loop ss' row desc [0..<length vs] = append_msgs ss' (tl ?xss)" for ss' :: "'s Session"
    using SendRowData_loop_appends [OF assms(2-5), of "[0..<length vs]" ss'] by simp
  then have "SendRowData net ss row desc =
      bind_res (BackendMsgBegin ss (ascii CHR ''D'')) (\<lambda>ss. bind_res (append_msgs ss ?xss) (\<lambda>ss.
      BackendMsgEnd net ss (ascii CHR ''D'')))"
    by (simp add: SendRowData_def RowDesc_GetColumnCount_def len n append_msgs_Cons bind_res_assoc
        BackendMsgAppendInt16_def cong del: bind_res_weak_cong)
  moreover have "5 + length (concat ?xss) \<le> length (mb_data (write_msg ss))"
    unfolding body by (rule assms(6))
  ultimately show ?thesis using send_message [OF assms(1), of ?xss ss "ascii CHR ''D''"] body by metis
qed

lemma SendCommandComplete_sent:
  assumes "writes_all net out" and "5 + length (c_string msg) \<le> length (mb_data (write_msg ss))"
  shows "\<exists>ss'. SendCommandComplete net ss msg = Inr ss' \<and>
    sent out ss (frame (ascii CHR ''C'') (c_string msg)) ss'"
  using send_message [OF assms(1), of "[c_string msg]" ss "ascii CHR ''C''"] assms(2)
  by (simp add: SendCommandComplete_def append_msg_defs)

lemma SendErrorResponse_appends:
  "SendErrorResponse net ss msg = bind_res (BackendMsgBegin ss (ascii CHR ''E'')) (\<lambda>ss.
    bind_res (append_msgs ss [[ascii CHR ''M''], c_string msg, [0]]) (\<lambda>ss.
    BackendMsgEnd net ss (ascii CHR ''E'')))"
  by (simp add: SendErrorResponse_def BackendMsgAppendInt8_def BackendMsgAppendCString_def
      append_msgs_Cons bind_res_assoc cong del: bind_res_weak_cong)

lemma SendErrorResponse_sent:
  assumes "writes_all net out" and "7 + length (c_string msg) \<le> length (mb_data (write_msg ss))"
  shows "\<exists>ss'. SendErrorResponse net ss msg = Inr ss' \<and>
    sent out ss (frame (ascii CHR ''E'') (ascii CHR ''M'' # c_string msg @ [0])) ss'"
  using send_message [OF assms(1), of "[[ascii CHR ''M''], c_string msg, [0]]" ss "ascii CHR ''E''"] assms(2)
  by (simp add: SendErrorResponse_appends)

lemma SendErrorResponse_overflow:
  assumes "5 \<le> length (mb_data (write_msg ss))"
    and "length (mb_data (write_msg ss)) < 7 + length (c_string msg)"
  shows "SendErrorResponse net ss msg = Inl Out_of_bounds"
  using send_message_overflow [OF assms(1), of "[[ascii CHR ''M''], c_string msg, [0]]" "ascii CHR ''E''"] assms(2)
  by (simp add: SendErrorResponse_appends)

lemma SendReadForQuery_sent:
  assumes "writes_all net out" and "6 \<le> length (mb_data (write_msg ss))"
  shows "\<exists>ss'. SendReadForQuery net ss status = Inr ss' \<and>
    sent out ss (frame (ascii CHR ''Z'') [status]) ss'"
proof -
  let ?xss = "[[ascii CHR ''Z''], be_bytes 4 (4 + 1 :: u32), [status]]"
  have "SendReadForQuery net ss status =
      bind_res (append_msgs (ss\<lparr>write_msg := MessageBuffer_SetSize (write_msg ss) 0\<rparr>) ?xss) (Send net)"
    by (simp add: SendReadForQuery_def append_msgs_Cons bind_res_assoc cong del: bind_res_weak_cong)
  then show ?thesis using send_plain [OF assms(1), of ?xss ss] assms(2) by (simp add: frame_def)
qed

lemma SendBackendKeyData_sent:
  assumes "writes_all net out" and "13 \<le> length (mb_data (write_msg ss))"
  shows "\<exists>ss'. SendBackendKeyData net ss = Inr ss' \<and>
    sent out ss (frame (ascii CHR ''K'') (be_bytes 4 (0 :: u32) @ be_bytes 4 (0 :: u32))) ss'"
proof -
  let ?xss = "[[ascii CHR ''K''], be_bytes 4 (4 + 4 + 4 :: u32), be_bytes 4 (0 :: u32), be_bytes 4 (0 :: u32)]"
  have "SendBackendKeyData net ss =
      bind_res (append_msgs (ss\<lparr>write_msg := MessageBuffer_SetSize (write_msg ss) 0\<rparr>) ?xss) (Send net)"
    by (simp add: SendBackendKeyData_def append_msgs_Cons bind_res_assoc cong del: bind_res_weak_cong)
  then show ?thesis using send_plain [OF assms(1), of ?xss ss] assms(2) by (simp add: frame_def)
qed

text \<open>Row descriptions: one entry per column.\<close>

definition column_entry :: "ColumnDesc \<Rightarrow> u32 \<Rightarrow> byte list" where
  "column_entry col r = c_string (column_name col) @ be_bytes 4 r @
     be_bytes 2 (ucast (attribute_id col) :: u16) @ be_bytes 4 (DataType_code (data_type col)) @
     be_bytes 2 (data_type_size col) @ be_bytes 4 (- 1 :: u32) @ be_bytes 2 (0 :: u16)"

definition row_description_body :: "RowDesc \<Rightarrow> byte list" where
  "row_description_body desc = be_bytes 2 (of_nat (length desc) :: u16) @
     concat (map (\<lambda>c. column_entry c (the (cd_relation_id c))) desc)"

lemma SendRowDescription_loop_appends:
  assumes "\<forall>i \<in> set is. i < length desc \<and> cd_relation_id (desc ! i) \<noteq> None"
  shows "\<exists>xss. (\<forall>ss. SendRowDescription_loop (ss :: 's Session) desc is = append_msgs ss xss) \<and>
    concat xss = concat (map (\<lambda>i. column_entry (desc ! i) (the (cd_relation_id (desc ! i)))) is)"
  using assms
proof (induction "is")
  case (Cons i "is")
  then obtain xss where xss: "\<And>ss :: 's Session. SendRowDescription_loop ss desc is = append_msgs ss xss"
    "concat xss = concat (map (\<lambda>i. column_entry (desc ! i) (the (cd_relation_id (desc ! i)))) is)" by auto
  from Cons.prems obtain r where r: "i < length desc" "cd_relation_id (desc ! i) = Some r" by auto
  let ?c = "desc ! i"
  let ?e = "[c_string (column_name ?c), be_bytes 4 r, be_bytes 2 (ucast (attribute_id ?c) :: u16),
    be_bytes 4 (DataType_code (data_type ?c)), be_bytes 2 (data_type_size ?c), be_bytes 4 (- 1 :: u32),
    be_bytes 2 (0 :: u16)]"
  have "SendRowDescription_column ss ?c = append_msgs ss ?e" for ss :: "'s Session"
    using r by (simp add: SendRowDescription_column_def append_msgs_Cons bind_res_assoc
        BackendMsgAppendInt16_def BackendMsgAppendInt32_def BackendMsgAppendCString_def bind_res_Inr_right
        cong del: bind_res_weak_cong)
  then have "SendRowDescription_loop ss desc (i # is) = append_msgs ss (?e @ xss)" for ss :: "'s Session"
    using r xss(1) append_msgs_append [of ss ?e xss]
    by (simp add: RowDesc_GetColumnDesc_def nth_res_def cong del: bind_res_weak_cong)
  then show ?case using xss(2) r by (intro exI [of _ "?e @ xss"]) (simp add: column_entry_def)
qed (auto intro: exI [of _ "[]"])

lemma SendRowDescription_sent:
  assumes "writes_all (net :: 's socket_ops) out" and "\<forall>c \<in> set desc. cd_relation_id c \<noteq> None"
    and "length desc < 32768"
    and "5 + length (row_description_body desc) \<le> length (mb_data (write_msg ss))"
  shows "\<exists>ss'. SendRowDescription net ss desc = Inr ss' \<and>
    sent out ss (frame (ascii CHR ''T'') (row_description_body desc)) ss'"
proof -
  let ?n = "of_nat (length desc) :: u16"
  have n: "nat (sint ?n) = length desc"
    using assms(3) by (simp add: signed_of_nat signed_take_bit_int_eq_self)
  obtain xss where xss: "\<And>ss :: 's Session. SendRowDescription_loop ss desc [0..<length desc] = append_msgs ss xss"
    "concat xss = concat (map (\<lambda>i. column_entry (desc ! i) (the (cd_relation_id (desc ! i)))) [0..<length desc])"
    using SendRowDescription_loop_appends [of "[0..<length desc]" desc] assms(2) by auto
  have "SendRowDescription net ss desc =
      bind_res (BackendMsgBegin ss (ascii CHR ''T'')) (\<lambda>ss. bind_res (append_msgs ss (be_bytes 2 ?n # xss)) (\<lambda>ss.
      BackendMsgEnd net ss (ascii CHR ''T'')))"
    by (simp add: SendRowDescription_def RowDesc_GetColumnCount_def n xss(1) append_msgs_Cons bind_res_assoc
        BackendMsgAppendInt16_def Let_def cong del: bind_res_weak_cong)
  moreover have "concat (be_bytes 2 ?n # xss) = row_description_body desc"
    using map_upt_nth [of "\<lambda>c. column_entry c (the (cd_relation_id c))" desc]
    by (simp add: row_description_body_def xss(2))
  ultimately show ?thesis
    using send_message [OF assms(1), of "be_bytes 2 ?n # xss" ss "ascii CHR ''T''"] assms(4) by simp
qed

end
