(* ===== verification/Query_Run.thy ===== *)
theory Query_Run
  imports Plan_Correct Project_Encode Session_Send
begin

section \<open>Running a query\<close>

text \<open>
  Models \<open>QueryRealizer::ExecSelect\<close> of \<^verbatim>\<open>realizer/query_realizer.cpp\<close>: the loop that fetches rows
  from the top of the plan and sends them to the client. What the loop needs of an executor
  is the locale \<open>row_source\<close>; plans with a projection on top are an instance of it, by the
  lemmas on \<open>Open\<close> and \<open>GetNext\<close>.
\<close>

subsection \<open>Sources of rows\<close>

locale row_source =
  fixes opn :: "'s \<Rightarrow> State \<times> 's \<Rightarrow> bool"
    and nxt :: "'s \<Rightarrow> TupleRow \<Rightarrow> State \<times> 's \<times> TupleRow \<Rightarrow> bool"
    and startable :: "'s \<Rightarrow> bool"
    and live :: "'s \<Rightarrow> bool"
    and rows :: "'s \<Rightarrow> TupleRow list"
    and todo :: "'s \<Rightarrow> TupleRow list"
  assumes open_rewinds: "startable s \<Longrightarrow> \<exists>s'. opn s (kStateOK, s') \<and> live s' \<and> todo s' = rows s"
    and next_end: "live s \<Longrightarrow> todo s = [] \<Longrightarrow> length row = 1 \<Longrightarrow>
      \<exists>s' row'. nxt s row (kStateEOF, s', row')"
    and next_row: "live s \<Longrightarrow> todo s = x # xs \<Longrightarrow> length row = 1 \<Longrightarrow>
      \<exists>s'. nxt s row (kStateOK, s', x) \<and> live s' \<and> todo s' = xs \<and> length x = 1"
begin

text \<open>
  A fetch loop over a source: \<open>P ds acc\<close> relates what the loop has accumulated to the rows
  fetched so far; \<open>Q\<close> is what its result satisfies once all of them have been fetched.
\<close>

lemma drain:
  assumes stop: "\<And>s row acc s' row'. nxt s row (kStateEOF, s', row') \<Longrightarrow> P every acc \<Longrightarrow>
      \<exists>R. loop s row acc R \<and> Q R"
    and step: "\<And>s row ds acc s' x xs. nxt s row (kStateOK, s', x) \<Longrightarrow> every = ds @ x # xs \<Longrightarrow> P ds acc \<Longrightarrow>
      \<exists>acc'. P (ds @ [x]) acc' \<and> (\<forall>R. loop s' x acc' R \<longrightarrow> loop s row acc R)"
  shows "live s \<Longrightarrow> length row = 1 \<Longrightarrow> every = ds @ todo s \<Longrightarrow> P ds acc \<Longrightarrow> \<exists>R. loop s row acc R \<and> Q R"
proof (induction "todo s" arbitrary: s row ds acc)
  case Nil
  then obtain s' row' where "nxt s row (kStateEOF, s', row')" using next_end [of s row] by auto
  with stop Nil show ?case by force
next
  case (Cons x xs)
  then obtain s' where s': "nxt s row (kStateOK, s', x)" "live s'" "todo s' = xs" "length x = 1"
    using next_row [of s x xs row] by auto
  have every: "every = ds @ x # xs" using Cons.hyps(2) Cons.prems(3) by simp
  from step [OF s'(1) this Cons.prems(4)] obtain acc' where acc': "P (ds @ [x]) acc'"
    "\<forall>R. loop s' x acc' R \<longrightarrow> loop s row acc R" by blast
  have "every = (ds @ [x]) @ todo s'" using every s'(3) by simp
  from Cons.hyps(1) [OF s'(3) [symmetric] s'(2) s'(4) this acc'(1)] acc'(2) show ?case by blast
qed

end

subsection \<open>Plans with a projection on top\<close>

definition top_opens :: "iters \<times> exec \<Rightarrow> State \<times> iters \<times> exec \<Rightarrow> bool" where
  "top_opens s r \<longleftrightarrow> opens (fst s) (snd s) r"

definition top_nexts :: "iters \<times> exec \<Rightarrow> TupleRow \<Rightarrow> State \<times> (iters \<times> exec) \<times> TupleRow \<Rightarrow> bool" where
  "top_nexts s row r \<longleftrightarrow> (case r of (st, s', row') \<Rightarrow> nexts (fst s) (snd s) row (st, fst s', snd s', row'))"

definition projects :: "nat \<Rightarrow> iters \<Rightarrow> exec \<Rightarrow> value_expr list \<Rightarrow> bool" where
  "projects n \<sigma> l as \<longleftrightarrow> (\<forall>x \<in> set (all_rows n \<sigma> l). \<exists>t. Project_tuple as x = Inr t)"

definition top_startable :: "nat \<Rightarrow> iters \<times> exec \<Rightarrow> bool" where
  "top_startable n s \<longleftrightarrow> (case s of
     (\<sigma>, Project l as trow) \<Rightarrow> plan_ok n l \<and> plan_safe n \<sigma> l \<and> plan_rows n l \<and>
       length trow = n \<and> clean (positions l) trow \<and> projects n \<sigma> l as
   | _ \<Rightarrow> False)"

definition top_live :: "nat \<Rightarrow> iters \<times> exec \<Rightarrow> bool" where
  "top_live n s \<longleftrightarrow> (case s of
     (\<sigma>, Project l as trow) \<Rightarrow> plan_ok n l \<and> ready n {} \<sigma> l trow \<and> projects n \<sigma> l as
   | _ \<Rightarrow> False)"

definition top_rows :: "nat \<Rightarrow> iters \<times> exec \<Rightarrow> TupleRow list" where
  "top_rows n s = all_rows n (fst s) (snd s)"

definition top_todo :: "nat \<Rightarrow> iters \<times> exec \<Rightarrow> TupleRow list" where
  "top_todo n s = remaining n (fst s) (snd s)"

lemma projects_step:
  "projects n \<sigma> l as \<Longrightarrow> strip l' = strip l \<Longrightarrow> same_data \<sigma> \<sigma>' \<Longrightarrow> projects n \<sigma>' l' as"
  using all_rows_same_data [of \<sigma> \<sigma>' n l] strip_eqD(3) [of l' l n \<sigma>'] by (simp add: projects_def)

lemma top_open_rewinds:
  assumes "top_startable n s"
  shows "\<exists>s'. top_opens s (kStateOK, s') \<and> top_live n s' \<and> top_todo n s' = top_rows n s"
proof -
  from assms obtain \<sigma> l as trow where s: "s = (\<sigma>, Project l as trow)"
    by (auto simp: top_startable_def split: prod.splits exec.splits)
  with assms have a: "plan_ok n l" "plan_safe n \<sigma> l" "plan_rows n l" "length trow = n"
    "clean (positions l) trow" "projects n \<sigma> l as" by (auto simp: top_startable_def)
  from plan_reopens [OF a(1-3)] obtain \<sigma>' l' where l': "opens \<sigma> l (kStateOK, \<sigma>', l')"
    "strip l' = strip l" "same_data \<sigma> \<sigma>'" "plan_inv n \<sigma>' l'" "remaining n \<sigma>' l' = all_rows n \<sigma> l"
    by (auto simp: reopens_def)
  have "ready n {} \<sigma>' l' trow"
    using a l' plan_safe_reopen [OF a(2) l'(2,3)] strip_eqD(1) [OF l'(2)] by (simp add: ready_def)
  moreover have "plan_ok n l'" using strip_eqD2(1) [OF l'(2)] a(1) by simp
  ultimately have "top_live n (\<sigma>', Project l' as trow)"
    using projects_step [OF a(6) l'(2,3)] by (simp add: top_live_def)
  then show ?thesis using opens_Project [OF l'(1), of as trow] l'(5)
    by (intro exI [of _ "(\<sigma>', Project l' as trow)"]) (simp add: top_opens_def top_todo_def top_rows_def s)
qed

lemma top_delivers:
  assumes "top_live n s"
  obtains \<sigma> l as trow where "s = (\<sigma>, Project l as trow)" "plan_ok n l" "ready n {} \<sigma> l trow"
    "projects n \<sigma> l as" "delivers n {} \<sigma> l trow"
proof -
  from assms obtain \<sigma> l as trow where s: "s = (\<sigma>, Project l as trow)"
    by (auto simp: top_live_def split: prod.splits exec.splits)
  with assms have a: "plan_ok n l" "ready n {} \<sigma> l trow" "projects n \<sigma> l as" by (auto simp: top_live_def)
  from goodD [OF plan_good [OF a(1)] refl a(2)] have "delivers n {} \<sigma> l trow" by simp
  with s a that show thesis by blast
qed

lemma top_next_end:
  assumes "top_live n s" and "top_todo n s = []"
  shows "\<exists>s' row'. top_nexts s row (kStateEOF, s', row')"
  using assms(1)
proof (rule top_delivers)
  fix \<sigma> l as trow assume a: "s = (\<sigma>, Project l as trow)" "delivers n {} \<sigma> l trow"
  from a(2) show ?thesis
  proof (cases rule: deliversE)
    case (EOF \<sigma>' l' trow')
    from nexts_Project_end [OF EOF(1), of as row] have "top_nexts s row (kStateEOF, (\<sigma>', Project l' as trow'), row)"
      by (simp add: top_nexts_def a)
    then show ?thesis by blast
  qed (use assms(2) a in \<open>simp add: top_todo_def\<close>)
qed

lemma top_next_row:
  assumes "top_live n s" and "top_todo n s = x # xs" and "length row = 1"
  shows "\<exists>s'. top_nexts s row (kStateOK, s', x) \<and> top_live n s' \<and> top_todo n s' = xs \<and> length x = 1"
  using assms(1)
proof (rule top_delivers)
  fix \<sigma> l as trow assume a: "s = (\<sigma>, Project l as trow)" "plan_ok n l" "ready n {} \<sigma> l trow"
    "projects n \<sigma> l as" "delivers n {} \<sigma> l trow"
  from a(5) show ?thesis
  proof (cases rule: deliversE)
    case (row \<sigma>' l' trow' y ys)
    then have y: "trow' = y" by simp
    have "y \<in> set (all_rows n \<sigma> l)"
      using remaining_subset [OF a(2), of \<sigma>] a(3) row(3) by (auto simp: ready_def)
    with a(4) obtain t where t: "Project_tuple as y = Inr t" by (auto simp: projects_def)
    have x: "x = [Some t]" "xs = map (projected as) ys"
      using assms(2) row(3) t by (auto simp: top_todo_def a(1) projected_def)
    from assms(3) obtain r0 where r: "row = [r0]" by (auto simp: length_Suc_conv)
    have "nexts \<sigma> (Project l as trow) row (kStateOK, \<sigma>', Project l' as trow', x)"
      using nexts_Project_row [OF row(1), of as t row] t y x r by simp
    moreover have "strip l' = strip l" "same_data \<sigma> \<sigma>'" using row(2) by (auto simp: step_ok_def)
    then have "top_live n (\<sigma>', Project l' as trow')"
      using step_ok_ready [OF row(2) a(3)] strip_eqD2(1) [of l' l n] a(2) projects_step [OF a(4)]
      by (simp add: top_live_def)
    ultimately show ?thesis using row(5) x
      by (intro exI [of _ "(\<sigma>', Project l' as trow')"]) (simp add: top_nexts_def top_todo_def a(1))
  qed (use assms(2) a in \<open>simp add: top_todo_def\<close>)
qed

interpretation plan: row_source top_opens top_nexts "top_startable n" "top_live n" "top_rows n" "top_todo n"
  for n
  by unfold_locales (rule top_open_rewinds, assumption, rule top_next_end, assumption, assumption,
      rule top_next_row, assumption, assumption, assumption)

subsection \<open>ExecSelect\<close>

text \<open>The loop: fetch a row, count it, send it. \<open>Close\<close> has no effect in any executor.\<close>

fun ExecSelect_loop :: "'s socket_ops \<Rightarrow> nat \<Rightarrow> RowDesc \<Rightarrow> 's Session \<Rightarrow> iters \<Rightarrow> exec \<Rightarrow> TupleRow \<Rightarrow> int \<Rightarrow>
    (State \<times> int \<times> 's Session \<times> iters \<times> exec) res" where
  "ExecSelect_loop net 0 desc ss \<sigma> te row cnt = Inl Out_of_fuel"
| "ExecSelect_loop net (Suc k) desc ss \<sigma> te row cnt =
     bind_res (GetNext k \<sigma> te row) (\<lambda>(state, \<sigma>, te, row).
     if state \<noteq> kStateOK then Inr (state, cnt, ss, \<sigma>, te)
     else bind_res (SendRowData net ss row desc) (\<lambda>ss.
     ExecSelect_loop net k desc ss \<sigma> te row (cnt + 1)))"

definition select_message :: "int \<Rightarrow> string" where
  "select_message cnt = ''SELECT '' @ show_int cnt @ '' rows.'' @ [CHR 0x0A]"

text \<open>The result carries the state, the message (if it is set), the session and the plan.\<close>

definition ExecSelect :: "'s socket_ops \<Rightarrow> nat \<Rightarrow> RowDesc \<Rightarrow> 's Session \<Rightarrow> iters \<Rightarrow> exec \<Rightarrow>
    (State \<times> string option \<times> 's Session \<times> iters \<times> exec) res" where
  "ExecSelect net k desc ss \<sigma> te =
     bind_res (SendRowDescription net ss desc) (\<lambda>ss.
     let state = Prepare te in
     if state \<noteq> kStateOK then Inr (state, None, ss, \<sigma>, te)
     else bind_res (Open k \<sigma> te) (\<lambda>(state, \<sigma>, te).
     if state \<noteq> kStateOK then Inr (state, None, ss, \<sigma>, te)
     else bind_res (ExecSelect_loop net k desc ss \<sigma> te (TupleRow_new 1) 0) (\<lambda>(state, cnt, ss, \<sigma>, te).
     if state = kStateEOF then Inr (kStateOK, Some (select_message cnt), ss, \<sigma>, te)
     else Inr (state, None, ss, \<sigma>, te))))"

lemma ExecSelect_loop_mono:
  "ExecSelect_loop net k desc ss \<sigma> te row cnt = Inr R \<Longrightarrow> k \<le> k' \<Longrightarrow>
   ExecSelect_loop net k' desc ss \<sigma> te row cnt = Inr R"
proof (induction k arbitrary: k' ss \<sigma> te row cnt)
  case (Suc k)
  then obtain m where k': "k' = Suc m" "k \<le> m" by (cases k') auto
  from Suc.prems(1) obtain state \<sigma>1 te1 row1 where g: "GetNext k \<sigma> te row = Inr (state, \<sigma>1, te1, row1)"
    by (auto split: prod.splits)
  then have g': "GetNext m \<sigma> te row = Inr (state, \<sigma>1, te1, row1)" using k'(2) by (rule GetNext_mono)
  from Suc.prems(1) g g' show ?case
    unfolding k'(1) using Suc.IH [OF _ k'(2)] by (auto split: if_splits)
qed simp

text \<open>What the client receives for a list of rows.\<close>

definition data_rows :: "db_value list list \<Rightarrow> byte list" where
  "data_rows vss = concat (map (\<lambda>vs. frame (ascii CHR ''D'') (data_row_body vs)) vss)"

definition row_of :: "db_value list \<Rightarrow> TupleRow" where
  "row_of vs = [Some (encode_tuple vs)]"

text \<open>A row can be sent: its types are those of the description and its message fits the buffer.\<close>

definition sendable :: "nat \<Rightarrow> RowDesc \<Rightarrow> db_value list \<Rightarrow> bool" where
  "sendable cap desc vs \<longleftrightarrow> fits_slots vs \<and> map value_type vs = map data_type desc \<and>
     5 + length (data_row_body vs) \<le> cap"

definition select_runs :: "'s socket_ops \<Rightarrow> RowDesc \<Rightarrow> iters \<times> exec \<Rightarrow> TupleRow \<Rightarrow> int \<times> 's Session \<Rightarrow>
    State \<times> int \<times> 's Session \<times> iters \<times> exec \<Rightarrow> bool" where
  "select_runs net desc s row acc R \<longleftrightarrow>
     (\<exists>k. ExecSelect_loop net k desc (snd acc) (fst s) (snd s) row (fst acc) = Inr R)"

lemma select_runs_end:
  assumes "top_nexts s row (kStateEOF, s', row')"
  shows "select_runs net desc s row (cnt, ss) (kStateEOF, cnt, ss, s')"
proof -
  from assms obtain k where "GetNext k (fst s) (snd s) row = Inr (kStateEOF, fst s', snd s', row')"
    by (auto simp: top_nexts_def nexts_def)
  then have "ExecSelect_loop net (Suc k) desc ss (fst s) (snd s) row cnt = Inr (kStateEOF, cnt, ss, s')"
    by simp
  then show ?thesis unfolding select_runs_def by (auto simp del: ExecSelect_loop.simps)
qed

lemma select_runs_row:
  assumes "top_nexts s row (kStateOK, s', x)" and "SendRowData net ss x desc = Inr ss'"
    and "select_runs net desc s' x (cnt + 1, ss') R"
  shows "select_runs net desc s row (cnt, ss) R"
proof -
  from assms(1,3) obtain k1 k2 where
    k1: "GetNext k1 (fst s) (snd s) row = Inr (kStateOK, fst s', snd s', x)" and
    k2: "ExecSelect_loop net k2 desc ss' (fst s') (snd s') x (cnt + 1) = Inr R"
    by (auto simp: top_nexts_def nexts_def select_runs_def)
  have "GetNext (max k1 k2) (fst s) (snd s) row = Inr (kStateOK, fst s', snd s', x)"
    "ExecSelect_loop net (max k1 k2) desc ss' (fst s') (snd s') x (cnt + 1) = Inr R"
    using GetNext_mono [OF k1] ExecSelect_loop_mono [OF k2] by simp_all
  with assms(2) have "ExecSelect_loop net (Suc (max k1 k2)) desc ss (fst s) (snd s) row cnt = Inr R" by simp
  then show ?thesis unfolding select_runs_def by (auto simp del: ExecSelect_loop.simps)
qed

lemma ExecSelect_loop_sends:
  assumes net: "writes_all (net :: 's socket_ops) out" and live: "top_live n s"
    and rows: "top_todo n s = map row_of vss"
    and ok: "\<forall>vs \<in> set vss. sendable (length (mb_data (write_msg ss))) desc vs"
  shows "\<exists>ss' s'. select_runs net desc s (TupleRow_new 1) (0, ss) (kStateEOF, int (length vss), ss', s') \<and>
    sent out ss (data_rows vss) ss'"
proof -
  let ?P = "\<lambda>ds (cnt, ss'). cnt = int (length ds) \<and> sent out ss (data_rows (take (length ds) vss)) ss'"
  let ?Q = "\<lambda>(state, cnt, ss', _). state = kStateEOF \<and> cnt = int (length vss) \<and> sent out ss (data_rows vss) ss'"
  have "\<exists>R. select_runs net desc s (TupleRow_new 1) (0, ss) R \<and> ?Q R"
  proof (rule plan.drain [where P = ?P and Q = ?Q and every = "map row_of vss" and ds = "[]"])
    fix s row s' row' and acc :: "int \<times> 's Session"
    assume "top_nexts s row (kStateEOF, s', row')" and "?P (map row_of vss) acc"
    then show "\<exists>R. select_runs net desc s row acc R \<and> ?Q R"
      using select_runs_end [of s row s' row' net desc "fst acc" "snd acc"] by (cases acc) fastforce
  next
    fix s row ds s' x xs and acc :: "int \<times> 's Session"
    assume nx: "top_nexts s row (kStateOK, s', x)" and t: "map row_of vss = ds @ x # xs" and P: "?P ds acc"
    from t have "length ds < length vss" by (metis length_append length_Cons length_map less_add_Suc1 add_Suc_right)
    then obtain vs where vs: "vs = vss ! length ds" "vs \<in> set vss" "take (Suc (length ds)) vss = take (length ds) vss @ [vs]"
      by (simp add: take_Suc_conv_app_nth)
    have x: "x = row_of vs" using t vs(1) \<open>length ds < length vss\<close> by (metis nth_append_length nth_map)
    obtain cnt ss1 where acc: "acc = (cnt, ss1)" by (cases acc)
    have "\<exists>ss2. SendRowData net ss1 x desc = Inr ss2 \<and> sent out ss1 (frame (ascii CHR ''D'') (data_row_body vs)) ss2"
      by (rule SendRowData_sent [OF net]) (use vs x ok P acc in \<open>auto simp: row_of_def sendable_def sent_def\<close>)
    then obtain ss2 where ss2: "SendRowData net ss1 x desc = Inr ss2"
      "sent out ss1 (frame (ascii CHR ''D'') (data_row_body vs)) ss2" by blast
    have "?P (ds @ [x]) (cnt + 1, ss2)"
      using P acc vs(3) sent_trans [of out ss _ ss1 _ ss2] ss2(2) by (simp add: data_rows_def)
    with select_runs_row [OF nx ss2(1)] acc
    show "\<exists>acc'. ?P (ds @ [x]) acc' \<and> (\<forall>R. select_runs net desc s' x acc' R \<longrightarrow> select_runs net desc s row acc R)"
      by blast
  qed (use live rows in \<open>auto simp: TupleRow_new_def data_rows_def sent_refl\<close>)
  then show ?thesis by auto
qed

lemma Prepare_OK: "Prepare e = kStateOK"
  by (induction e) simp_all

text \<open>The whole statement: description, rows, message.\<close>

lemma ExecSelect_sends:
  assumes net: "writes_all net out" and start: "top_startable n (\<sigma>, te)"
    and rows: "top_rows n (\<sigma>, te) = map row_of vss"
    and ok: "\<forall>vs \<in> set vss. sendable (length (mb_data (write_msg ss))) desc vs"
    and desc: "\<forall>c \<in> set desc. cd_relation_id c \<noteq> None" "length desc < 32768"
      "5 + length (row_description_body desc) \<le> length (mb_data (write_msg ss))"
  shows "\<exists>k ss' \<sigma>' te'. ExecSelect net k desc ss \<sigma> te =
      Inr (kStateOK, Some (select_message (int (length vss))), ss', \<sigma>', te') \<and>
    sent out ss (frame (ascii CHR ''T'') (row_description_body desc) @ data_rows vss) ss'"
proof -
  obtain ss1 where ss1: "SendRowDescription net ss desc = Inr ss1"
    "sent out ss (frame (ascii CHR ''T'') (row_description_body desc)) ss1"
    using SendRowDescription_sent [OF net desc] by blast
  obtain s1 where s1: "top_opens (\<sigma>, te) (kStateOK, s1)" "top_live n s1" "top_todo n s1 = map row_of vss"
    using plan.open_rewinds [OF start] rows by auto
  have "length (mb_data (write_msg ss1)) = length (mb_data (write_msg ss))" using ss1(2) by (simp add: sent_def)
  then obtain ss2 s2 where ss2: "select_runs net desc s1 (TupleRow_new 1) (0, ss1)
      (kStateEOF, int (length vss), ss2, s2)" "sent out ss1 (data_rows vss) ss2"
    using ExecSelect_loop_sends [OF net s1(2,3), of ss1 desc] ok by auto
  from s1(1) ss2(1) obtain k1 k2 where
    k1: "Open k1 \<sigma> te = Inr (kStateOK, fst s1, snd s1)" and
    k2: "ExecSelect_loop net k2 desc ss1 (fst s1) (snd s1) (TupleRow_new 1) 0 =
      Inr (kStateEOF, int (length vss), ss2, fst s2, snd s2)"
    by (auto simp: top_opens_def opens_def select_runs_def)
  have "Open (max k1 k2) \<sigma> te = Inr (kStateOK, fst s1, snd s1)"
    "ExecSelect_loop net (max k1 k2) desc ss1 (fst s1) (snd s1) (TupleRow_new 1) 0 =
      Inr (kStateEOF, int (length vss), ss2, fst s2, snd s2)"
    using Open_mono [OF k1] ExecSelect_loop_mono [OF k2] by simp_all
  then have "ExecSelect net (max k1 k2) desc ss \<sigma> te =
      Inr (kStateOK, Some (select_message (int (length vss))), ss2, fst s2, snd s2)"
    using ss1(1) by (cases s1; cases s2) (simp add: ExecSelect_def Prepare_OK)
  with sent_trans [OF ss1(2) ss2(2)] show ?thesis by blast
qed

end
