(* ===== verification/Plan_Values.thy ===== *)
theory Plan_Values
  imports Plan_Semantics Query_Run
begin

section \<open>Plans over values\<close>

text \<open>
  The relational meaning of a plan over tables of values, without bytes: selection, join and
  projection of lists. On a store that holds the encoded tables, the rows a plan delivers are
  the encodings of these. A well-typed plan over well-typed tables never faults.
\<close>

subsection \<open>Relational semantics\<close>

definition scan_env :: "nat \<Rightarrow> nat \<Rightarrow> db_value list \<Rightarrow> db_row" where
  "scan_env n i vs = (replicate n None)[i := Some vs]"

definition merge_env :: "db_row \<Rightarrow> db_row \<Rightarrow> db_row" where
  "merge_env x y = map (\<lambda>(a, b). if b = None then a else b) (zip x y)"

fun plan_values :: "nat \<Rightarrow> (u32 \<Rightarrow> db_value list list) \<Rightarrow> exec \<Rightarrow> db_row list" where
  "plan_values n DB (SeqScan r i c) = map (scan_env n i) (DB r)"
| "plan_values n DB (Select l p) = filter (\<lambda>env. eval_bool p env = Some True) (plan_values n DB l)"
| "plan_values n DB (Project l as row) = plan_values n DB l"
| "plan_values n DB (NestedLoopJoin l r p row ls rs) =
     concat (map (\<lambda>x. filter (\<lambda>env. eval_bool p env = Some True)
       (map (merge_env x) (plan_values n DB r))) (plan_values n DB l))"

definition project_values :: "value_expr list \<Rightarrow> db_row \<Rightarrow> db_value list" where
  "project_values as env = map (\<lambda>e. the (eval_value e env)) as"

text \<open>The predicates of a plan have a value on every row they are evaluated on.\<close>

fun plan_defined :: "nat \<Rightarrow> (u32 \<Rightarrow> db_value list list) \<Rightarrow> exec \<Rightarrow> bool" where
  "plan_defined n DB (SeqScan r i c) = True"
| "plan_defined n DB (Select l p) = (plan_defined n DB l \<and> bool_expr_ok p \<and>
     (\<forall>env \<in> set (plan_values n DB l). eval_bool p env \<noteq> None))"
| "plan_defined n DB (Project l as row) = plan_defined n DB l"
| "plan_defined n DB (NestedLoopJoin l r p row ls rs) =
     (plan_defined n DB l \<and> plan_defined n DB r \<and> bool_expr_ok p \<and>
      (\<forall>x \<in> set (plan_values n DB l). \<forall>y \<in> set (plan_values n DB r). eval_bool p (merge_env x y) \<noteq> None))"

text \<open>No join has an empty left side next to a right side with rows.\<close>

fun joins_fed :: "nat \<Rightarrow> (u32 \<Rightarrow> db_value list list) \<Rightarrow> exec \<Rightarrow> bool" where
  "joins_fed n DB (SeqScan r i c) = True"
| "joins_fed n DB (Select l p) = joins_fed n DB l"
| "joins_fed n DB (Project l as row) = joins_fed n DB l"
| "joins_fed n DB (NestedLoopJoin l r p row ls rs) =
     (joins_fed n DB l \<and> (plan_values n DB l \<noteq> [] \<or> plan_values n DB r = []))"

text \<open>The iterators of the relations of a plan hold the encoded tables.\<close>

definition stored :: "(u32 \<Rightarrow> db_value list list) \<Rightarrow> iters \<Rightarrow> u32 set \<Rightarrow> bool" where
  "stored DB \<sigma> R \<longleftrightarrow> (\<forall>r \<in> R. map (map Some) (iter_all (\<sigma> r)) = map encode_tuple (DB r) \<and>
     (\<forall>vs \<in> set (DB r). fits_slots vs))"

text \<open>A store in which the tables have been written and not read yet.\<close>

definition iters_of :: "(u32 \<Rightarrow> db_value list list) \<Rightarrow> iters" where
  "iters_of DB r = \<lparr>entries = map (\<lambda>vs. ([], map the (encode_tuple vs))) (DB r), pos = 0\<rparr>"

lemma stored_iters_of: "(\<forall>r \<in> R. \<forall>vs \<in> set (DB r). fits_slots vs) \<Longrightarrow> stored DB (iters_of DB) R"
  using encode_tuple_bytes by (simp add: stored_def iters_of_def iter_all_def o_def)

subsection \<open>Encoding\<close>

lemma encode_scan_env: "encode_row (scan_env n i vs) = (TupleRow_new n)[i := Some (encode_tuple vs)]"
  by (simp add: encode_row_def scan_env_def TupleRow_new_def map_update)

lemma encode_merge_env: "encode_row (merge_env x y) = merge_rows (encode_row x) (encode_row y)"
  by (rule nth_equalityI) (auto simp: encode_row_def merge_env_def merge_rows_def)

lemma row_fits_scan: "fits_slots vs \<Longrightarrow> row_fits (scan_env n i vs)"
  by (auto simp: row_fits_def scan_env_def dest!: subsetD [OF set_update_subset_insert])

lemma row_fits_merge: "row_fits x \<Longrightarrow> row_fits y \<Longrightarrow> row_fits (merge_env x y)"
  by (auto simp: row_fits_def merge_env_def split: if_splits) (metis set_zip_leftD, metis set_zip_rightD)

lemma plan_values_fit:
  "stored DB \<sigma> (relids e) \<Longrightarrow> env \<in> set (plan_values n DB e) \<Longrightarrow> row_fits env"
proof (induction e arbitrary: env)
  case (SeqScan r i c)
  then show ?case by (auto simp: stored_def intro: row_fits_scan)
next
  case (NestedLoopJoin l r p row ls rs)
  then have "stored DB \<sigma> (relids l)" "stored DB \<sigma> (relids r)" by (auto simp: stored_def)
  with NestedLoopJoin show ?case by (auto intro!: row_fits_merge)
qed auto

lemma holds_encode:
  "eval_bool p env \<noteq> None \<Longrightarrow> row_fits env \<Longrightarrow> bool_expr_ok p \<Longrightarrow>
   holds p (encode_row env) = (eval_bool p env = Some True)"
  using eval_bool_GetValue [of p env] by (auto simp: holds_def)

lemma filter_holds_encode:
  assumes "\<forall>env \<in> set envs. eval_bool p env \<noteq> None \<and> row_fits env" and "bool_expr_ok p"
  shows "filter (holds p) (map encode_row envs) = map encode_row (filter (\<lambda>env. eval_bool p env = Some True) envs)"
  using assms by (induction envs) (auto simp: holds_encode)

text \<open>The rows of a plan are the encodings of its values.\<close>

lemma all_rows_encode:
  "stored DB \<sigma> (relids e) \<Longrightarrow> plan_defined n DB e \<Longrightarrow> plan_ok n e \<Longrightarrow>
   all_rows n \<sigma> e = map encode_row (plan_values n DB e)"
proof (induction e)
  case (SeqScan r i c)
  then have "map (map Some) (iter_all (\<sigma> r)) = map encode_tuple (DB r)" by (simp add: stored_def)
  then have "map (\<lambda>t. (TupleRow_new n)[i := Some t]) (map (map Some) (iter_all (\<sigma> r))) =
      map (\<lambda>t. (TupleRow_new n)[i := Some t]) (map encode_tuple (DB r))" by simp
  then show ?case by (simp add: scan_row_def [abs_def] encode_scan_env o_def)
next
  case (Select l p)
  then show ?case using plan_values_fit [of DB \<sigma> l _ n] by (simp add: filter_holds_encode)
next
  case (NestedLoopJoin l r p row ls rs)
  then obtain rr j c where r: "r = SeqScan rr j c" by (auto split: exec.splits)
  have st: "stored DB \<sigma> (relids l)" "stored DB \<sigma> (relids r)" using NestedLoopJoin.prems by (auto simp: stored_def)
  have l: "all_rows n \<sigma> l = map encode_row (plan_values n DB l)"
    "all_rows n \<sigma> r = map encode_row (plan_values n DB r)"
    using NestedLoopJoin st by (auto simp: r)
  have "filter (holds p) (map (merge_rows (encode_row x)) (map encode_row (plan_values n DB r))) =
      map encode_row (filter (\<lambda>env. eval_bool p env = Some True) (map (merge_env x) (plan_values n DB r)))"
    if "x \<in> set (plan_values n DB l)" for x
    using filter_holds_encode [of "map (merge_env x) (plan_values n DB r)" p] that NestedLoopJoin.prems(2)
      plan_values_fit [OF st(1) that] plan_values_fit [OF st(2), of _ n]
    by (simp add: encode_merge_env o_def row_fits_merge)
  then have "concat (map (\<lambda>x. filter (holds p) (map (merge_rows (encode_row x)) (map encode_row (plan_values n DB r))))
        (plan_values n DB l)) =
      concat (map (\<lambda>x. map encode_row (filter (\<lambda>env. eval_bool p env = Some True)
        (map (merge_env x) (plan_values n DB r)))) (plan_values n DB l))"
    by (intro arg_cong [of _ _ concat] map_cong) simp_all
  then show ?case by (simp add: l map_concat o_def)
qed simp

lemma plan_safe_encode:
  "stored DB \<sigma> (relids e) \<Longrightarrow> plan_defined n DB e \<Longrightarrow> joins_fed n DB e \<Longrightarrow> plan_ok n e \<Longrightarrow> plan_safe n \<sigma> e"
proof (induction e)
  case (Select l p)
  then show ?case using all_rows_encode [of DB \<sigma> l n] plan_values_fit [of DB \<sigma> l _ n] eval_bool_GetValue
    by fastforce
next
  case (NestedLoopJoin l r p row ls rs)
  then obtain rr j c where r: "r = SeqScan rr j c" by (auto split: exec.splits)
  have st: "stored DB \<sigma> (relids l)" "stored DB \<sigma> (relids r)" using NestedLoopJoin.prems by (auto simp: stored_def)
  have l: "all_rows n \<sigma> l = map encode_row (plan_values n DB l)"
    "all_rows n \<sigma> r = map encode_row (plan_values n DB r)"
    using all_rows_encode [OF st(1), of n] all_rows_encode [OF st(2), of n] NestedLoopJoin.prems
    by (simp_all add: r del: all_rows.simps plan_values.simps)
  have "\<exists>b. BooleanExpr_GetValue p (merge_rows (encode_row x) (encode_row y)) = Inr b"
    if "x \<in> set (plan_values n DB l)" "y \<in> set (plan_values n DB r)" for x y
    using that NestedLoopJoin.prems(2) eval_bool_GetValue [of p "merge_env x y"]
      row_fits_merge [OF plan_values_fit [OF st(1) that(1)] plan_values_fit [OF st(2) that(2)]]
    by (fastforce simp: encode_merge_env)
  moreover have "plan_safe n \<sigma> l" using NestedLoopJoin st by (simp add: r)
  ultimately show ?case using NestedLoopJoin.prems(3) by (auto simp: l)
qed auto

subsection \<open>Well-typed plans\<close>

text \<open>
  \<open>\<Gamma>\<close> gives the column types of the table at each position. A row of a plan has tuples of these
  types at the positions of the plan and nothing elsewhere.
\<close>

definition env_typed :: "row_schema \<Rightarrow> nat set \<Rightarrow> db_row \<Rightarrow> bool" where
  "env_typed \<Gamma> S env \<longleftrightarrow> length env = length \<Gamma> \<and> (\<forall>i < length env.
     if i \<in> S then \<exists>vs. env ! i = Some vs \<and> map value_type vs = \<Gamma> ! i else env ! i = None)"

fun plan_typed :: "row_schema \<Rightarrow> (u32 \<Rightarrow> db_value list list) \<Rightarrow> exec \<Rightarrow> bool" where
  "plan_typed \<Gamma> DB (SeqScan r i c) = (\<forall>vs \<in> set (DB r). map value_type vs = \<Gamma> ! i)"
| "plan_typed \<Gamma> DB (Select l p) = (plan_typed \<Gamma> DB l \<and> bool_expr_typed \<Gamma> p \<and> bool_expr_ok p)"
| "plan_typed \<Gamma> DB (Project l as row) = plan_typed \<Gamma> DB l"
| "plan_typed \<Gamma> DB (NestedLoopJoin l r p row ls rs) =
     (plan_typed \<Gamma> DB l \<and> plan_typed \<Gamma> DB r \<and> bool_expr_typed \<Gamma> p \<and> bool_expr_ok p)"

lemma eval_value_typed:
  assumes "value_expr_typed \<Gamma> t e" and "env_typed \<Gamma> S env" and "value_slots e \<subseteq> S"
  shows "\<exists>v. eval_value e env = Some v \<and> value_type v = t"
proof (cases e)
  case (SlotReference t' i j)
  with assms have ij: "0 \<le> i" "nat i < length env" "0 \<le> j" "nat j < length (\<Gamma> ! nat i)"
    "\<Gamma> ! nat i ! nat j = t" "nat i \<in> S" by (auto simp: env_typed_def)
  then obtain vs where "env ! nat i = Some vs" "map value_type vs = \<Gamma> ! nat i"
    using assms(2) unfolding env_typed_def by metis
  moreover from this have "nat j < length vs" "value_type (vs ! nat j) = t"
    using ij(4,5) by (metis length_map, metis length_map nth_map)
  ultimately show ?thesis using ij SlotReference by simp
qed (use assms in auto)

lemma eval_bool_typed:
  "bool_expr_typed \<Gamma> p \<Longrightarrow> env_typed \<Gamma> S env \<Longrightarrow> bool_slots p \<subseteq> S \<Longrightarrow> eval_bool p env \<noteq> None"
proof (induction p)
  case (VarcharCompare op l r)
  then show ?case using eval_value_typed [of \<Gamma> kDTVarchar l S env] eval_value_typed [of \<Gamma> kDTVarchar r S env]
    by (auto simp: value_type_cases)
next
  case (IntegerCompare op l r)
  then show ?case using eval_value_typed [of \<Gamma> kDTInteger l S env] eval_value_typed [of \<Gamma> kDTInteger r S env]
    by (auto simp: value_type_cases)
next
  case (FloatCompare op l r)
  then show ?case using eval_value_typed [of \<Gamma> kDTFloat l S env] eval_value_typed [of \<Gamma> kDTFloat r S env]
    by (auto simp: value_type_cases)
next
  case (LogicExpr op l r)
  then show ?case by auto
qed

lemma plan_values_typed:
  "plan_typed \<Gamma> DB e \<Longrightarrow> plan_ok (length \<Gamma>) e \<Longrightarrow> env \<in> set (plan_values (length \<Gamma>) DB e) \<Longrightarrow>
   env_typed \<Gamma> (positions e) env"
proof (induction e arbitrary: env)
  case (SeqScan r i c)
  then show ?case by (auto simp: env_typed_def scan_env_def nth_list_update)
next
  case (NestedLoopJoin l r p row ls rs)
  then obtain rr j c where r: "r = SeqScan rr j c" by (auto split: exec.splits)
  from NestedLoopJoin.prems obtain x vs where x: "x \<in> set (plan_values (length \<Gamma>) DB l)" "vs \<in> set (DB rr)"
    "env = merge_env x (scan_env (length \<Gamma>) j vs)" by (auto simp: r)
  have "env_typed \<Gamma> (positions l) x" using NestedLoopJoin x(1) by (simp add: r)
  moreover have "j < length \<Gamma>" "map value_type vs = \<Gamma> ! j" using NestedLoopJoin.prems x(2) by (auto simp: r)
  ultimately show ?case unfolding x(3)
    by (auto simp: env_typed_def merge_env_def scan_env_def nth_list_update r)
qed auto

text \<open>Type soundness: the predicates of a well-typed plan always have a value.\<close>

lemma plan_typed_defined:
  "plan_typed \<Gamma> DB e \<Longrightarrow> plan_ok (length \<Gamma>) e \<Longrightarrow> plan_defined (length \<Gamma>) DB e"
proof (induction e)
  case (Select l p)
  then show ?case using plan_values_typed [of \<Gamma> DB l] eval_bool_typed [of \<Gamma> p "positions l"] by auto
next
  case (NestedLoopJoin l r p row ls rs)
  then obtain rr j c where r: "r = SeqScan rr j c" by (auto split: exec.splits)
  have "eval_bool p (merge_env x y) \<noteq> None"
    if "x \<in> set (plan_values (length \<Gamma>) DB l)" "y \<in> set (plan_values (length \<Gamma>) DB r)" for x y
  proof -
    from that(2) obtain vs where y: "y = scan_env (length \<Gamma>) j vs" "vs \<in> set (DB rr)" by (auto simp: r)
    have "env_typed \<Gamma> (positions l) x"
      using plan_values_typed [OF _ _ that(1)] NestedLoopJoin.prems by (simp add: r)
    then have "env_typed \<Gamma> (insert j (positions l)) (merge_env x y)"
      using NestedLoopJoin.prems y
      by (auto simp: env_typed_def merge_env_def scan_env_def nth_list_update r)
    then show ?thesis using eval_bool_typed NestedLoopJoin.prems by (simp add: r) blast
  qed
  then show ?case using NestedLoopJoin by (simp add: r)
qed auto

subsection \<open>The rows a query sends\<close>

definition attrs_typed :: "row_schema \<Rightarrow> nat set \<Rightarrow> RowDesc \<Rightarrow> value_expr list \<Rightarrow> bool" where
  "attrs_typed \<Gamma> S desc as \<longleftrightarrow> list_all2 (\<lambda>c e. value_expr_typed \<Gamma> (data_type c) e \<and>
     value_expr_ok e \<and> value_slots e \<subseteq> S) desc as"

lemma project_values_typed:
  assumes "attrs_typed \<Gamma> S desc as" and "env_typed \<Gamma> S env"
  shows "list_all2 (\<lambda>e v. eval_value e env = Some v) as (project_values as env)"
    and "map value_type (project_values as env) = map data_type desc"
proof -
  have "list_all2 (\<lambda>c e. \<exists>v. eval_value e env = Some v \<and> value_type v = data_type c) desc as"
    using assms(1) unfolding attrs_typed_def
    by (rule list_all2_mono) (use eval_value_typed assms(2) in blast)
  then show "list_all2 (\<lambda>e v. eval_value e env = Some v) as (project_values as env)"
    and "map value_type (project_values as env) = map data_type desc"
    by (induction desc as rule: list_all2_induct) (auto simp: project_values_def)
qed

lemma project_tuple_values:
  assumes "attrs_typed \<Gamma> S desc as" and "env_typed \<Gamma> S env" and "row_fits env"
    and "fits_slots (project_values as env)"
  shows "Project_tuple as (encode_row env) = Inr (encode_tuple (project_values as env))"
proof (rule Project_tuple_encoded [OF project_values_typed(1) [OF assms(1,2)] assms(3)])
  show "\<forall>e \<in> set as. value_expr_ok e"
    using assms(1) by (auto simp: attrs_typed_def list_all2_conv_all_nth in_set_conv_nth)
  show "length (encode_tuple (project_values as env)) < 2 ^ 32" using assms(4) by (simp add: fits_slots_def)
qed

definition query_result :: "nat \<Rightarrow> (u32 \<Rightarrow> db_value list list) \<Rightarrow> exec \<Rightarrow> value_expr list \<Rightarrow> db_value list list" where
  "query_result n DB l as = map (project_values as) (plan_values n DB l)"

lemma query_startable:
  assumes ok: "plan_ok (length \<Gamma>) l" "plan_typed \<Gamma> DB l" "stored DB \<sigma> (relids l)" "joins_fed (length \<Gamma>) DB l"
    and rows: "plan_rows (length \<Gamma>) l"
    and attrs: "attrs_typed \<Gamma> (positions l) desc as"
    and fits: "\<forall>vs \<in> set (query_result (length \<Gamma>) DB l as). fits_slots vs"
  shows "top_startable (length \<Gamma>) (\<sigma>, Project_new l as (length \<Gamma>))"
    and "top_rows (length \<Gamma>) (\<sigma>, Project_new l as (length \<Gamma>)) = map row_of (query_result (length \<Gamma>) DB l as)"
proof -
  let ?n = "length \<Gamma>"
  have d: "plan_defined ?n DB l" using plan_typed_defined [OF ok(2,1)] .
  have enc: "all_rows ?n \<sigma> l = map encode_row (plan_values ?n DB l)" using all_rows_encode [OF ok(3) d ok(1)] .
  have t: "Project_tuple as (encode_row env) = Inr (encode_tuple (project_values as env))"
    if "env \<in> set (plan_values ?n DB l)" for env
    by (rule project_tuple_values [OF attrs plan_values_typed [OF ok(2,1) that] plan_values_fit [OF ok(3) that]])
      (use fits that in \<open>simp add: query_result_def\<close>)
  have "plan_safe ?n \<sigma> l" using plan_safe_encode [OF ok(3) d ok(4) ok(1)] .
  then show "top_startable ?n (\<sigma>, Project_new l as ?n)"
    using ok rows t by (auto simp: top_startable_def Project_new_def projects_def enc clean_def TupleRow_new_def)
  show "top_rows ?n (\<sigma>, Project_new l as ?n) = map row_of (query_result ?n DB l as)"
    using t by (simp add: top_rows_def Project_new_def enc query_result_def projected_def row_of_def)
qed

end
