(* ===== verification/Realizer_Build.thy ===== *)
theory Realizer_Build
  imports Realizer_Check Plan_Values
begin

section \<open>What Build produces\<close>

text \<open>
  For a statement that passed \<open>Check\<close>, over one table or a left-deep tree of joins of different
  tables, \<open>Build\<close> makes a plan that is well formed and well typed for the tables of the statement,
  opens one iterator per table, and describes the output columns by their types.
\<close>

subsection \<open>Expressions\<close>

definition schema_of :: "tables \<Rightarrow> row_schema" where
  "schema_of T = map (\<lambda>t. map attr_data_type (attributes (snd t))) T"

lemma length_schema_of [simp]: "length (schema_of T) = length T"
  by (simp add: schema_of_def)

text \<open>No negation (the parser gives it one operand, which \<open>Check\<close> does not survive), and string
  constants of less than 4 GB.\<close>

fun plain :: "expr \<Rightarrow> bool" where
  "plain (ColumnReference n t c) = True"
| "plain (ConstExpr c) = (length (str_val c) < 2 ^ 32)"
| "plain (Operation op l r) = (op \<noteq> kNot \<and>
     (case l of None \<Rightarrow> True | Some x \<Rightarrow> plain x) \<and> (case r of None \<Rightarrow> True | Some x \<Rightarrow> plain x))"

definition value_fits :: "tables \<Rightarrow> nat \<Rightarrow> value_expr \<Rightarrow> bool" where
  "value_fits T m v \<longleftrightarrow> value_expr_typed (schema_of T) (GetDataType v) v \<and> value_expr_ok v \<and>
     value_slots v \<subseteq> {..<m}"

lemma slot_ok_fits: "slot_ok T m s \<Longrightarrow> m \<le> length T \<Longrightarrow> value_fits T m s"
  by (auto simp: slot_ok_def value_fits_def schema_of_def)

lemma BuildValueExpression_ok:
  "BuildValueExpression q e = Inr (Some v) \<Longrightarrow> refs_ok T m e q \<Longrightarrow> plain e \<Longrightarrow> m \<le> length T \<Longrightarrow>
   value_fits T m v"
proof (cases e)
  case (ConstExpr c)
  assume "BuildValueExpression q e = Inr (Some v)" "plain e"
  then show ?thesis by (auto simp: ConstExpr value_fits_def split: if_splits)
qed (auto simp: refs_ok_def slot_ok_fits split: option.splits)

definition bool_fits :: "tables \<Rightarrow> nat \<Rightarrow> bool_expr \<Rightarrow> bool" where
  "bool_fits T m b \<longleftrightarrow> bool_expr_typed (schema_of T) b \<and> bool_expr_ok b \<and> bool_slots b \<subseteq> {..<m}"

lemma build_compare_ok:
  "build_compare op (Some l) (Some r) = Inr (Some b) \<Longrightarrow> value_fits T m l \<Longrightarrow> value_fits T m r \<Longrightarrow>
   bool_fits T m b"
  by (auto simp: build_compare_def value_fits_def bool_fits_def split: if_splits)

lemma BuildBooleanExpression_ok:
  "BuildBooleanExpression q e = Inr (Some b) \<Longrightarrow> refs_ok T m e q \<Longrightarrow> plain e \<Longrightarrow> m \<le> length T \<Longrightarrow>
   bool_fits T m b"
proof (induction e arbitrary: b)
  case (Operation op l r)
  from Operation.prems(2) have rl: "\<And>x. l = Some x \<Longrightarrow> refs_ok T m x q" "\<And>x. r = Some x \<Longrightarrow> refs_ok T m x q"
    by (auto simp: refs_ok_def)
  show ?case
  proof (cases "IsCompareOperator op")
    case True
    with Operation.prems(1) obtain le re lv rv where e: "l = Some le" "r = Some re"
      "BuildValueExpression q le = Inr (Some lv)" "BuildValueExpression q re = Inr (Some rv)"
      "build_compare op (Some lv) (Some rv) = Inr (Some b)"
      by (auto simp: BuildValue_ptr_def build_compare_def split: option.splits)
    show ?thesis
      using build_compare_ok [OF e(5) BuildValueExpression_ok [OF e(3) rl(1) [OF e(1)]]
          BuildValueExpression_ok [OF e(4) rl(2) [OF e(2)]]] Operation.prems(3,4) e by simp
  next
    case False
    with Operation.prems(1) obtain le re bl br where e: "IsLogicOperator op" "l = Some le" "r = Some re"
      "BuildBooleanExpression q le = Inr (Some bl)" "BuildBooleanExpression q re = Inr (Some br)"
      "b = LogicExpr op bl br"
      by (auto split: option.splits if_splits)
    have "bool_fits T m bl" "bool_fits T m br"
      using Operation.IH(1) [OF _ e(4) rl(1) [OF e(2)]] Operation.IH(2) [OF _ e(5) rl(2) [OF e(3)]]
        Operation.prems(3,4) e by auto
    then show ?thesis using e Operation.prems(3) by (auto simp: bool_fits_def IsLogicOperator_iff)
  qed
qed auto

subsection \<open>Iterators\<close>

definition store_iters :: "LevelStore \<Rightarrow> iters" where
  "store_iters st r = (case map_of (iterator_handler_map st) r of
     Some h \<Rightarrow> ih_iter h | None \<Rightarrow> Iterator_new [])"

text \<open>\<open>st'\<close> has an iterator over the present content of each relation of \<open>R\<close>.\<close>

definition opened :: "LevelStore \<Rightarrow> u32 set \<Rightarrow> LevelStore \<Rightarrow> bool" where
  "opened st R st' \<longleftrightarrow> (\<forall>n. GetRelation st' n = GetRelation st n) \<and> ls_path st' = ls_path st \<and>
     (\<forall>i. DB_entries st' (GetDBFilePath st i) = DB_entries st (GetDBFilePath st i)) \<and>
     (\<forall>i. map_of (iterator_handler_map st') i = (if i \<in> R
        then Some \<lparr>ih_iter = Iterator_new (DB_entries st (GetDBFilePath st i)), ih_reference = 1\<rparr>
        else map_of (iterator_handler_map st) i)) \<and>
     write_handler_map st' = write_handler_map st \<and>
     (\<forall>p. locked st' p \<longleftrightarrow> p \<in> GetDBFilePath st ` R \<or> locked st p) \<and>
     (\<forall>i \<in> R. \<not> locked st (GetDBFilePath st i))"

lemma opened_refl: "opened st {} st"
  by (simp add: opened_def)

lemma opened_NewIterator:
  assumes "NewIterator st i = Inr st'" and "map_of (iterator_handler_map st) i = None"
  shows "opened st {i} st'"
  using assms
  by (auto simp: NewIterator_def DB_Open_def opened_def GetRelation_def DB_entries_def Let_def update_conv'
      split: if_splits option.splits)

lemma GetDBFilePath_path: "ls_path st' = ls_path st \<Longrightarrow> GetDBFilePath st' = GetDBFilePath st"
  by (simp add: GetDBFilePath_def fun_eq_iff)

lemma opened_trans: "opened a R b \<Longrightarrow> opened b S c \<Longrightarrow> opened a (R \<union> S) c"
  using GetDBFilePath_path [of b a] by (auto simp: opened_def)

subsection \<open>Joins\<close>

fun plain_joins :: "table_factor \<Rightarrow> bool" where
  "plain_joins (JoinClause (Some l) (Some (TableReference t a)) (Some p) jt) = (plain_joins l \<and> plain p)"
| "plain_joins _ = True"

definition ids :: "tables \<Rightarrow> u32 list" where
  "ids T = map (\<lambda>t. relation_id (snd t)) T"

definition db_typed :: "tables \<Rightarrow> (u32 \<Rightarrow> db_value list list) \<Rightarrow> bool" where
  "db_typed T DB \<longleftrightarrow> (\<forall>k < length T. \<forall>vs \<in> set (DB (ids T ! k)). map value_type vs = schema_of T ! k)"

text \<open>A plan over the first \<open>k\<close> tables.\<close>

definition plan_over :: "tables \<Rightarrow> nat \<Rightarrow> exec \<Rightarrow> bool" where
  "plan_over T k e \<longleftrightarrow> plan_ok (length T) e \<and> plan_rows (length T) e \<and> positions e = {..<k} \<and>
     relids e = set (take k (ids T)) \<and> (\<forall>DB. db_typed T DB \<longrightarrow> plan_typed (schema_of T) DB e)"

text \<open>What building leaves of the realizer's state.\<close>

definition built :: "QueryRealizer \<Rightarrow> tables \<Rightarrow> QueryRealizer \<Rightarrow> bool" where
  "built q ts q' \<longleftrightarrow> name2relation q' = name2relation q \<and> name2tuple_index q' = name2tuple_index q \<and>
     name2slot q' = name2slot q \<and> output_row_desc q' = output_row_desc q \<and>
     projection_list q' = projection_list q \<and> all_tuple_desc q' = all_tuple_desc q @ map (\<lambda>t. Relation_ToDesc (snd t)) ts \<and>
     all_iter q' = all_iter q @ map (\<lambda>t. IO_iterator (relation_id (snd t))) ts"

lemma built_trans: "built a ds b \<Longrightarrow> built b ds' c \<Longrightarrow> built a (ds @ ds') c"
  by (simp add: built_def)

lemma joins_ok_built: "built q ds q' \<Longrightarrow> joins_ok T m tf q' = joins_ok T m tf q"
  by (induction T m tf q rule: joins_ok.induct) (auto simp: built_def refs_ok_def)

lemma known_lookup:
  "known T (length T) q \<Longrightarrow> k < length T \<Longrightarrow> map_of (name2relation q) (fst (T ! k)) = Some (snd (T ! k))"
  by (intro map_of_is_SomeI) (auto simp: known_def)

lemma known_built: "built q ds q' \<Longrightarrow> known T m q' = known T m q"
  by (simp add: built_def known_def)

text \<open>The scan of table \<open>k\<close>.\<close>

lemma BuildTableScan_ok:
  assumes b: "BuildTableScan st q t a = Inr (e, st', q')"
    and "known T (length T) q" "k < length T" "fst (T ! k) = (if a \<noteq> [] then a else t)"
    and "GetRelation st t = Some (snd (T ! k))" and "map_of (iterator_handler_map st) (ids T ! k) = None"
  shows "e = SeqScan (ids T ! k) (length (all_tuple_desc q)) 0 \<and> opened st {ids T ! k} st' \<and>
    built q [T ! k] q'"
proof -
  let ?q = "q\<lparr>all_iter := all_iter q @ [IO_iterator (ids T ! k)]\<rparr>"
  have "map_of (name2relation q) (if a \<noteq> [] then a else t) = Some (snd (T ! k))"
    using known_lookup [OF assms(2,3)] assms(4) by simp
  with b assms(3,5) have n: "NewIterator st (ids T ! k) = Inr st'"
    and e: "e = SeqScan_new (ids T ! k) (length (all_tuple_desc q))"
    and q': "q' = ?q\<lparr>all_tuple_desc := all_tuple_desc q @ [Relation_ToDesc (snd (T ! k))]\<rparr>"
    by (auto simp: BuildTableScan_def ids_def Let_def)
  from opened_NewIterator [OF n assms(6)] e q' show ?thesis using assms(3) by (simp add: SeqScan_new_def built_def ids_def)
qed

lemma clean_TupleRow_new: "clean S (TupleRow_new n)"
  by (simp add: clean_def TupleRow_new_def)

lemma BuildJoin_ok:
  "BuildJoin st q tf = Inr (e, st', q') \<Longrightarrow> left_deep tf \<Longrightarrow> plain_joins tf \<Longrightarrow> joins_ok T 0 tf q \<Longrightarrow>
   placed st T 0 (factor_tables tf) \<Longrightarrow> all_tuple_desc q = [] \<Longrightarrow> known T (length T) q \<Longrightarrow>
   distinct (ids T) \<Longrightarrow> \<forall>i \<in> set (ids T). map_of (iterator_handler_map st) i = None \<Longrightarrow>
   let k = length (factor_tables tf) in plan_over T k e \<and> opened st (set (take k (ids T))) st' \<and>
     built q (take k T) q'"
proof (induction tf arbitrary: e st' q' rule: left_deep.induct)
  case (1 t a)
  from 1(5) have T: "0 < length T" "fst (T ! 0) = (if a \<noteq> [] then a else t)" "GetRelation st t = Some (snd (T ! 0))"
    by (auto simp: placed_def)
  have none: "map_of (iterator_handler_map st) (ids T ! 0) = None" using 1(9) T(1) by (simp add: ids_def)
  from BuildTableScan_ok [OF 1(1) [simplified] 1(7) T none] 1(6)
  have e: "e = SeqScan (ids T ! 0) 0 0" "opened st {ids T ! 0} st'" "built q [T ! 0] q'"
    by auto
  have "plan_over T 1 e" using T(1) by (auto simp: e(1) plan_over_def take_Suc_conv_app_nth ids_def db_typed_def)
  with e T(1) show ?case by (simp add: take_Suc_conv_app_nth ids_def)
next
  case (2 l t a p jt)
  let ?k = "length (factor_tables l)"
  from 2(2) obtain le st1 q1 re st2 be where b1: "BuildJoin st q l = Inr (le, st1, q1)"
    and b2: "BuildTableScan st1 q1 t a = Inr (re, st', q')"
    and b3: "BuildBooleanExpression q' p = Inr (Some be)"
    and e: "e = NestedLoopJoin_new (length (name2relation q')) le re be"
    by (auto split: option.splits)
  from 2(6) have pl: "placed st T 0 (factor_tables l)" "placed st T ?k [(if a \<noteq> [] then a else t, t)]"
    by (simp_all add: placed_append)
  have l: "plan_over T ?k le" "opened st (set (take ?k (ids T))) st1"
    "built q (take ?k T) q1"
    using 2(1) [OF b1 _ _ _ pl(1) 2(7-10)] 2(3-5) by (auto simp: Let_def)
  from pl(2) have T: "?k < length T" "fst (T ! ?k) = (if a \<noteq> [] then a else t)"
    "GetRelation st t = Some (snd (T ! ?k))" by (auto simp: placed_def)
  have idk: "ids T ! ?k \<notin> set (take ?k (ids T))"
    using nth_notin_take [OF 2(9), of ?k] T(1) by (simp add: ids_def)
  have r1: "GetRelation st1 t = Some (snd (T ! ?k))" using l(2) T(3) by (simp add: opened_def)
  have r2: "map_of (iterator_handler_map st1) (ids T ! ?k) = None"
    using l(2) idk 2(10) T(1) by (simp add: opened_def ids_def)
  have "known T (length T) q1" using known_built [OF l(3)] 2(8) by simp
  from BuildTableScan_ok [OF b2 this T(1,2) r1 r2]
  have r: "re = SeqScan (ids T ! ?k) (length (all_tuple_desc q1)) 0" "opened st1 {ids T ! ?k} st'"
    "built q1 [T ! ?k] q'" by auto
  have len: "length (all_tuple_desc q1) = ?k" using l(3) 2(7) T(1) by (simp add: built_def)
  have tk: "take (Suc ?k) (ids T) = take ?k (ids T) @ [ids T ! ?k]" "take (Suc ?k) T = take ?k T @ [T ! ?k]"
    using T(1) by (simp_all add: take_Suc_conv_app_nth ids_def)
  have bq: "built q (take (Suc ?k) T) q'"
    using built_trans [OF l(3) r(3)] by (simp add: tk)
  have "refs_ok T (Suc ?k) p q'" using 2(5) joins_ok_built [OF bq] by (simp add: refs_ok_def bq [unfolded built_def])
  from BuildBooleanExpression_ok [OF b3 this] 2(4) T(1) have f: "bool_fits T (Suc ?k) be" by simp
  have n: "length (name2relation q') = length T" using bq 2(8) by (simp add: built_def known_def)
  have "plan_over T (Suc ?k) e"
    using l(1) f T(1) idk unfolding e r(1) len n
    by (auto simp: plan_over_def NestedLoopJoin_new_def bool_fits_def tk clean_TupleRow_new TupleRow_new_def
        db_typed_def lessThan_Suc clean_def)
  moreover have "opened st (set (take (Suc ?k) (ids T))) st'"
    using opened_trans [OF l(2) r(2)] by (simp add: tk)
  ultimately show ?case using bq by simp
qed auto

end
