(* ===== verification/Realizer_Select.thy ===== *)
theory Realizer_Select
  imports Realizer_Build
begin

section \<open>A SELECT statement from its tree to its plan\<close>

text \<open>
  \<open>Check\<close> and \<open>Build\<close> together: the output columns are those of the select list (or, for \<open>*\<close>, all
  columns of all tables in the order of the table names), and the plan with its projection is
  ready for \<open>ExecSelect\<close>.
\<close>

subsection \<open>The clauses\<close>

lemma check_all_exprs:
  "check_all (\<lambda>x. CheckExpressionBase (f x) type) xs q = Inr (kStateOK, q') \<Longrightarrow> known T m q \<Longrightarrow>
   slots_ok T m q \<Longrightarrow> distinct (map fst T) \<Longrightarrow>
   extends q q' \<and> slots_ok T m q' \<and> (\<forall>x \<in> set xs. refs_ok T m (f x) q')"
proof (induction xs arbitrary: q)
  case (Cons x xs)
  from Cons.prems(1) obtain q1 where c: "CheckExpressionBase (f x) type q = Inr (kStateOK, q1)"
    "check_all (\<lambda>x. CheckExpressionBase (f x) type) xs q1 = Inr (kStateOK, q')"
    by (auto split: if_splits)
  from CheckExpressionBase_ok [OF c(1) Cons.prems(2-4)] have 1: "extends q q1" "slots_ok T m q1"
    "refs_ok T m (f x) q1" by auto
  from Cons.IH [OF c(2) _ 1(2) Cons.prems(4)] known_extends [OF 1(1)] Cons.prems(2)
  have 2: "extends q1 q'" "slots_ok T m q'" "\<forall>x \<in> set xs. refs_ok T m (f x) q'" by auto
  show ?case using extends_trans [OF 1(1) 2(1)] refs_ok_extends [OF 2(1) 1(3)] 2 by simp
qed simp

lemma extends_order: "extends q (q\<lparr>opt_order_by_is_desc := d\<rparr>)"
  by (simp add: extends_def)

lemma CheckOrderBy_ok:
  "check_all (\<lambda>(e, d) q. CheckExpression_ptr e kOrderBy
     (q\<lparr>opt_order_by_is_desc := opt_order_by_is_desc q @ [d]\<rparr>)) os q = Inr (kStateOK, q') \<Longrightarrow>
   known T m q \<Longrightarrow> slots_ok T m q \<Longrightarrow> distinct (map fst T) \<Longrightarrow> extends q q'"
proof (induction os arbitrary: q)
  case (Cons o' os)
  obtain e d where o': "o' = (e, d)" by force
  let ?q = "q\<lparr>opt_order_by_is_desc := opt_order_by_is_desc q @ [d]\<rparr>"
  from Cons.prems(1) obtain x q1 where x: "e = Some x" "CheckExpressionBase x kOrderBy ?q = Inr (kStateOK, q1)"
    and c: "check_all (\<lambda>(e, d) q. CheckExpression_ptr e kOrderBy
     (q\<lparr>opt_order_by_is_desc := opt_order_by_is_desc q @ [d]\<rparr>)) os q1 = Inr (kStateOK, q')"
    by (auto simp: o' CheckExpression_ptr_def split: if_splits option.splits)
  have "known T m ?q" "slots_ok T m ?q" using Cons.prems by (simp_all add: known_def slots_ok_def)
  from CheckExpressionBase_ok [OF x(2) this Cons.prems(4)] have 1: "extends ?q q1" "slots_ok T m q1" by auto
  have e: "extends q q1" by (rule extends_trans [OF extends_order 1(1)])
  from Cons.IH [OF c _ 1(2) Cons.prems(4)] known_extends [OF e] Cons.prems(2) show ?case
    using extends_trans [OF e] by simp
qed simp

lemma CheckSelect_fst:
  "CheckSelect s q = check_all (\<lambda>t. CheckExpressionBase (fst t) kSelect) (select_list s) q"
  by (simp add: CheckSelect_def case_prod_unfold)

subsection \<open>Check\<close>

text \<open>The tables of a \<open>FROM\<close> clause with one factor.\<close>

definition from_tables :: "LevelStore \<Rightarrow> table_factor \<Rightarrow> tables" where
  "from_tables st tf = map (\<lambda>(n, t). (n, the (GetRelation st t))) (factor_tables tf)"

lemma fst_from_tables: "map fst (from_tables st tf) = map fst (factor_tables tf)"
  by (simp add: from_tables_def comp_def case_prod_beta)

lemma length_from_tables [simp]: "length (from_tables st tf) = length (factor_tables tf)"
  by (simp add: from_tables_def)

lemma CheckTableFactor_exist:
  "CheckTableFactor st tf q = Inr (kStateOK, q') \<Longrightarrow> left_deep tf \<Longrightarrow> (n, t) \<in> set (factor_tables tf) \<Longrightarrow>
   GetRelation st t \<noteq> None"
proof (induction tf arbitrary: q q' rule: left_deep.induct)
  case (2 l t' a p jt)
  then show ?case by (auto split: if_splits option.splits)
qed (auto split: if_splits option.splits)

lemma placed_from_tables:
  assumes "\<And>n t. (n, t) \<in> set (factor_tables tf) \<Longrightarrow> GetRelation st t \<noteq> None"
  shows "placed st (from_tables st tf) 0 (factor_tables tf)"
proof -
  have "GetRelation st (snd (factor_tables tf ! i)) \<noteq> None" if "i < length (factor_tables tf)" for i
    using assms [of "fst (factor_tables tf ! i)" "snd (factor_tables tf ! i)"] that by simp
  then show ?thesis by (auto simp: placed_def from_tables_def case_prod_beta)
qed

lemma known_new: "known T 0 QueryRealizer_new" and slots_ok_new: "slots_ok T 0 QueryRealizer_new"
  by (simp_all add: known_def slots_ok_def QueryRealizer_new_def)

lemma then_check_ok:
  "then_check m f = Inr (kStateOK, q') \<longleftrightarrow> (\<exists>q. m = Inr (kStateOK, q) \<and> f q = Inr (kStateOK, q'))"
  by (auto simp: then_check_def split: prod.splits if_splits)

lemma Check_ok:
  assumes "Check st (AST_Select s) QueryRealizer_new = Inr (kStateOK, q)"
    and tf: "table_reference s = [tf]" "left_deep tf" "distinct (map fst (factor_tables tf))"
  defines "T \<equiv> from_tables st tf"
  shows "known T (length T) q \<and> joins_ok T 0 tf q \<and> placed st T 0 (factor_tables tf) \<and>
    (\<forall>e \<in> set (opt_where s). refs_ok T (length T) e q) \<and>
    (\<forall>t \<in> set (select_list s). refs_ok T (length T) (fst t) q) \<and>
    all_tuple_desc q = [] \<and> output_row_desc q = [] \<and> projection_list q = [] \<and> all_iter q = []"
proof -
  let ?n = "length T"
  from assms(1) obtain q1 q2 q3 q4 where c: "CheckTableFactor st tf QueryRealizer_new = Inr (kStateOK, q1)"
    "check_all (\<lambda>e. CheckExpressionBase e kWhere) (opt_where s) q1 = Inr (kStateOK, q2)"
    "check_all (\<lambda>e. CheckExpressionBase e kGroupBy) (opt_group s) q2 = Inr (kStateOK, q3)"
    "check_all (\<lambda>t. CheckExpressionBase (fst t) kSelect) (select_list s) q3 = Inr (kStateOK, q4)"
    "CheckOrderBy s q4 = Inr (kStateOK, q)"
    by (auto simp: Check_def then_check_ok CheckFrom_def tf(1) CheckWhere_def CheckGroupBy_def CheckSelect_fst
        split: if_splits)
  have d: "distinct (map fst T)" using tf(3) by (simp add: T_def fst_from_tables)
  have pl: "placed st T 0 (factor_tables tf)"
    unfolding T_def by (rule placed_from_tables) (rule CheckTableFactor_exist [OF c(1) tf(2)])
  from CheckTableFactor_ok [OF c(1) tf(2) known_new slots_ok_new d pl]
  have 1: "known T ?n q1" "slots_ok T ?n q1" "joins_ok T 0 tf q1" "all_tuple_desc q1 = []"
    "output_row_desc q1 = []" "projection_list q1 = []" "all_iter q1 = []"
    by (auto simp: T_def QueryRealizer_new_def)
  from check_all_exprs [OF c(2) 1(1,2) d] have 2: "extends q1 q2" "slots_ok T ?n q2"
    "\<forall>e \<in> set (opt_where s). refs_ok T ?n e q2" by auto
  have k2: "known T ?n q2" using known_extends [OF 2(1)] 1(1) by simp
  from check_all_exprs [OF c(3) k2 2(2) d] have 3: "extends q2 q3" "slots_ok T ?n q3" by auto
  have k3: "known T ?n q3" using known_extends [OF 3(1)] k2 by simp
  from check_all_exprs [OF c(4) k3 3(2) d] have 4: "extends q3 q4" "slots_ok T ?n q4"
    "\<forall>t \<in> set (select_list s). refs_ok T ?n (fst t) q4" by auto
  have k4: "known T ?n q4" using known_extends [OF 4(1)] k3 by simp
  have 5: "extends q4 q" using CheckOrderBy_ok [OF c(5) [unfolded CheckOrderBy_def] k4 4(2) d] .
  have e2: "extends q2 q" using extends_trans [OF extends_trans [OF 3(1) 4(1)] 5] .
  have e1: "extends q1 q" using extends_trans [OF 2(1) e2] .
  show ?thesis
    using pl known_extends [OF e1] 1 2(3) 4(3) refs_ok_extends [OF e2] refs_ok_extends [OF 5]
      joins_ok_map_le [of q1 q T 0 tf] e1
    by (auto simp: extends_def)
qed

subsection \<open>Projection\<close>

text \<open>Output columns have been added to the realizer; nothing else has changed.\<close>

definition projected_cols :: "tables \<Rightarrow> QueryRealizer \<Rightarrow> QueryRealizer \<Rightarrow> bool" where
  "projected_cols T q q' \<longleftrightarrow> (\<exists>ds vs. output_row_desc q' = output_row_desc q @ ds \<and>
     projection_list q' = projection_list q @ vs \<and> attrs_typed (schema_of T) {..<length T} ds vs) \<and>
     name2relation q' = name2relation q \<and> name2tuple_index q' = name2tuple_index q \<and>
     name2slot q' = name2slot q \<and> all_tuple_desc q' = all_tuple_desc q \<and> all_iter q' = all_iter q"

lemma projected_cols_refl: "projected_cols T q q"
  unfolding projected_cols_def by (intro conjI exI [of _ "[]"]) (simp_all add: attrs_typed_def)

lemma attrs_typed_append:
  "attrs_typed \<Gamma> S ds vs \<Longrightarrow> attrs_typed \<Gamma> S ds' vs' \<Longrightarrow> attrs_typed \<Gamma> S (ds @ ds') (vs @ vs')"
  by (simp add: attrs_typed_def list_all2_appendI)

lemma projected_cols_trans:
  assumes "projected_cols T a b" and "projected_cols T b c"
  shows "projected_cols T a c"
proof -
  from assms(1) obtain ds vs where 1: "output_row_desc b = output_row_desc a @ ds"
    "projection_list b = projection_list a @ vs" "attrs_typed (schema_of T) {..<length T} ds vs"
    by (auto simp: projected_cols_def)
  from assms(2) obtain ds' vs' where 2: "output_row_desc c = output_row_desc b @ ds'"
    "projection_list c = projection_list b @ vs'" "attrs_typed (schema_of T) {..<length T} ds' vs'"
    by (auto simp: projected_cols_def)
  show ?thesis unfolding projected_cols_def
    using assms 1 2 attrs_typed_append [OF 1(3) 2(3)]
    by (intro conjI exI [of _ "ds @ ds'"] exI [of _ "vs @ vs'"]) (simp_all add: projected_cols_def)
qed

text \<open>One column: slot \<open>j\<close> of table \<open>k\<close>.\<close>

lemma projected_cols_one:
  assumes "all_tuple_desc q = map (\<lambda>t. Relation_ToDesc (snd t)) T" and "k < length T"
    and "j < length (attributes (snd (T ! k)))"
  shows "projected_cols T q (q\<lparr>projection_list := projection_list q @ [SlotReference t (int k) (int j)],
    output_row_desc := output_row_desc q @ [all_tuple_desc q ! k ! j]\<rparr>)"
  unfolding projected_cols_def using assms
  by (intro conjI exI [of _ "[all_tuple_desc q ! k ! j]"] exI [of _ "[SlotReference t (int k) (int j)]"])
    (simp_all add: attrs_typed_def schema_of_def Relation_ToDesc_def to_desc_from_nth)

lemma project_target_ok:
  assumes "project_target e q = Inr (kStateOK, q')" and "refs_ok T (length T) e q"
    and d: "all_tuple_desc q = map (\<lambda>t. Relation_ToDesc (snd t)) T"
  shows "projected_cols T q q'"
proof (cases e)
  case (ColumnReference r t c)
  with assms(2) obtain k j ty where s: "map_of (name2slot q) r = Some (SlotReference ty (int k) (int j))"
    and k: "k < length T" "j < length (attributes (snd (T ! k)))"
    by (auto simp: refs_ok_def slot_ok_def)
  have "q' = q\<lparr>projection_list := projection_list q @ [SlotReference ty (int k) (int j)],
      output_row_desc := output_row_desc q @ [all_tuple_desc q ! k ! j]\<rparr>"
    using assms(1) s k d
    by (auto simp: project_target_def ColumnReference RowDesc_GetColumnCount_def RowDesc_GetColumnDesc_def
        RowDesc_PushColumnDesc_def Relation_ToDesc_def Let_def nth_res_def split: if_splits)
  with projected_cols_one [OF d k] show ?thesis by simp
qed (use assms(1) in \<open>auto simp: project_target_def projected_cols_refl\<close>)

lemma project_targets_ok:
  "check_all (\<lambda>t. project_target (fst t)) ts q = Inr (kStateOK, q') \<Longrightarrow>
   \<forall>t \<in> set ts. refs_ok T (length T) (fst t) q \<Longrightarrow>
   all_tuple_desc q = map (\<lambda>t. Relation_ToDesc (snd t)) T \<Longrightarrow> projected_cols T q q'"
proof (induction ts arbitrary: q)
  case (Cons t ts)
  from Cons.prems(1) obtain q1 where c: "project_target (fst t) q = Inr (kStateOK, q1)"
    "check_all (\<lambda>t. project_target (fst t)) ts q1 = Inr (kStateOK, q')"
    by (auto split: if_splits)
  have 1: "projected_cols T q q1" using project_target_ok [OF c(1) _ Cons.prems(3)] Cons.prems(2) by simp
  then have "name2slot q1 = name2slot q" "all_tuple_desc q1 = all_tuple_desc q" by (auto simp: projected_cols_def)
  then have "projected_cols T q1 q'" using Cons.IH [OF c(2)] Cons.prems by (simp add: refs_ok_def)
  with projected_cols_trans [OF 1] show ?case .
qed (simp add: projected_cols_refl)

subsection \<open>All columns\<close>

lemma sint_of_nat_small: "n < 2 ^ 31 \<Longrightarrow> sint (of_nat n :: u32) = int n \<and> unat (of_nat n :: u32) = n"
  by (simp add: signed_of_nat signed_take_bit_int_eq_self_iff unat_of_nat)

lemma star_columns_ok:
  assumes "known T (length T) q" "distinct (map fst T)" "(n, rel) \<in> set (name2relation q)"
    and "relation_inv rel" "length (attributes rel) < 2 ^ 31"
  shows "star_columns n as q = Inr q' \<Longrightarrow> set as \<subseteq> set (attributes rel) \<Longrightarrow>
    all_tuple_desc q = map (\<lambda>t. Relation_ToDesc (snd t)) T \<Longrightarrow> projected_cols T q q'"
proof -
  from known_table [OF assms(1-3)] obtain k where k: "k < length T" "T ! k = (n, rel)"
    "map_of (name2tuple_index q) n = Some (int k)" .
  show "star_columns n as q = Inr q' \<Longrightarrow> set as \<subseteq> set (attributes rel) \<Longrightarrow>
    all_tuple_desc q = map (\<lambda>t. Relation_ToDesc (snd t)) T \<Longrightarrow> projected_cols T q q'"
    using k(3)
  proof (induction as arbitrary: q)
    case (Cons a as)
    from Cons.prems(2) obtain j where j: "j < length (attributes rel)" "attributes rel ! j = a"
      by (auto simp: in_set_conv_nth)
    with assms(4) have "attribute_index a = of_nat j" by (auto simp: relation_inv_def)
    moreover have "j < 2 ^ 31" using j(1) assms(5) by simp
    ultimately have i: "sint (attribute_index a) = int j" "unat (attribute_index a) = j"
      using sint_of_nat_small [of j] by simp_all
    let ?q = "q\<lparr>projection_list := projection_list q @ [SlotReference kDTBoolean (int k) (int j)],
      output_row_desc := output_row_desc q @ [all_tuple_desc q ! k ! j]\<rparr>"
    have "star_column n a q = Inr ?q"
      using Cons.prems(3,4) k j i
      by (simp add: star_column_def RowDesc_GetColumnDesc_def RowDesc_PushColumnDesc_def Relation_ToDesc_def)
    moreover have 1: "projected_cols T q ?q" by (rule projected_cols_one [OF Cons.prems(3) k(1)]) (simp add: k j)
    ultimately have "projected_cols T ?q q'"
      using Cons.IH [of ?q] Cons.prems by simp
    with projected_cols_trans [OF 1] show ?case .
  qed (simp add: projected_cols_refl)
qed

lemma star_relations_ok:
  "star_relations m q = Inr q' \<Longrightarrow> known T (length T) q \<Longrightarrow> distinct (map fst T) \<Longrightarrow>
   set m \<subseteq> set (name2relation q) \<Longrightarrow> \<forall>t \<in> set T. relation_inv (snd t) \<and> length (attributes (snd t)) < 2 ^ 31 \<Longrightarrow>
   all_tuple_desc q = map (\<lambda>t. Relation_ToDesc (snd t)) T \<Longrightarrow> projected_cols T q q'"
proof (induction m q arbitrary: q' rule: star_relations.induct)
  case (2 n rel m q)
  from 2(2) obtain q1 where c: "star_columns n (attributes rel) q = Inr q1" "star_relations m q1 = Inr q'" by auto
  have "(n, rel) \<in> set T" using 2(3,5) by (auto simp: known_def)
  then have r: "relation_inv rel" "length (attributes rel) < 2 ^ 31" using 2(6) by auto
  have m: "(n, rel) \<in> set (name2relation q)" using 2(5) by simp
  have 1: "projected_cols T q q1" using star_columns_ok [OF 2(3,4) m r c(1) _ 2(7)] by simp
  then have e: "name2relation q1 = name2relation q" "name2tuple_index q1 = name2tuple_index q"
    "all_tuple_desc q1 = all_tuple_desc q" by (auto simp: projected_cols_def)
  have "projected_cols T q1 q'" using 2(1) [OF c(2)] 2(3-7) e by (simp add: known_def)
  with projected_cols_trans [OF 1] show ?case .
qed (simp add: projected_cols_refl)

subsection \<open>Build\<close>

lemma BuildProjection_fst:
  "BuildProjection sel te q = then_check (check_all (\<lambda>t. project_target (fst t)) sel q) (\<lambda>q.
     bind_res (if sel = [] then star_relations (name2relation q) q else Inr q) (\<lambda>q.
     Inr (kStateOK, q\<lparr>top_exec := Some (Project_new te (projection_list q) (length (name2relation q)))\<rparr>)))"
  by (simp add: BuildProjection_def case_prod_unfold)

text \<open>What \<open>SELECT *\<close> needs of the relations.\<close>

definition star_ok :: "tables \<Rightarrow> bool" where
  "star_ok T \<longleftrightarrow> (\<forall>t \<in> set T. relation_inv (snd t) \<and> length (attributes (snd t)) < 2 ^ 31)"

lemma BuildProjection_ok:
  assumes "BuildProjection sel te q = Inr (kStateOK, q')"
    and "\<forall>t \<in> set sel. refs_ok T (length T) (fst t) q"
    and d: "all_tuple_desc q = map (\<lambda>t. Relation_ToDesc (snd t)) T"
    and k: "known T (length T) q" "distinct (map fst T)"
    and star: "sel = [] \<Longrightarrow> star_ok T"
    and empty: "projection_list q = []" "output_row_desc q = []"
  shows "top_exec q' = Some (Project_new te (projection_list q') (length T)) \<and>
    attrs_typed (schema_of T) {..<length T} (output_row_desc q') (projection_list q') \<and> all_iter q' = all_iter q"
proof -
  from assms(1) obtain q1 q2 where c: "check_all (\<lambda>t. project_target (fst t)) sel q = Inr (kStateOK, q1)"
    "(if sel = [] then star_relations (name2relation q1) q1 else Inr q1) = Inr q2"
    "q' = q2\<lparr>top_exec := Some (Project_new te (projection_list q2) (length (name2relation q2)))\<rparr>"
    by (auto simp: BuildProjection_fst then_check_ok)
  have 1: "projected_cols T q q1" by (rule project_targets_ok [OF c(1) assms(2) d])
  then have e: "name2relation q1 = name2relation q" "name2tuple_index q1 = name2tuple_index q"
    "all_tuple_desc q1 = all_tuple_desc q" by (auto simp: projected_cols_def)
  have "projected_cols T q1 q2"
  proof (cases "sel = []")
    case True
    with c(2) have "star_relations (name2relation q1) q1 = Inr q2" by simp
    then show ?thesis using star_relations_ok [of _ q1 q2 T] k d e star [OF True]
      by (simp add: known_def star_ok_def)
  qed (use c(2) projected_cols_refl in auto)
  from projected_cols_trans [OF 1 this] empty have
    "attrs_typed (schema_of T) {..<length T} (output_row_desc q2) (projection_list q2)"
    "name2relation q2 = name2relation q" "all_iter q2 = all_iter q" by (auto simp: projected_cols_def)
  with c(3) k show ?thesis by (simp add: known_def)
qed

text \<open>The statements covered: one factor, without negation, with different tables.\<close>

definition select_ok :: "LevelStore \<Rightarrow> select_stmt \<Rightarrow> table_factor \<Rightarrow> bool" where
  "select_ok st s tf \<longleftrightarrow> table_reference s = [tf] \<and> left_deep tf \<and> plain_joins tf \<and>
     list_all plain (opt_where s) \<and> distinct (map fst (factor_tables tf)) \<and>
     distinct (ids (from_tables st tf)) \<and> (select_list s = [] \<longrightarrow> star_ok (from_tables st tf))"

lemma plan_over_Select:
  "plan_over T (length T) e \<Longrightarrow> bool_fits T (length T) b \<Longrightarrow> plan_over T (length T) (Select e b)"
  by (auto simp: plan_over_def bool_fits_def)

lemma select_plan:
  assumes c: "Check st (AST_Select s) QueryRealizer_new = Inr (kStateOK, q)"
    and b: "Build st (AST_Select s) q = Inr (kStateOK, st', q')"
    and ok: "select_ok st s tf"
    and idle: "\<forall>i \<in> set (ids (from_tables st tf)). map_of (iterator_handler_map st) i = None"
  defines "T \<equiv> from_tables st tf"
  shows "\<exists>l. top_exec q' = Some (Project_new l (projection_list q') (length T)) \<and>
    plan_over T (length T) l \<and> opened st (set (ids T)) st' \<and>
    attrs_typed (schema_of T) (positions l) (output_row_desc q') (projection_list q') \<and>
    all_iter q' = map IO_iterator (ids T)"
proof -
  let ?n = "length T"
  from ok have t: "table_reference s = [tf]" "left_deep tf" "plain_joins tf" "list_all plain (opt_where s)"
    "distinct (map fst (factor_tables tf))" "distinct (ids T)" "select_list s = [] \<Longrightarrow> star_ok T"
    by (auto simp: select_ok_def T_def)
  have d: "distinct (map fst T)" using t(5) by (simp add: T_def fst_from_tables)
  from Check_ok [OF c t(1,2,5), folded T_def] have k: "known T ?n q" "joins_ok T 0 tf q"
    "placed st T 0 (factor_tables tf)" "\<forall>e \<in> set (opt_where s). refs_ok T ?n e q"
    "\<forall>t \<in> set (select_list s). refs_ok T ?n (fst t) q" "all_tuple_desc q = []"
    "output_row_desc q = []" "projection_list q = []" "all_iter q = []" by auto
  from b obtain e q1 te where b1: "BuildJoin st q tf = Inr (e, st', q1)"
    and b2: "(case opt_where s of [] \<Rightarrow> Inr (Some e) | w # _ \<Rightarrow> BuildSelect w e q1) = Inr (Some te)"
    and b3: "BuildProjection (select_list s) te (q1\<lparr>top_exec := Some te\<rparr>) = Inr (kStateOK, q')"
    by (auto simp: Build_def BuildJoin_list_def t(1) split: option.splits if_splits)
  have len: "length (factor_tables tf) = ?n" by (simp add: T_def)
  have "take ?n (ids T) = ids T" by (simp add: ids_def)
  with BuildJoin_ok [OF b1 t(2,3) k(2,3,6,1) t(6)] idle [folded T_def]
  have j: "plan_over T ?n e" "opened st (set (ids T)) st'"
    "built q T q1" by (simp_all add: len Let_def)
  have q1: "name2slot q1 = name2slot q" using j(3) by (simp add: built_def)
  have p: "plan_over T ?n te"
  proof (cases "opt_where s")
    case (Cons w ws)
    with b2 obtain be where be: "BuildBooleanExpression q1 w = Inr (Some be)" "te = Select e be"
      by (auto simp: BuildSelect_def)
    have "refs_ok T ?n w q1" using k(4) Cons q1 by (simp add: refs_ok_def)
    from BuildBooleanExpression_ok [OF be(1) this] t(4) Cons have "bool_fits T ?n be" by simp
    with plan_over_Select [OF j(1)] be(2) show ?thesis by simp
  qed (use b2 j in simp)
  let ?q1 = "q1\<lparr>top_exec := Some te\<rparr>"
  have "top_exec q' = Some (Project_new te (projection_list q') ?n) \<and>
      attrs_typed (schema_of T) {..<?n} (output_row_desc q') (projection_list q') \<and> all_iter q' = all_iter ?q1"
  proof (rule BuildProjection_ok [OF b3])
    show "\<forall>t \<in> set (select_list s). refs_ok T ?n (fst t) ?q1" using k(5) q1 by (simp add: refs_ok_def)
    show "known T ?n ?q1" using k(1) j(3) by (simp add: known_def built_def)
  qed (use j(3) k d t(7) in \<open>simp_all add: built_def\<close>)
  moreover have "positions te = {..<?n}" using p by (simp add: plan_over_def)
  moreover have "all_iter q1 = map IO_iterator (ids T)" using j(3) k(9) by (simp add: built_def ids_def)
  ultimately show ?thesis using p j(2) by (intro exI [of _ te]) simp
qed

end
