(* ===== verification/Csv.thy ===== *)
theory Csv
  imports DB_Prelude "HOL-Library.Sublist"
begin

section \<open>Comma-separated text\<close>

text \<open>
  Models the file streams of \<^verbatim>\<open>include/common/minicsv.h\<close>, which \<open>COPY\<close> reads and writes tables with.
  An input stream of the standard library is the text that is left with its two flags. The text
  of a number is what the standard formatted output and input operators make of it.
\<close>

subsection \<open>Strings\<close>

text \<open>\<open>replace\<close> for a pattern that is not empty, from left to right.\<close>

function replace :: "string \<Rightarrow> string \<Rightarrow> string \<Rightarrow> string" where
  "replace [] pat new = []"
| "replace (c # cs) pat new =
     (if pat \<noteq> [] \<and> prefix pat (c # cs) then new @ replace (drop (length pat) (c # cs)) pat new
      else c # replace cs pat new)"
  by pat_completeness auto
termination
  by (relation "measure (\<lambda>(s, _, _). length s)") (auto simp: neq_Nil_conv)

definition trim_right :: "string \<Rightarrow> string \<Rightarrow> string" where
  "trim_right s chars = (if list_all (\<lambda>c. c \<in> set chars) s then s
     else rev (dropWhile (\<lambda>c. c \<in> set chars) (rev s)))"

definition trim_left :: "string \<Rightarrow> string \<Rightarrow> string" where
  "trim_left s chars = (if list_all (\<lambda>c. c \<in> set chars) s then s
     else dropWhile (\<lambda>c. c \<in> set chars) s)"

definition trim :: "string \<Rightarrow> string \<Rightarrow> string" where
  "trim s chars = trim_left (trim_right s chars) chars"

subsection \<open>Reading\<close>

record istream =
  rest :: string
  eofbit :: bool
  failbit :: bool

text \<open>\<open>std::getline\<close>: the line without its newline; nothing on a stream that is not good.\<close>

definition getline :: "istream \<Rightarrow> string \<Rightarrow> string \<times> istream" where
  "getline s old =
     (if eofbit s \<or> failbit s then (old, s\<lparr>failbit := True\<rparr>)
      else let line = takeWhile (\<lambda>c. c \<noteq> CHR 0x0A) (rest s);
               more = drop (length line) (rest s) in
        case more of
          [] \<Rightarrow> (line, s\<lparr>rest := [], eofbit := True, failbit := (line = [])\<rparr>)
        | _ # more \<Rightarrow> (line, s\<lparr>rest := more\<rparr>))"

record csv_in =
  istm :: istream
  csv_str :: string
  csv_pos :: nat
  in_delimiter :: char
  unescape_str :: string
  trim_quote_on_str :: bool
  trim_quote :: char
  terminate_on_blank_line :: bool
  quote_unescape :: string
  has_bom :: bool
  first_line_read :: bool
  line_num :: nat
  token_num :: nat

text \<open>
  \<open>open\<close> of a file that exists. \<open>read_bom\<close> reads three bytes and seeks back; a file that is
  shorter leaves the stream failed, and \<open>seekg\<close> then only clears the end-of-file flag.
\<close>

definition BOM_hit :: "string \<Rightarrow> bool" where
  "BOM_hit content = (let tt = take 3 content @ replicate (3 - length content) (CHR 0x00) in
     tt ! 0 = CHR 0xEF \<or> tt ! 1 = CHR 0xBB \<or> tt ! 2 = CHR 0xBF)"

definition csv_open :: "string \<Rightarrow> csv_in" where
  "csv_open content = \<lparr>
     istm = (if length content < 3 then \<lparr>rest = [], eofbit = False, failbit = True\<rparr>
             else \<lparr>rest = content, eofbit = False, failbit = False\<rparr>),
     csv_str = [], csv_pos = 0, in_delimiter = CHR '','', unescape_str = ''##'',
     trim_quote_on_str = False, trim_quote = CHR 0x22, terminate_on_blank_line = True,
     quote_unescape = ''&quot;'', has_bom = BOM_hit content, first_line_read = False,
     line_num = 0, token_num = 0\<rparr>"

definition set_in_delimiter :: "csv_in \<Rightarrow> char \<Rightarrow> string \<Rightarrow> csv_in" where
  "set_in_delimiter c d u = c\<lparr>in_delimiter := d, unescape_str := u\<rparr>"

text \<open>
  The loop of \<open>read_line\<close>. \<open>substr(3)\<close> of a first line that is shorter throws \<open>std::out_of_range\<close>,
  which nothing catches.
\<close>

fun read_line_loop :: "nat \<Rightarrow> csv_in \<Rightarrow> (bool \<times> csv_in) res" where
  "read_line_loop 0 c = Inl Out_of_fuel"
| "read_line_loop (Suc k) c =
     (if eofbit (istm c) then Inr (False, c)
      else let (line, s) = getline (istm c) (csv_str c);
               first = \<not> first_line_read c;
               c = c\<lparr>istm := s, csv_str := line, csv_pos := 0, first_line_read := True\<rparr> in
        if first \<and> has_bom c \<and> length line < 3 then Inl Process_exit
        else let c = (if first \<and> has_bom c then c\<lparr>csv_str := drop 3 line\<rparr> else c) in
          if csv_str c = [] then
            (if terminate_on_blank_line c then Inr (False, c) else read_line_loop k c)
          else Inr (True, c\<lparr>line_num := line_num c + 1, token_num := 0\<rparr>))"

definition read_line :: "nat \<Rightarrow> csv_in \<Rightarrow> (bool \<times> csv_in) res" where
  "read_line k c = read_line_loop k (c\<lparr>csv_str := []\<rparr>)"

definition csv_unescape :: "csv_in \<Rightarrow> string \<Rightarrow> string" where
  "csv_unescape c src =
     (let src = (if unescape_str c = [] then src else replace src (unescape_str c) [in_delimiter c]) in
      if trim_quote_on_str c then replace (trim src [trim_quote c]) (quote_unescape c) [trim_quote c]
      else src)"

text \<open>
  The loop of \<open>get_delimited_str\<close> over the characters from \<open>pos\<close> on, with the character before
  them: the token, and the position after it unless the line has ended.
\<close>

fun scan_token :: "csv_in \<Rightarrow> bool \<Rightarrow> char option \<Rightarrow> string \<Rightarrow> nat \<Rightarrow> string \<Rightarrow> string \<times> nat option" where
  "scan_token c within prev [] p acc = (acc, None)"
| "scan_token c within prev (ch # cs) p acc =
     (let within = (if trim_quote_on_str c then
            (if \<not> within \<and> ch = trim_quote c \<and> (prev = None \<or> prev = Some (in_delimiter c)) then True
             else if within \<and> ch = trim_quote c then False else within)
          else within) in
      if ch = in_delimiter c \<and> \<not> within then (acc, Some (p + 1))
      else if ch = CHR 0x0D \<or> ch = CHR 0x0A then (acc, Some (p + 1))
      else scan_token c within (Some ch) cs (p + 1) (acc @ [ch]))"

definition get_delimited_str :: "csv_in \<Rightarrow> string \<times> csv_in" where
  "get_delimited_str c =
     (let (token, next) = scan_token c False (if csv_pos c = 0 then None else Some (csv_str c ! (csv_pos c - 1)))
            (drop (csv_pos c) (csv_str c)) (csv_pos c) [] in
      (csv_unescape c token,
       (case next of None \<Rightarrow> c\<lparr>csv_pos := max (csv_pos c) (length (csv_str c)), csv_str := [],
                               token_num := token_num c + 1\<rparr>
        | Some p \<Rightarrow> c\<lparr>csv_pos := p, token_num := token_num c + 1\<rparr>)))"

text \<open>Formatted input of a 64-bit integer: white space, a sign, digits; a value out of range fails.\<close>

definition is_space :: "char \<Rightarrow> bool" where
  "is_space c \<longleftrightarrow> (of_char c :: nat) \<in> {9, 10, 11, 12, 13, 32}"

definition is_digit :: "char \<Rightarrow> bool" where
  "is_digit c \<longleftrightarrow> 48 \<le> (of_char c :: nat) \<and> (of_char c :: nat) \<le> 57"

definition read_int64 :: "string \<Rightarrow> int option" where
  "read_int64 s =
     (let s = dropWhile is_space s;
          neg = (case s of c # _ \<Rightarrow> c = CHR ''-'' | [] \<Rightarrow> False);
          s = (case s of c # cs \<Rightarrow> if c = CHR ''-'' \<or> c = CHR ''+'' then cs else s | [] \<Rightarrow> []);
          ds = takeWhile is_digit s in
      if ds = [] then None
      else let v = (if neg then - int (nat_value ds) else int (nat_value ds)) in
        if - (2 ^ 63) \<le> v \<and> v < 2 ^ 63 then Some v else None)"

subsection \<open>Writing\<close>

record csv_out =
  ostm :: string
  after_newline :: bool
  out_delimiter :: char
  escape_str :: string
  surround_quote_on_str :: bool
  surround_quote :: char
  quote_escape :: string

definition csv_create :: csv_out where
  "csv_create = \<lparr>ostm = [], after_newline = True, out_delimiter = CHR '','', escape_str = ''##'',
     surround_quote_on_str = False, surround_quote = CHR 0x22, quote_escape = ''&quot;''\<rparr>"

definition set_out_delimiter :: "csv_out \<Rightarrow> char \<Rightarrow> string \<Rightarrow> csv_out" where
  "set_out_delimiter c d e = c\<lparr>out_delimiter := d, escape_str := e\<rparr>"

definition csv_escape :: "csv_out \<Rightarrow> string \<Rightarrow> string" where
  "csv_escape c src = (if escape_str c = [] then src else replace src [out_delimiter c] (escape_str c))"

definition escape_and_output :: "csv_out \<Rightarrow> string \<Rightarrow> csv_out" where
  "escape_and_output c src = c\<lparr>ostm := ostm c @ csv_escape c src\<rparr>"

definition escape_str_and_output :: "csv_out \<Rightarrow> string \<Rightarrow> csv_out" where
  "escape_str_and_output c src =
     (let src = csv_escape c src in
      if surround_quote_on_str c then
        let src = (if quote_escape c \<noteq> [] then replace src [surround_quote c] (quote_escape c) else src) in
        c\<lparr>ostm := ostm c @ [surround_quote c] @ src @ [surround_quote c]\<rparr>
      else c\<lparr>ostm := ostm c @ src\<rparr>)"

text \<open>The output operators: for values that are formatted first, for strings, for a character.\<close>

definition put_separator :: "csv_out \<Rightarrow> csv_out" where
  "put_separator c = (if after_newline c then c else c\<lparr>ostm := ostm c @ [out_delimiter c]\<rparr>)"

definition csv_put_text :: "csv_out \<Rightarrow> string \<Rightarrow> csv_out" where
  "csv_put_text c text = (escape_and_output (put_separator c) text)\<lparr>after_newline := False\<rparr>"

definition csv_put_string :: "csv_out \<Rightarrow> string \<Rightarrow> csv_out" where
  "csv_put_string c val = (escape_str_and_output (put_separator c) val)\<lparr>after_newline := False\<rparr>"

definition csv_put_char :: "csv_out \<Rightarrow> char \<Rightarrow> csv_out" where
  "csv_put_char c ch =
     (if ch = CHR 0x0A then c\<lparr>ostm := ostm c @ [ch], after_newline := True\<rparr>
      else escape_and_output c [ch])"

subsection \<open>Escaping\<close>

lemma replace_single:
  "replace s [d] e = concat (map (\<lambda>c. if c = d then e else [c]) s)"
  by (induction s) auto

text \<open>An escape sequence whose first character occurs nowhere in the text is undone.\<close>

lemma replace_undo:
  assumes "e = x # e'" and "x \<notin> set s"
  shows "replace (concat (map (\<lambda>c. if c = d then e else [c]) s)) e [d] = s"
  using assms(2)
proof (induction s)
  case (Cons c s)
  show ?case
  proof (cases "c = d")
    case True
    then show ?thesis using Cons assms(1) by simp
  next
    case False
    then show ?thesis using Cons assms(1) by auto
  qed
qed simp

lemma escape_undo: "e = x # e' \<Longrightarrow> x \<notin> set s \<Longrightarrow> replace (replace s [d] e) e [d] = s"
  by (simp add: replace_single replace_undo)

lemma set_escape: "set (replace s [d] e) \<subseteq> (set s - {d}) \<union> set e"
  by (auto simp: replace_single split: if_splits)

subsection \<open>Rows\<close>

text \<open>Reader and writer agree on the delimiter and the escape string, and quoting is off.\<close>

definition plain_csv :: "char \<Rightarrow> string \<Rightarrow> csv_in \<Rightarrow> bool" where
  "plain_csv d e c \<longleftrightarrow> in_delimiter c = d \<and> unescape_str c = e \<and> \<not> trim_quote_on_str c"

definition escape_ok :: "char \<Rightarrow> string \<Rightarrow> bool" where
  "escape_ok d e \<longleftrightarrow> e \<noteq> [] \<and> d \<notin> set e \<and> CHR 0x0D \<notin> set e \<and> CHR 0x0A \<notin> set e \<and>
     d \<noteq> CHR 0x0D \<and> d \<noteq> CHR 0x0A"

definition token_ok :: "string \<Rightarrow> string \<Rightarrow> bool" where
  "token_ok e t \<longleftrightarrow> hd e \<notin> set t \<and> CHR 0x0D \<notin> set t \<and> CHR 0x0A \<notin> set t"

fun row_line :: "char \<Rightarrow> string \<Rightarrow> string list \<Rightarrow> string" where
  "row_line d e [] = []"
| "row_line d e [t] = replace t [d] e"
| "row_line d e (t # ts) = replace t [d] e @ [d] @ row_line d e ts"

lemma scan_token_delim:
  "\<not> trim_quote_on_str c \<Longrightarrow> in_delimiter c = d \<Longrightarrow> d \<notin> set t \<Longrightarrow> CHR 0x0D \<notin> set t \<Longrightarrow> CHR 0x0A \<notin> set t \<Longrightarrow>
   scan_token c False prev (t @ d # r) p acc = (acc @ t, Some (p + length t + 1))"
  by (induction t arbitrary: prev p acc) (auto simp: Let_def)

lemma scan_token_end:
  "\<not> trim_quote_on_str c \<Longrightarrow> in_delimiter c \<notin> set t \<Longrightarrow> CHR 0x0D \<notin> set t \<Longrightarrow> CHR 0x0A \<notin> set t \<Longrightarrow>
   scan_token c False prev t p acc = (acc @ t, None)"
  by (induction t arbitrary: prev p acc) (auto simp: Let_def)

lemma escaped_plain:
  assumes "escape_ok d e" "token_ok e t"
  shows "d \<notin> set (replace t [d] e)" "CHR 0x0D \<notin> set (replace t [d] e)" "CHR 0x0A \<notin> set (replace t [d] e)"
  using assms set_escape [of t d e] by (auto simp: escape_ok_def token_ok_def)

lemma csv_unescape_escape:
  assumes "plain_csv d e c" "escape_ok d e" "token_ok e t"
  shows "csv_unescape c (replace t [d] e) = t"
proof -
  from assms(2) obtain x e' where "e = x # e'" by (cases e) (auto simp: escape_ok_def)
  with assms escape_undo [of e x e' t d] show ?thesis
    by (auto simp: csv_unescape_def plain_csv_def token_ok_def)
qed

lemma get_delimited_next:
  assumes "plain_csv d e c" "escape_ok d e" "token_ok e t"
    and "drop (csv_pos c) (csv_str c) = replace t [d] e @ d # r"
  shows "get_delimited_str c = (t, c\<lparr>csv_pos := csv_pos c + length (replace t [d] e) + 1,
    token_num := token_num c + 1\<rparr>)"
  using assms escaped_plain [OF assms(2,3)]
  by (simp add: get_delimited_str_def scan_token_delim plain_csv_def csv_unescape_escape [OF assms(1-3)])

lemma get_delimited_last:
  assumes "plain_csv d e c" "escape_ok d e" "token_ok e t"
    and "drop (csv_pos c) (csv_str c) = replace t [d] e"
  shows "\<exists>c'. get_delimited_str c = (t, c') \<and> istm c' = istm c \<and> plain_csv d e c' \<and>
    terminate_on_blank_line c' = terminate_on_blank_line c \<and> has_bom c' = has_bom c \<and>
    first_line_read c' = first_line_read c"
  using assms escaped_plain [OF assms(2,3)]
  by (simp add: get_delimited_str_def scan_token_end plain_csv_def csv_unescape_escape [OF assms(1-3)])

fun get_tokens :: "nat \<Rightarrow> csv_in \<Rightarrow> string list \<times> csv_in" where
  "get_tokens 0 c = ([], c)"
| "get_tokens (Suc n) c =
     (let (t, c) = get_delimited_str c; (ts, c) = get_tokens n c in (t # ts, c))"

text \<open>A line that was written is read back, token by token.\<close>

lemma get_tokens_row:
  "plain_csv d e c \<Longrightarrow> escape_ok d e \<Longrightarrow> list_all (token_ok e) ts \<Longrightarrow> ts \<noteq> [] \<Longrightarrow>
   drop (csv_pos c) (csv_str c) = row_line d e ts \<Longrightarrow>
   \<exists>c'. get_tokens (length ts) c = (ts, c') \<and> istm c' = istm c \<and> plain_csv d e c' \<and>
     terminate_on_blank_line c' = terminate_on_blank_line c \<and> has_bom c' = has_bom c \<and>
     first_line_read c' = first_line_read c"
proof (induction d e ts arbitrary: c rule: row_line.induct)
  case (2 d e t)
  then show ?case using get_delimited_last [of d e c t] by auto
next
  case (3 d e t t' ts)
  let ?c = "c\<lparr>csv_pos := csv_pos c + length (replace t [d] e) + 1, token_num := token_num c + 1\<rparr>"
  have dr: "drop (csv_pos c) (csv_str c) = replace t [d] e @ d # row_line d e (t' # ts)" using 3(6) by simp
  then have g: "get_delimited_str c = (t, ?c)" using get_delimited_next [of d e c t] 3 by simp
  have "drop (csv_pos ?c) (csv_str ?c) = drop (length (replace t [d] e) + 1) (drop (csv_pos c) (csv_str c))"
    by (simp add: add.commute)
  then have "drop (csv_pos ?c) (csv_str ?c) = row_line d e (t' # ts)" unfolding dr by simp
  moreover have "plain_csv d e ?c" using 3(2) by (simp add: plain_csv_def)
  ultimately obtain c' where "get_tokens (length (t' # ts)) ?c = (t' # ts, c') \<and> istm c' = istm ?c \<and>
      plain_csv d e c' \<and> terminate_on_blank_line c' = terminate_on_blank_line ?c \<and> has_bom c' = has_bom ?c \<and>
      first_line_read c' = first_line_read ?c"
    using 3(1) [of ?c] 3(3,4) by auto
  then show ?case using g by auto
qed simp

text \<open>The reader at a line that is not empty.\<close>

lemma read_line_next:
  assumes "rest (istm c) = line @ CHR 0x0A # left" "line \<noteq> []" "CHR 0x0A \<notin> set line"
    and "\<not> eofbit (istm c)" "\<not> failbit (istm c)" "\<not> has_bom c"
  shows "read_line (Suc k) c = Inr (True, c\<lparr>istm := (istm c)\<lparr>rest := left\<rparr>, csv_str := line, csv_pos := 0,
    first_line_read := True, line_num := line_num c + 1, token_num := 0\<rparr>)"
proof -
  have "takeWhile (\<lambda>c. c \<noteq> CHR 0x0A) (line @ CHR 0x0A # left) = line"
    using assms(3) by (subst takeWhile_append2) auto
  then have "getline (istm c) [] = (line, (istm c)\<lparr>rest := left\<rparr>)"
    using assms by (simp add: getline_def)
  then show ?thesis using assms by (simp add: read_line_def Let_def)
qed

lemma read_line_end:
  assumes "rest (istm c) = []" "\<not> has_bom c" "terminate_on_blank_line c"
  shows "\<exists>c'. read_line (Suc k) c = Inr (False, c')"
  using assms by (auto simp: read_line_def getline_def Let_def)

text \<open>A file of fewer than three characters is read as if it were empty.\<close>

lemma short_file_empty:
  assumes "length content < 3" "\<not> BOM_hit content"
  shows "\<exists>c'. read_line (Suc k) (csv_open content) = Inr (False, c')"
  using assms by (auto simp: read_line_def csv_open_def getline_def Let_def)

text \<open>Integers.\<close>

lemma is_digit_char: "d < 10 \<Longrightarrow> is_digit (digit_char d) \<and> \<not> is_space (digit_char d)"
  by (simp add: is_digit_def is_space_def digit_char_def)

lemma show_nat_is_digit: "\<forall>c \<in> set (show_nat n). is_digit c"
  using show_nat_digits [of n] is_digit_char by auto

lemma read_int64_show:
  assumes "- (2 ^ 63) \<le> i" "i < 2 ^ 63"
  shows "read_int64 (show_int i) = Some i"
proof -
  have d: "takeWhile is_digit (show_nat n) = show_nat n" for n
    using show_nat_is_digit [of n] by (simp add: takeWhile_eq_all_conv)
  obtain c cs where c: "c < 10" "show_nat (nat i) = digit_char c # cs" using show_nat_Cons by blast
  have p: "digit_char c \<noteq> CHR ''+''"
    using is_digit_char [OF c(1)] by (auto simp: is_digit_def)
  show ?thesis
  proof (cases "i < 0")
    case True
    then have "show_int i = CHR ''-'' # show_nat (nat (- i))" by (simp add: show_int_def)
    moreover have "show_nat (nat (- i)) \<noteq> []" using show_nat_Cons [of "nat (- i)"] by auto
    moreover have "\<not> is_space (CHR ''-'')" by (simp add: is_space_def)
    ultimately show ?thesis using True assms
      by (simp add: read_int64_def Let_def nat_value_show_nat d)
  next
    case False
    then have s: "show_int i = show_nat (nat i)" by (simp add: show_int_def)
    have "dropWhile is_space (show_nat (nat i)) = show_nat (nat i)"
      using c is_digit_char [OF c(1)] by simp
    then show ?thesis using False assms c p digit_char_not_minus [OF c(1)]
      nat_value_show_nat [of "nat i"] d [of "nat i", unfolded c(2)] by (simp add: read_int64_def Let_def s)
  qed
qed

end
