(* ===== verification/Copy.thy ===== *)
theory Copy
  imports Csv Level_Store Executor
begin

section \<open>The commands of COPY and INSERT\<close>

text \<open>
  Models \<^verbatim>\<open>executor/load.cpp\<close>, \<^verbatim>\<open>executor/export.cpp\<close> and \<^verbatim>\<open>executor/insert_value.cpp\<close>. Files are a map
  from paths to contents. The text of a \<open>double\<close> and boost's reading of dates are parameters.
\<close>

record text_ops =
  show_double :: "u64 \<Rightarrow> string"
  read_double :: "string \<Rightarrow> u64 option"
  date_subsec :: "string \<Rightarrow> u64 res"

type_synonym file_system = "string \<Rightarrow> string option"

subsection \<open>Load\<close>

record Load =
  ld_batch :: "u32 option"
  ld_is :: "csv_in option"
  ld_rel_name :: string
  ld_csv :: string
  ld_delimiter :: char
  ld_tuple :: raw_tuple
  ld_response :: string

definition Load_new :: "nat \<Rightarrow> string \<Rightarrow> string \<Rightarrow> char \<Rightarrow> Load" where
  "Load_new page_size path rname delimiter =
     \<lparr>ld_batch = None, ld_is = None, ld_rel_name = rname, ld_csv = path, ld_delimiter = delimiter,
      ld_tuple = CreateTuple page_size, ld_response = []\<rparr>"

definition Load_Prepare :: "file_system \<Rightarrow> Load \<Rightarrow> State \<times> Load" where
  "Load_Prepare fs ld =
     (case fs (ld_csv ld) of
        None \<Rightarrow> (kStateOpenFileError, ld\<lparr>ld_response := ''file is already open.''\<rparr>)
      | Some content \<Rightarrow>
          (kStateOK, ld\<lparr>ld_is := Some (set_in_delimiter (csv_open content) (ld_delimiter ld) ''$$'')\<rparr>))"

text \<open>The bytes of the next column, by its type. A failed conversion throws \<open>std::runtime_error\<close>.\<close>

definition load_value :: "text_ops \<Rightarrow> DataType \<Rightarrow> csv_in \<Rightarrow> (byte list \<times> csv_in) res" where
  "load_value ops t c =
     (let (str, c') = get_delimited_str c in
      case t of
        kDTInteger \<Rightarrow> (case read_int64 str of None \<Rightarrow> Inl Cxx_exception
                     | Some v \<Rightarrow> Inr (le_bytes 8 (word_of_int v :: u64), c'))
      | kDTFloat \<Rightarrow> (case read_double ops str of None \<Rightarrow> Inl Cxx_exception
                   | Some v \<Rightarrow> Inr (le_bytes 8 v, c'))
      | kDTVarchar \<Rightarrow> Inr (bytes_of str, c')
      | kDTDate \<Rightarrow> bind_res (date_subsec ops str) (\<lambda>v. Inr (le_bytes 8 v, c'))
      | _ \<Rightarrow> Inl Assert_failed)"

text \<open>The loop over the columns of a row.\<close>

fun load_columns :: "text_ops \<Rightarrow> RowDesc \<Rightarrow> nat \<Rightarrow> u32 \<Rightarrow> raw_tuple \<Rightarrow> csv_in \<Rightarrow> (u32 \<times> raw_tuple \<times> csv_in) res" where
  "load_columns ops [] i off tuple c = Inr (off, tuple, c)"
| "load_columns ops (col # cols) i off tuple c =
     bind_res (load_value ops (data_type col) c) (\<lambda>(v, c).
     bind_res (set_slot_offset tuple i (ucast off)) (\<lambda>tuple.
     bind_res (set_slot_length tuple i (of_nat (length v))) (\<lambda>tuple.
     bind_res (RawTuple_SetValue tuple (unat off) (map Some v)) (\<lambda>tuple.
     load_columns ops cols (Suc i) (off + of_nat (length v)) tuple c))))"

text \<open>The body of the loop over the lines: a row is put into the batch.\<close>

definition load_row :: "text_ops \<Rightarrow> RowDesc \<Rightarrow> u32 \<Rightarrow> raw_tuple \<Rightarrow> csv_in \<Rightarrow> LevelStore \<Rightarrow>
    (raw_tuple \<times> csv_in \<times> LevelStore) res" where
  "load_row ops desc relid tuple c st =
     bind_res (load_columns ops desc 0 (of_nat (sizeof_Slot * length desc)) tuple c) (\<lambda>(off, tuple, c).
     if \<not> off > 0 then Inl Assert_failed
     else bind_res (deref (unat off) tuple) (\<lambda>t.
       bind_res (WriteHandler_Put st relid t) (\<lambda>st. Inr (tuple, c, st))))"

text \<open>
  The loop. The exception of a conversion ends it with an error; the rows before it stay in the
  batch of the handler.
\<close>

fun load_lines :: "text_ops \<Rightarrow> RowDesc \<Rightarrow> u32 \<Rightarrow> nat \<Rightarrow> nat \<Rightarrow> raw_tuple \<Rightarrow> csv_in \<Rightarrow> LevelStore \<Rightarrow>
    (nat option \<times> raw_tuple \<times> csv_in \<times> LevelStore) res" where
  "load_lines ops desc relid 0 cnt tuple c st = Inl Out_of_fuel"
| "load_lines ops desc relid (Suc k) cnt tuple c st =
     bind_res (read_line (Suc k) c) (\<lambda>(got, c).
     if \<not> got then Inr (Some cnt, tuple, c, st)
     else case load_row ops desc relid tuple c st of
         Inl Cxx_exception \<Rightarrow> Inr (None, tuple, c, st)
       | Inl f \<Rightarrow> Inl f
       | Inr (tuple, c, st) \<Rightarrow> load_lines ops desc relid k (Suc cnt) tuple c st)"

definition Load_Exec :: "text_ops \<Rightarrow> bool \<Rightarrow> nat \<Rightarrow> Load \<Rightarrow> LevelStore \<Rightarrow> (State \<times> Load \<times> LevelStore) res" where
  "Load_Exec ops io_ok fuel ld st =
     (case GetRelation st (ld_rel_name ld) of
        None \<Rightarrow> Inr (kStateRelationNotFound, ld, st)
      | Some rel \<Rightarrow>
          let desc = Relation_ToDesc rel; relid = relation_id rel in
          bind_res (NewWriteHandler st relid) (\<lambda>st.
          let ld = ld\<lparr>ld_batch := Some relid\<rparr> in
          bind_res (case ld_is ld of None \<Rightarrow> Inl Uninitialised | Some c \<Rightarrow> Inr c) (\<lambda>c.
          bind_res (load_lines ops desc relid fuel 0 (ld_tuple ld) c st) (\<lambda>(n, tuple, c, st).
          let ld = ld\<lparr>ld_tuple := tuple, ld_is := Some c\<rparr> in
          case n of
            None \<Rightarrow> Inr (kStateLoadError,
              ld\<lparr>ld_response := ''copy to relation '' @ ld_rel_name ld @ '' failed.''\<rparr>, st)
          | Some rows \<Rightarrow>
              bind_res (WriteHandler_Commit io_ok st relid) (\<lambda>(ok, st).
              if \<not> ok then Inl Assert_failed
              else Inr (kStateOK, ld\<lparr>ld_response := ''copy '' @ show_nat rows @ '' to relation '' @
                     ld_rel_name ld @ ''.''\<rparr>, st))))))"

text \<open>The destructor gives the handler back, also when there is none.\<close>

definition Load_delete :: "Load \<Rightarrow> LevelStore \<Rightarrow> LevelStore res" where
  "Load_delete ld st =
     DeleteIOObject st (case ld_batch ld of None \<Rightarrow> IO_null | Some relid \<Rightarrow> IO_write relid)"

subsection \<open>Insert\<close>

record InsertValue =
  iv_handler :: u32
  iv_tuple :: raw_tuple
  iv_size :: nat
  iv_response :: string

definition InsertValue_new :: "u32 \<Rightarrow> raw_tuple \<Rightarrow> nat \<Rightarrow> InsertValue" where
  "InsertValue_new handler tuple n = \<lparr>iv_handler = handler, iv_tuple = tuple, iv_size = n, iv_response = []\<rparr>"

definition InsertValue_Prepare :: "InsertValue \<Rightarrow> State" where
  "InsertValue_Prepare iv = kStateOK"

definition InsertValue_Exec :: "bool \<Rightarrow> InsertValue \<Rightarrow> LevelStore \<Rightarrow> (State \<times> InsertValue \<times> LevelStore) res" where
  "InsertValue_Exec io_ok iv st =
     bind_res (deref (iv_size iv) (iv_tuple iv)) (\<lambda>t.
     bind_res (WriteHandler_Put st (iv_handler iv) t) (\<lambda>st.
     bind_res (WriteHandler_Commit io_ok st (iv_handler iv)) (\<lambda>(ok, st).
     if ok then Inr (kStateOK, iv\<lparr>iv_response := ''insert 1 row''\<rparr>, st)
     else Inr (kStateInsertFailed, iv\<lparr>iv_response := ''insert failed''\<rparr>, st))))"

subsection \<open>Export\<close>

text \<open>One column of a row; types without a case print nothing.\<close>

definition export_value :: "text_ops \<Rightarrow> DataType \<Rightarrow> raw_tuple \<Rightarrow> nat \<Rightarrow> csv_out \<Rightarrow> csv_out res" where
  "export_value ops t tuple i c =
     bind_res (RawTuple_GetSlot tuple i) (\<lambda>slot.
     let off = unat (offset slot) in
     case t of
       kDTInteger \<Rightarrow> bind_res (RawTuple_GetInteger tuple off) (\<lambda>v. Inr (csv_put_text c (show_int (sint v))))
     | kDTDate \<Rightarrow> bind_res (RawTuple_GetInteger tuple off) (\<lambda>v. Inr (csv_put_text c (show_int (sint v))))
     | kDTFloat \<Rightarrow> bind_res (RawTuple_GetDouble tuple off) (\<lambda>v. Inr (csv_put_text c (show_double ops v)))
     | kDTVarchar \<Rightarrow> bind_res (deref (unat (len slot)) (RawTuple_GetValue tuple off)) (\<lambda>v.
         Inr (csv_put_string c (string_of v)))
     | _ \<Rightarrow> Inr c)"

fun export_columns :: "text_ops \<Rightarrow> RowDesc \<Rightarrow> nat \<Rightarrow> TupleRow \<Rightarrow> csv_out \<Rightarrow> csv_out res" where
  "export_columns ops [] i row c = Inr c"
| "export_columns ops (col # cols) i row c =
     bind_res (TupleRow_GetTuple row 0) (\<lambda>tuple.
     bind_res (deref_tuple tuple) (\<lambda>t.
     bind_res (export_value ops (data_type col) t i c) (\<lambda>c.
     export_columns ops cols (Suc i) row c)))"

fun export_loop :: "text_ops \<Rightarrow> nat \<Rightarrow> RowDesc \<Rightarrow> iters \<Rightarrow> exec \<Rightarrow> TupleRow \<Rightarrow> csv_out \<Rightarrow> int \<Rightarrow>
    (State \<times> iters \<times> exec \<times> csv_out \<times> int) res" where
  "export_loop ops 0 desc \<sigma> te row c cnt = Inl Out_of_fuel"
| "export_loop ops (Suc k) desc \<sigma> te row c cnt =
     bind_res (GetNext k \<sigma> te row) (\<lambda>(state, \<sigma>, te, row).
     if state \<noteq> kStateOK then Inr (state, \<sigma>, te, c, cnt)
     else bind_res (export_columns ops desc 0 row c) (\<lambda>c.
       export_loop ops k desc \<sigma> te row (csv_put_char c (CHR 0x0A)) (cnt + 1)))"

text \<open>The result: the state, the response, the content of the file, and the plan.\<close>

definition Export_Exec :: "text_ops \<Rightarrow> nat \<Rightarrow> RowDesc \<Rightarrow> iters \<Rightarrow> exec \<Rightarrow>
    (State \<times> string \<times> string \<times> iters \<times> exec) res" where
  "Export_Exec ops k desc \<sigma> te =
     (let c = set_out_delimiter csv_create (CHR '','') ''$$'' in
      bind_res (Open k \<sigma> te) (\<lambda>(state, \<sigma>, te).
      bind_res (if state \<noteq> kStateOK then Inr (state, \<sigma>, te, c, 0)
                else export_loop ops k desc \<sigma> te (TupleRow_new 1) c 0) (\<lambda>(state, \<sigma>, te, c, cnt).
      if state = kStateEOF then Inr (kStateOK, ''copy '' @ show_int cnt @ ''.'', ostm c, \<sigma>, te)
      else Inr (state, ''copy failed.'', ostm c, \<sigma>, te))))"

end
