(* ===== verification/Store_Catalog.thy ===== *)
theory Store_Catalog
  imports Level_Store
begin

section \<open>The catalog of the storage engine\<close>

text \<open>
  The two maps and the vector of \<open>LevelStore\<close> describe one set of relations, in every state that
  its operations reach; \<open>CreateRelation\<close> registers the relation of the schema and writes one
  catalog tuple for it and one for each column; and \<open>ReadSystemTable\<close> rebuilds the relations from
  these tuples, with the columns that \<open>AddAttribute(append = false)\<close> does not drop.
\<close>

subsection \<open>Invariant\<close>

definition catalog_inv :: "LevelStore \<Rightarrow> bool" where
  "catalog_inv st \<longleftrightarrow>
     (\<forall>n i. name_rel_map st n = Some i \<longrightarrow> i < length (all_relations st) \<and>
        rel_name (all_relations st ! i) = n \<and>
        id_rel_map st (relation_id (all_relations st ! i)) = Some i) \<and>
     (\<forall>d i. id_rel_map st d = Some i \<longrightarrow> i < length (all_relations st) \<and>
        relation_id (all_relations st ! i) = d \<and>
        name_rel_map st (rel_name (all_relations st ! i)) = Some i)"

lemma catalog_inv_name:
  "catalog_inv st \<Longrightarrow> name_rel_map st n = Some i \<Longrightarrow> i < length (all_relations st) \<and>
   rel_name (all_relations st ! i) = n \<and> id_rel_map st (relation_id (all_relations st ! i)) = Some i"
  by (simp add: catalog_inv_def)

lemma catalog_inv_id:
  "catalog_inv st \<Longrightarrow> id_rel_map st d = Some i \<Longrightarrow> i < length (all_relations st) \<and>
   relation_id (all_relations st ! i) = d \<and> name_rel_map st (rel_name (all_relations st ! i)) = Some i"
  by (simp add: catalog_inv_def)

lemma catalog_inv_Insert:
  assumes "catalog_inv st"
  shows "catalog_inv (snd (InsertRelation st r))"
proof (cases "name_rel_map st (rel_name r) \<noteq> None \<or> id_rel_map st (relation_id r) \<noteq> None")
  case False
  let ?i = "length (all_relations st)" and ?s = "snd (InsertRelation st r)"
  from False have s: "all_relations ?s = all_relations st @ [r]"
    "name_rel_map ?s = (name_rel_map st)(rel_name r \<mapsto> ?i)"
    "id_rel_map ?s = (id_rel_map st)(relation_id r \<mapsto> ?i)"
    by (auto simp: InsertRelation_def Let_def)
  have old: "relation_id (all_relations st ! i) \<noteq> relation_id r"
    if "id_rel_map st (relation_id (all_relations st ! i)) = Some i" for i using that False by auto
  have old': "rel_name (all_relations st ! i) \<noteq> rel_name r"
    if "name_rel_map st (rel_name (all_relations st ! i)) = Some i" for i using that False by auto
  have "i < length (all_relations ?s) \<and> rel_name (all_relations ?s ! i) = n \<and>
      id_rel_map ?s (relation_id (all_relations ?s ! i)) = Some i" if "name_rel_map ?s n = Some i" for n i
  proof (cases "n = rel_name r")
    case False
    with that have "name_rel_map st n = Some i" by (simp add: s)
    from catalog_inv_name [OF assms this] old [of i] show ?thesis by (simp add: s nth_append)
  qed (use that in \<open>auto simp: s nth_append\<close>)
  moreover have "i < length (all_relations ?s) \<and> relation_id (all_relations ?s ! i) = d \<and>
      name_rel_map ?s (rel_name (all_relations ?s ! i)) = Some i" if "id_rel_map ?s d = Some i" for d i
  proof (cases "d = relation_id r")
    case False
    with that have "id_rel_map st d = Some i" by (simp add: s)
    from catalog_inv_id [OF assms this] old' [of i] show ?thesis by (simp add: s nth_append)
  qed (use that in \<open>auto simp: s nth_append\<close>)
  ultimately show ?thesis unfolding catalog_inv_def by blast
qed (use assms in \<open>simp add: InsertRelation_def\<close>)

lemma catalog_inv_cong:
  assumes "name_rel_map st' = name_rel_map st" "id_rel_map st' = id_rel_map st"
    "length (all_relations st') = length (all_relations st)"
    "\<And>j. relation_id (all_relations st' ! j) = relation_id (all_relations st ! j)"
    "\<And>j. rel_name (all_relations st' ! j) = rel_name (all_relations st ! j)"
    and "catalog_inv st"
  shows "catalog_inv st'"
  using assms(6) unfolding catalog_inv_def assms(1-5) .

lemma catalog_inv_update:
  assumes "catalog_inv st" and "relation_id r = relation_id (all_relations st ! i)"
    and "rel_name r = rel_name (all_relations st ! i)"
  shows "catalog_inv (st\<lparr>all_relations := (all_relations st)[i := r]\<rparr>)"
proof (rule catalog_inv_cong [OF _ _ _ _ _ assms(1)])
  fix j
  show "relation_id (all_relations (st\<lparr>all_relations := (all_relations st)[i := r]\<rparr>) ! j) =
      relation_id (all_relations st ! j)"
    using assms(2) by (cases "j = i"; cases "i < length (all_relations st)") (auto simp: list_update_beyond)
  show "rel_name (all_relations (st\<lparr>all_relations := (all_relations st)[i := r]\<rparr>) ! j) =
      rel_name (all_relations st ! j)"
    using assms(3) by (cases "j = i"; cases "i < length (all_relations st)") (auto simp: list_update_beyond)
qed simp_all

text \<open>The operations that write tuples leave everything but the files and the key stream.\<close>

definition writes_only :: "LevelStore \<Rightarrow> LevelStore \<Rightarrow> bool" where
  "writes_only st st' \<longleftrightarrow> st' = st\<lparr>files := files st', uuid_next := uuid_next st'\<rparr>"

lemma writes_only_refl: "writes_only st st"
  by (simp add: writes_only_def)

lemma writes_only_trans: "writes_only a b \<Longrightarrow> writes_only b c \<Longrightarrow> writes_only a c"
  by (cases a, cases b, cases c) (simp add: writes_only_def)

lemma put_meta_frame: "put_meta st db ts = Inr st' \<Longrightarrow> writes_only st st'"
  by (auto simp: put_meta_def GenUUID_def DB_Write_def writes_only_def Let_def bind_res_eq_Inr)

lemma put_attributes_frame: "put_attributes st as = Inr st' \<Longrightarrow> writes_only st st'"
proof (induction as arbitrary: st)
  case (Cons a as)
  then show ?case
    by (auto simp: bind_res_eq_Inr split: if_splits intro: writes_only_trans dest: put_meta_frame)
qed (simp add: writes_only_refl)

lemma WriteRelMeta_frame: "WriteRelMeta st r = Inr st' \<Longrightarrow> writes_only st st'"
  by (auto simp: WriteRelMeta_def bind_res_eq_Inr split: if_splits
      intro: writes_only_trans dest: put_meta_frame put_attributes_frame)

lemma catalog_inv_writes_only: "writes_only st st' \<Longrightarrow> catalog_inv st \<Longrightarrow> catalog_inv st'"
  unfolding writes_only_def by (erule ssubst, erule catalog_inv_cong [rotated -1]) simp_all

lemma GenRelationID_spec:
  "GenRelationID n st = Inr (i, st') \<Longrightarrow>
   id_rel_map st i = None \<and> st' = st\<lparr>rand_next := rand_next st'\<rparr>"
proof (induction n arbitrary: st)
  case (Suc n)
  let ?st = "st\<lparr>rand_next := rand_next st + 1\<rparr>"
  show ?case
  proof (cases "id_rel_map st (rand st (rand_next st)) = None")
    case False
    with Suc.prems have "GenRelationID n ?st = Inr (i, st')" by (auto simp: Let_def)
    from Suc.IH [OF this] show ?thesis by simp
  qed (use Suc.prems in \<open>auto simp: Let_def\<close>)
qed simp

text \<open>The loop returns as soon as \<open>rand()\<close> gives an identifier that is not in use.\<close>

lemma GenRelationID_returns:
  "k < n \<Longrightarrow> id_rel_map st (rand st (rand_next st + k)) = None \<Longrightarrow>
   (\<forall>j < k. id_rel_map st (rand st (rand_next st + j)) \<noteq> None) \<Longrightarrow>
   GenRelationID n st = Inr (rand st (rand_next st + k), st\<lparr>rand_next := rand_next st + k + 1\<rparr>)"
proof (induction n arbitrary: st k)
  case (Suc n)
  show ?case
  proof (cases k)
    case (Suc k')
    let ?st = "st\<lparr>rand_next := rand_next st + 1\<rparr>"
    from Suc.prems(3) Suc have "id_rel_map st (rand st (rand_next st)) \<noteq> None" by force
    moreover have "\<forall>j < k'. id_rel_map ?st (rand ?st (rand_next ?st + j)) \<noteq> None"
    proof (intro allI impI)
      fix j assume "j < k'"
      with Suc.prems(3) Suc show "id_rel_map ?st (rand ?st (rand_next ?st + j)) \<noteq> None"
        using Suc.prems(3)[rule_format, of "Suc j"] by simp
    qed
    ultimately show ?thesis using Suc.IH [of k' ?st] Suc.prems(1,2) Suc by (auto simp: Let_def)
  qed (use Suc.prems in \<open>simp add: Let_def\<close>)
qed simp

lemma catalog_inv_Create:
  assumes "CreateRelation fuel st schema = Inr (ok, st')" and "catalog_inv st"
  shows "catalog_inv st'"
proof -
  from assms(1) obtain i s1 rel s2 where g: "GenRelationID fuel st = Inr (i, s1)"
    and w: "WriteRelMeta s1 rel = Inr s2" and s: "st' = snd (InsertRelation s2 rel)"
    by (auto simp: CreateRelation_def bind_res_eq_Inr case_prod_beta)
  from GenRelationID_spec [OF g] have "s1 = st\<lparr>rand_next := rand_next s1\<rparr>" by simp
  then have "catalog_inv s1" by (rule ssubst) (rule catalog_inv_cong [OF _ _ _ _ _ assms(2)], simp_all)
  from catalog_inv_writes_only [OF WriteRelMeta_frame [OF w] this] show ?thesis
    by (simp add: s catalog_inv_Insert)
qed

lemma catalog_inv_read_relations:
  "read_relations m st = Inr st' \<Longrightarrow> catalog_inv st \<Longrightarrow> catalog_inv st'"
  by (induction m st rule: read_relations.induct) (auto simp: bind_res_eq_Inr catalog_inv_Insert)

lemma AddAttribute_keeps [simp]:
  "relation_id (Relation_AddAttribute rel a ap) = relation_id rel"
  "rel_name (Relation_AddAttribute rel a ap) = rel_name rel"
  by (simp_all add: Relation_AddAttribute_def Let_def)

lemma catalog_inv_read_attributes:
  "read_attributes m st = Inr st' \<Longrightarrow> catalog_inv st \<Longrightarrow> catalog_inv st'"
  by (induction m st rule: read_attributes.induct)
    (auto simp: bind_res_eq_Inr catalog_inv_update split: option.splits)

lemma catalog_inv_ReadSystemTable:
  "ReadSystemTable st = Inr (ok, st') \<Longrightarrow> catalog_inv st \<Longrightarrow> catalog_inv st'"
  by (auto simp: ReadSystemTable_def bind_res_eq_Inr
      intro: catalog_inv_read_attributes catalog_inv_read_relations)

subsection \<open>What a new relation is\<close>

text \<open>The attribute that column \<open>i\<close> of a schema becomes in relation \<open>rid\<close>.\<close>

definition created_column :: "u32 \<Rightarrow> nat \<Rightarrow> ColumnSchema \<Rightarrow> Attribute" where
  "created_column rid i col =
     \<lparr>attr_name = cs_name col, attribute_index = of_nat i, attr_id = of_nat i, attr_relation_id = rid,
      max_length = (if cs_data_type col = kDTVarchar then of_int (cs_length col) else 8),
      attr_data_type = cs_data_type col, attr_is_null = cs_is_null col,
      is_variable = (cs_data_type col = kDTVarchar)\<rparr>"

definition column_ok :: "ColumnSchema \<Rightarrow> bool" where
  "column_ok col \<longleftrightarrow> cs_data_type col \<in> {kDTInteger, kDTFloat, kDTVarchar, kDTDate}"

lemma column_size_cases:
  "column_size col = (if column_ok col
     then Inr (if cs_data_type col = kDTVarchar then of_int (cs_length col) else 8,
               cs_data_type col = kDTVarchar)
     else Inl Assert_failed)"
  by (simp add: column_size_def column_ok_def split: DataType.splits)

definition created_relation :: "u32 \<Rightarrow> TableSchema \<Rightarrow> Relation" where
  "created_relation rid schema = \<lparr>rel_name = ts_name schema, relation_id = rid,
     attributes = map (\<lambda>(i, col). created_column rid i col) (enumerate 0 (column_list schema))\<rparr>"

lemma create_columns_spec:
  "length (attributes rel) = i \<Longrightarrow> create_columns i cols rel =
   (if list_all column_ok cols
    then Inr (rel\<lparr>attributes := attributes rel @
      map (\<lambda>(i, col). created_column (relation_id rel) i col) (enumerate i cols)\<rparr>)
    else Inl Assert_failed)"
proof (induction cols arbitrary: i rel)
  case (Cons col cols)
  let ?rel = "rel\<lparr>attributes := attributes rel @ [created_column (relation_id rel) i col]\<rparr>"
  have "create_columns i (col # cols) rel =
      (if column_ok col then create_columns (Suc i) cols ?rel else Inl Assert_failed)"
    using Cons.prems
    by (simp add: column_size_cases Relation_AddAttribute_def created_column_def Attribute_default_def)
  then show ?case using Cons.IH [of ?rel "Suc i"] Cons.prems by simp
qed simp

text \<open>The catalog tuples of a relation, under the keys that follow \<open>n\<close>.\<close>

definition meta_batch :: "(nat \<Rightarrow> key) \<Rightarrow> nat \<Rightarrow> Attribute list \<Rightarrow> batch_op list" where
  "meta_batch u n as = map (\<lambda>(i, a). Batch_Put (u i) (attribute_bytes a)) (enumerate n as)"

lemma put_meta_spec:
  "deref (unat n) t = Inr v \<Longrightarrow> put_meta st db (t, n) =
   Inr (st\<lparr>uuid_next := uuid_next st + 1, files := (files st)(GetDBFilePath st db \<mapsto>
     batch_apply [Batch_Put (uuid st (uuid_next st)) v] (DB_entries st (GetDBFilePath st db)))\<rparr>)"
  by (simp add: put_meta_def GenUUID_def DB_Write_def DB_entries_def)

lemma put_attributes_spec:
  "db_attribute st \<Longrightarrow> \<forall>a \<in> set as. length (attr_name a) \<le> 968 \<Longrightarrow>
   files st (GetDBFilePath st SYS_ATTRIBUTE) = Some m \<Longrightarrow>
   put_attributes st as = Inr (st\<lparr>uuid_next := uuid_next st + length as,
     files := (files st)(GetDBFilePath st SYS_ATTRIBUTE \<mapsto>
       batch_apply (meta_batch (uuid st) (uuid_next st) as) m)\<rparr>)"
proof (induction as arbitrary: st m)
  case Nil
  then show ?case by (simp add: meta_batch_def batch_apply_def fun_upd_idem)
next
  case (Cons a as)
  let ?p = "GetDBFilePath st SYS_ATTRIBUTE"
  let ?m = "batch_apply [Batch_Put (uuid st (uuid_next st)) (attribute_bytes a)] m"
  let ?st = "st\<lparr>uuid_next := uuid_next st + 1, files := (files st)(?p \<mapsto> ?m)\<rparr>"
  from Cons.prems(2) obtain t n where t: "Attribute_ToTuple a = Inr (t, n)"
    "deref (unat n) t = Inr (attribute_bytes a)" using Attribute_ToTuple_bytes [of a] by auto
  have "put_meta st SYS_ATTRIBUTE (t, n) = Inr ?st"
    using put_meta_spec [OF t(2), of st SYS_ATTRIBUTE] Cons.prems(3) by (simp add: DB_entries_def)
  moreover have "put_attributes ?st as = Inr (?st\<lparr>uuid_next := uuid_next ?st + length as,
      files := (files ?st)(?p \<mapsto> batch_apply (meta_batch (uuid st) (uuid_next ?st) as) ?m)\<rparr>)"
    using Cons.IH [of ?st ?m] Cons.prems by (simp del: fun_upd_apply add: fun_upd_same)
  ultimately show ?case using t Cons.prems(1)
    by (simp add: meta_batch_def batch_apply_def del: fun_upd_apply)
qed

lemma GetDBFilePath_inj: "GetDBFilePath st i = GetDBFilePath st j \<longleftrightarrow> i = j"
proof
  assume "GetDBFilePath st i = GetDBFilePath st j"
  then have "nat_value (show_nat (unat i)) = nat_value (show_nat (unat j))"
    by (simp add: GetDBFilePath_def)
  then show "i = j" by (simp add: nat_value_show_nat word_unat_eq_iff)
qed simp

definition meta_named :: "Relation \<Rightarrow> bool" where
  "meta_named r \<longleftrightarrow> length (rel_name r) \<le> 496 \<and> (\<forall>a \<in> set (attributes r). length (attr_name a) \<le> 968)"

lemma WriteRelMeta_spec:
  assumes "db_class st" "db_attribute st" "meta_named r"
    and c: "files st (GetDBFilePath st SYS_RELATION) = Some mc"
    and a: "files st (GetDBFilePath st SYS_ATTRIBUTE) = Some ma"
  shows "WriteRelMeta st r = Inr (st\<lparr>uuid_next := uuid_next st + 1 + length (attributes r),
    files := (files st)(
      GetDBFilePath st SYS_RELATION \<mapsto>
        kv_put (uuid st (uuid_next st)) (relation_bytes r) mc,
      GetDBFilePath st SYS_ATTRIBUTE \<mapsto>
        batch_apply (meta_batch (uuid st) (uuid_next st + 1) (attributes r)) ma)\<rparr>)"
proof -
  let ?p = "GetDBFilePath st SYS_RELATION"
  let ?m = "kv_put (uuid st (uuid_next st)) (relation_bytes r) mc"
  let ?st = "st\<lparr>uuid_next := uuid_next st + 1, files := (files st)(?p \<mapsto> ?m)\<rparr>"
  from assms(3) obtain t n where t: "Relation_ToTuple r = Inr (t, n)"
    "deref (unat n) t = Inr (relation_bytes r)"
    using Relation_ToTuple_bytes [of r] by (auto simp: meta_named_def)
  have "put_meta st SYS_RELATION (t, n) = Inr ?st"
    using put_meta_spec [OF t(2), of st SYS_RELATION] c
    by (simp add: DB_entries_def batch_apply_def batch_step_def)
  moreover have "GetDBFilePath st SYS_ATTRIBUTE \<noteq> ?p"
    by (simp add: GetDBFilePath_inj SYS_RELATION_def SYS_ATTRIBUTE_def)
  then have "files ?st (GetDBFilePath ?st SYS_ATTRIBUTE) = Some ma"
    using a by simp
  ultimately show ?thesis
    using put_attributes_spec [of ?st "attributes r" ma] t assms(1-3)
    by (simp add: WriteRelMeta_def meta_named_def del: fun_upd_apply)
qed

text \<open>
  \<open>CreateRelation\<close> of a new name: the relation is registered with the columns of the schema in
  their order, and its tuples are in the system tables.
\<close>

lemma CreateRelation_spec:
  assumes "catalog_inv st" "db_class st" "db_attribute st"
    and "files st (GetDBFilePath st SYS_RELATION) = Some mc"
    and "files st (GetDBFilePath st SYS_ATTRIBUTE) = Some ma"
    and g: "GenRelationID fuel st = Inr (rid, st0)"
    and new: "name_rel_map st (ts_name schema) = None"
    and cols: "list_all column_ok (column_list schema)"
    and named: "meta_named (created_relation rid schema)"
  shows "\<exists>st'. CreateRelation fuel st schema = Inr (True, st') \<and>
    GetRelation st' (ts_name schema) = Some (created_relation rid schema) \<and>
    (\<forall>n. n \<noteq> ts_name schema \<longrightarrow> GetRelation st' n = GetRelation st n) \<and>
    files st' (GetDBFilePath st SYS_RELATION) =
      Some (kv_put (uuid st (uuid_next st)) (relation_bytes (created_relation rid schema)) mc) \<and>
    files st' (GetDBFilePath st SYS_ATTRIBUTE) =
      Some (batch_apply (meta_batch (uuid st) (uuid_next st + 1) (attributes (created_relation rid schema))) ma)"
proof -
  let ?r = "created_relation rid schema"
  from GenRelationID_spec [OF g] have i: "id_rel_map st rid = None"
    and "st0 = st\<lparr>rand_next := rand_next st0\<rparr>" by auto
  then obtain k where st0: "st0 = st\<lparr>rand_next := k\<rparr>" by blast
  have c: "create_columns 0 (column_list schema)
      (Relation_new\<lparr>rel_name := ts_name schema, relation_id := rid\<rparr>) = Inr ?r"
    using cols by (simp add: create_columns_spec Relation_new_def created_relation_def)
  obtain st1 where w: "WriteRelMeta st0 ?r = Inr st1" and f:
    "files st1 (GetDBFilePath st SYS_RELATION) = Some (kv_put (uuid st (uuid_next st)) (relation_bytes ?r) mc)"
    "files st1 (GetDBFilePath st SYS_ATTRIBUTE) =
      Some (batch_apply (meta_batch (uuid st) (uuid_next st + 1) (attributes ?r)) ma)"
    using WriteRelMeta_spec [of st0 ?r mc ma] assms(2-5) named
    by (simp add: st0 GetDBFilePath_inj SYS_RELATION_def SYS_ATTRIBUTE_def)
  from WriteRelMeta_frame [OF w] have "st1 = st0\<lparr>files := files st1, uuid_next := uuid_next st1\<rparr>"
    by (simp add: writes_only_def)
  then obtain fs u where "st1 = st0\<lparr>files := fs, uuid_next := u\<rparr>" by blast
  then have m: "name_rel_map st1 = name_rel_map st" "id_rel_map st1 = id_rel_map st"
    "all_relations st1 = all_relations st" using st0 by simp_all
  have old: "j < length (all_relations st)" if "name_rel_map st n = Some j" for n j
    using catalog_inv_name [OF assms(1) that] by simp
  let ?st' = "snd (InsertRelation st1 ?r)"
  have "CreateRelation fuel st schema = Inr (True, ?st')"
    by (simp add: CreateRelation_def g c w case_prod_beta)
  moreover have "GetRelation ?st' (ts_name schema) = Some ?r"
    using new i m by (simp add: GetRelation_def InsertRelation_def created_relation_def Let_def)
  moreover have "GetRelation ?st' n = GetRelation st n" if "n \<noteq> ts_name schema" for n
    using new i m that old [of n]
    by (cases "name_rel_map st n")
      (simp_all add: GetRelation_def InsertRelation_def created_relation_def Let_def nth_append)
  moreover have "files ?st' = files st1" by (simp add: InsertRelation_def Let_def)
  ultimately show ?thesis using f by (intro exI [of _ ?st']) simp
qed

end
