(* ===== verification/Store_Handles.thy ===== *)
theory Store_Handles
  imports Store_Catalog
begin

section \<open>Read and write handlers\<close>

text \<open>
  The handlers of \<open>LevelStore\<close> as a state machine: clients obtain handlers, fill and commit
  batches and give handlers back. In every state that is reached a database is open for at most
  one owner, its lock is held exactly by that owner, and every handler has a reference. A
  committed batch is what the next iterator reads.
\<close>

subsection \<open>The owner of a database\<close>

definition system_open :: "LevelStore \<Rightarrow> u32 \<Rightarrow> bool" where
  "system_open st i \<longleftrightarrow> i = SYS_RELATION \<and> db_class st \<or> i = SYS_ATTRIBUTE \<and> db_attribute st"

definition has_writer :: "LevelStore \<Rightarrow> u32 \<Rightarrow> bool" where
  "has_writer st i \<longleftrightarrow> map_of (write_handler_map st) i \<noteq> None"

definition has_reader :: "LevelStore \<Rightarrow> u32 \<Rightarrow> bool" where
  "has_reader st i \<longleftrightarrow> map_of (iterator_handler_map st) i \<noteq> None"

definition handles_inv :: "LevelStore \<Rightarrow> bool" where
  "handles_inv st \<longleftrightarrow>
     data_dir st \<and>
     (\<forall>i h. map_of (write_handler_map st) i = Some h \<longrightarrow> 0 < wh_reference h) \<and>
     (\<forall>i h. map_of (iterator_handler_map st) i = Some h \<longrightarrow> 0 < ih_reference h) \<and>
     (\<forall>i. locked st (GetDBFilePath st i) \<longleftrightarrow> system_open st i \<or> has_writer st i \<or> has_reader st i) \<and>
     (\<forall>i. has_writer st i \<longrightarrow> \<not> has_reader st i) \<and>
     (\<forall>i. system_open st i \<longrightarrow> \<not> has_writer st i \<and> \<not> has_reader st i) \<and>
     (\<forall>i. has_writer st i \<or> has_reader st i \<longrightarrow> files st (GetDBFilePath st i) \<noteq> None) \<and>
     (\<forall>p m. files st p = Some m \<longrightarrow> kv_sorted m)"

lemmas owner_defs = system_open_def has_writer_def has_reader_def

text \<open>What \<open>DB_Open\<close> with \<open>create_if_missing\<close> does to a state with the invariant.\<close>

lemma DB_Open_create:
  assumes "handles_inv st"
  shows "DB_Open st True (GetDBFilePath st i) =
    (if system_open st i \<or> has_writer st i \<or> has_reader st i then (False, st)
     else (True, st\<lparr>files := (files st)(GetDBFilePath st i \<mapsto> DB_entries st (GetDBFilePath st i)),
                    locked := (locked st)(GetDBFilePath st i := True)\<rparr>))"
proof (cases "files st (GetDBFilePath st i)")
  case (Some m)
  then have "(files st)(GetDBFilePath st i \<mapsto> m) = files st" by auto
  with Some assms show ?thesis by (simp add: DB_Open_def handles_inv_def DB_entries_def del: fun_upd_apply)
qed (use assms in \<open>simp add: DB_Open_def handles_inv_def DB_entries_def\<close>)

lemma NewIterator_new:
  "handles_inv st \<Longrightarrow> \<not> has_reader st i \<Longrightarrow> NewIterator st i =
   (if system_open st i \<or> has_writer st i then Inl Assert_failed
    else let p = GetDBFilePath st i in
      Inr (st\<lparr>files := (files st)(p \<mapsto> DB_entries st p), locked := (locked st)(p := True),
        iterator_handler_map := AList.update i
          \<lparr>ih_iter = Iterator_new (DB_entries st p), ih_reference = 1\<rparr> (iterator_handler_map st)\<rparr>))"
  by (simp add: NewIterator_def DB_Open_create has_reader_def Let_def DB_entries_def)

lemma NewWriteHandler_new:
  "handles_inv st \<Longrightarrow> \<not> has_writer st i \<Longrightarrow> NewWriteHandler st i =
   (if system_open st i \<or> has_reader st i then Inl Assert_failed
    else let p = GetDBFilePath st i in
      Inr (st\<lparr>files := (files st)(p \<mapsto> DB_entries st p), locked := (locked st)(p := True),
        write_handler_map := AList.update i \<lparr>wh_batch = [], wh_reference = 1\<rparr> (write_handler_map st)\<rparr>))"
  by (simp add: NewWriteHandler_def DB_Open_create has_writer_def Let_def)

subsection \<open>The state machine\<close>

inductive handle_step :: "LevelStore \<Rightarrow> LevelStore \<Rightarrow> bool" where
  new_iterator: "NewIterator st i = Inr st' \<Longrightarrow> handle_step st st'"
| new_writer: "NewWriteHandler st i = Inr st' \<Longrightarrow> handle_step st st'"
| give_back: "DeleteIOObject st io = Inr st' \<Longrightarrow> handle_step st st'"
| put: "WriteHandler_Put st i t = Inr st' \<Longrightarrow> handle_step st st'"
| put_key: "WriteHandler_PutKey st i k t = Inr st' \<Longrightarrow> handle_step st st'"
| delete: "WriteHandler_Delete st i k = Inr st' \<Longrightarrow> handle_step st st'"
| commit: "WriteHandler_Commit io_ok st i = Inr (ok, st') \<Longrightarrow> handle_step st st'"

lemma DB_entries_sorted: "handles_inv st \<Longrightarrow> kv_sorted (DB_entries st p)"
  by (auto simp: DB_entries_def handles_inv_def split: option.splits)

text \<open>The invariant does not depend on more than the owners, the locks and the files.\<close>

lemma handles_inv_reader:
  assumes "handles_inv st" and h: "0 < ih_reference h" and nw: "\<not> has_writer st i" "\<not> system_open st i"
    and f: "files st (GetDBFilePath st i) \<noteq> None"
  shows "handles_inv (st\<lparr>locked := (locked st)(GetDBFilePath st i := True),
    iterator_handler_map := AList.update i h (iterator_handler_map st)\<rparr>)"
  using assms by (auto simp: handles_inv_def owner_defs update_conv' GetDBFilePath_inj)

lemma handles_inv_writer:
  assumes "handles_inv st" and h: "0 < wh_reference h" and nw: "\<not> has_reader st i" "\<not> system_open st i"
    and f: "files st (GetDBFilePath st i) \<noteq> None"
  shows "handles_inv (st\<lparr>locked := (locked st)(GetDBFilePath st i := True),
    write_handler_map := AList.update i h (write_handler_map st)\<rparr>)"
  using assms by (auto simp: handles_inv_def owner_defs update_conv' GetDBFilePath_inj)

lemma handles_inv_files:
  assumes "handles_inv st" and "kv_sorted m"
  shows "handles_inv (st\<lparr>files := (files st)(p \<mapsto> m)\<rparr>)"
  using assms by (auto simp: handles_inv_def owner_defs)

lemma handles_inv_locked:
  "handles_inv st \<Longrightarrow> has_writer st i \<or> has_reader st i \<Longrightarrow>
   (locked st)(GetDBFilePath st i := True) = locked st"
  by (intro ext) (auto simp: handles_inv_def)

lemma handles_inv_refs:
  "handles_inv st \<Longrightarrow> map_of (iterator_handler_map st) i = Some h \<Longrightarrow> 0 < ih_reference h \<and>
     \<not> has_writer st i \<and> \<not> system_open st i \<and> files st (GetDBFilePath st i) \<noteq> None \<and> has_reader st i"
  "handles_inv st \<Longrightarrow> map_of (write_handler_map st) i = Some w \<Longrightarrow> 0 < wh_reference w \<and>
     \<not> has_reader st i \<and> \<not> system_open st i \<and> files st (GetDBFilePath st i) \<noteq> None \<and> has_writer st i"
  unfolding handles_inv_def by (metis has_reader_def has_writer_def option.distinct(1))+

lemma handles_inv_update_reader:
  "handles_inv st \<Longrightarrow> map_of (iterator_handler_map st) i = Some h' \<Longrightarrow> 0 < ih_reference h \<Longrightarrow>
   handles_inv (st\<lparr>iterator_handler_map := AList.update i h (iterator_handler_map st)\<rparr>)"
  using handles_inv_reader [of st h i] handles_inv_refs(1) [of st i h'] handles_inv_locked [of st i]
  by simp

lemma handles_inv_update_writer:
  "handles_inv st \<Longrightarrow> map_of (write_handler_map st) i = Some h' \<Longrightarrow> 0 < wh_reference h \<Longrightarrow>
   handles_inv (st\<lparr>write_handler_map := AList.update i h (write_handler_map st)\<rparr>)"
  using handles_inv_writer [of st h i] handles_inv_refs(2) [of st i h'] handles_inv_locked [of st i]
  by simp

lemma handles_inv_NewIterator:
  assumes "NewIterator st i = Inr st'" and inv: "handles_inv st"
  shows "handles_inv st'"
proof (cases "map_of (iterator_handler_map st) i")
  case None
  let ?p = "GetDBFilePath st i"
  let ?st = "st\<lparr>files := (files st)(?p \<mapsto> DB_entries st ?p)\<rparr>"
  from None have nr: "\<not> has_reader st i" by (simp add: has_reader_def)
  from NewIterator_new [OF inv nr] assms(1) have n: "\<not> system_open st i" "\<not> has_writer st i"
    and st': "st' = ?st\<lparr>locked := (locked ?st)(?p := True), iterator_handler_map := AList.update i
      \<lparr>ih_iter = Iterator_new (DB_entries st ?p), ih_reference = 1\<rparr> (iterator_handler_map ?st)\<rparr>"
    by (auto simp: Let_def split: if_splits)
  have "handles_inv ?st" by (rule handles_inv_files [OF inv DB_entries_sorted [OF inv]])
  from handles_inv_reader [OF this, of "\<lparr>ih_iter = Iterator_new (DB_entries st ?p), ih_reference = 1\<rparr>" i] n
  show ?thesis by (simp add: st' owner_defs)
next
  case (Some h)
  with assms have "st' = st\<lparr>iterator_handler_map := AList.update i
      (h\<lparr>ih_reference := ih_reference h + 1\<rparr>) (iterator_handler_map st)\<rparr>" by (simp add: NewIterator_def)
  with handles_inv_update_reader [OF inv Some] handles_inv_refs(1) [OF inv Some] show ?thesis by simp
qed

lemma handles_inv_NewWriteHandler:
  assumes "NewWriteHandler st i = Inr st'" and inv: "handles_inv st"
  shows "handles_inv st'"
proof (cases "map_of (write_handler_map st) i")
  case None
  let ?p = "GetDBFilePath st i"
  let ?st = "st\<lparr>files := (files st)(?p \<mapsto> DB_entries st ?p)\<rparr>"
  from None have nr: "\<not> has_writer st i" by (simp add: has_writer_def)
  from NewWriteHandler_new [OF inv nr] assms(1) have n: "\<not> system_open st i" "\<not> has_reader st i"
    and st': "st' = ?st\<lparr>locked := (locked ?st)(?p := True), write_handler_map := AList.update i
      \<lparr>wh_batch = [], wh_reference = 1\<rparr> (write_handler_map ?st)\<rparr>"
    by (auto simp: Let_def split: if_splits)
  have "handles_inv ?st" by (rule handles_inv_files [OF inv DB_entries_sorted [OF inv]])
  from handles_inv_writer [OF this, of "\<lparr>wh_batch = [], wh_reference = 1\<rparr>" i] n
  show ?thesis by (simp add: st' owner_defs)
next
  case (Some h)
  with assms have "st' = st\<lparr>write_handler_map := AList.update i
      (h\<lparr>wh_reference := wh_reference h + 1\<rparr>) (write_handler_map st)\<rparr>" by (simp add: NewWriteHandler_def)
  with handles_inv_update_writer [OF inv Some] handles_inv_refs(2) [OF inv Some] show ?thesis by simp
qed

lemma handles_inv_close:
  assumes inv: "handles_inv st"
  shows "has_writer st i \<Longrightarrow> handles_inv (DB_Close (st\<lparr>write_handler_map :=
      AList.delete i (write_handler_map st)\<rparr>) (GetDBFilePath st i))"
    and "has_reader st i \<Longrightarrow> handles_inv (DB_Close (st\<lparr>iterator_handler_map :=
      AList.delete i (iterator_handler_map st)\<rparr>) (GetDBFilePath st i))"
  using inv by (auto simp: handles_inv_def owner_defs DB_Close_def delete_conv' GetDBFilePath_inj)

lemma handles_inv_DeleteIOObject:
  assumes "DeleteIOObject st io = Inr st'" and inv: "handles_inv st"
  shows "handles_inv st'"
proof (cases io)
  case (IO_write i)
  with assms(1) obtain h where h: "map_of (write_handler_map st) i = Some h"
    by (auto simp: DeleteIOObject_def split: option.splits)
  with handles_inv_refs(2) [OF inv h] assms(1) IO_write show ?thesis
    by (auto simp: DeleteIOObject_def handles_inv_close [OF inv] handles_inv_update_writer [OF inv h]
        split: if_splits)
next
  case (IO_iterator i)
  with assms(1) obtain h where h: "map_of (iterator_handler_map st) i = Some h"
    by (auto simp: DeleteIOObject_def split: option.splits)
  with handles_inv_refs(1) [OF inv h] assms(1) IO_iterator show ?thesis
    by (auto simp: DeleteIOObject_def handles_inv_close [OF inv] handles_inv_update_reader [OF inv h]
        split: if_splits)
qed (use assms in \<open>simp add: DeleteIOObject_def\<close>)

lemma handles_inv_batch_add:
  assumes "batch_add st i b = Inr st'" and inv: "handles_inv st"
  shows "handles_inv st'"
  using assms handles_inv_refs(2) [OF inv]
  by (auto simp: batch_add_def split: option.splits intro!: handles_inv_update_writer [OF inv])

lemma handles_inv_uuid: "handles_inv (st\<lparr>uuid_next := n\<rparr>) = handles_inv st"
  by (simp add: handles_inv_def owner_defs)

lemma handles_inv_Commit:
  "WriteHandler_Commit io_ok st i = Inr (ok, st') \<Longrightarrow> handles_inv st \<Longrightarrow> handles_inv st'"
  by (auto simp: WriteHandler_Commit_def DB_Write_def split: option.splits if_splits
      intro!: handles_inv_files batch_apply_sorted DB_entries_sorted)

lemma handle_step_inv: "handle_step st st' \<Longrightarrow> handles_inv st \<Longrightarrow> handles_inv st'"
proof (induction rule: handle_step.induct)
  case (put st i t st')
  then show ?case
    by (auto simp: WriteHandler_Put_def WriteHandler_PutKey_def GenUUID_def handles_inv_uuid
        intro: handles_inv_batch_add)
qed (auto simp: WriteHandler_PutKey_def WriteHandler_Delete_def intro: handles_inv_NewIterator
    handles_inv_NewWriteHandler handles_inv_DeleteIOObject handles_inv_batch_add handles_inv_Commit)

lemma handle_steps_inv: "handle_step\<^sup>*\<^sup>* st st' \<Longrightarrow> handles_inv st \<Longrightarrow> handles_inv st'"
  by (induction rule: rtranclp_induct) (auto intro: handle_step_inv)

end
