(* ===== verification/Copy_Load.thy ===== *)
theory Copy_Load
  imports Copy Store_Handles Project_Encode
begin

section \<open>Loading a file into a relation\<close>

text \<open>
  \<open>COPY ... FROM\<close> of a text with one line per row puts exactly these rows, encoded, into the batch
  of the relation's write handler, under fresh keys, and commits them.
\<close>

subsection \<open>Columns\<close>

definition token_bytes :: "text_ops \<Rightarrow> DataType \<Rightarrow> string \<Rightarrow> byte list res" where
  "token_bytes ops t str = (case t of
     kDTInteger \<Rightarrow> (case read_int64 str of None \<Rightarrow> Inl Cxx_exception
                  | Some v \<Rightarrow> Inr (le_bytes 8 (word_of_int v :: u64)))
   | kDTFloat \<Rightarrow> (case read_double ops str of None \<Rightarrow> Inl Cxx_exception | Some v \<Rightarrow> Inr (le_bytes 8 v))
   | kDTVarchar \<Rightarrow> Inr (bytes_of str)
   | kDTDate \<Rightarrow> bind_res (date_subsec ops str) (\<lambda>v. Inr (le_bytes 8 v))
   | _ \<Rightarrow> Inl Assert_failed)"

lemma load_value_token:
  "get_delimited_str c = (tok, c') \<Longrightarrow>
   load_value ops t c = bind_res (token_bytes ops t tok) (\<lambda>v. Inr (v, c'))"
  by (simp add: load_value_def token_bytes_def bind_res_assoc cong del: bind_res_weak_cong split: DataType.splits option.splits)

definition column_bytes :: "text_ops \<Rightarrow> RowDesc \<Rightarrow> string list \<Rightarrow> byte list list \<Rightarrow> bool" where
  "column_bytes ops cols ts vs \<longleftrightarrow> length ts = length cols \<and>
     list_all2 (\<lambda>(col, t) v. token_bytes ops (data_type col) t = Inr v) (zip cols ts) vs"

lemma column_bytes_Cons:
  "column_bytes ops (col # cols) ts vs \<longleftrightarrow> (\<exists>t ts' v vs'. ts = t # ts' \<and> vs = v # vs' \<and>
     token_bytes ops (data_type col) t = Inr v \<and> column_bytes ops cols ts' vs')"
  by (cases ts; cases vs) (auto simp: column_bytes_def)

lemma load_columns_filled:
  "column_bytes ops cols ts vs \<Longrightarrow> get_tokens (length cols) c = (ts, c') \<Longrightarrow>
   n = length ws + length cols \<Longrightarrow> length D = 4 * length cols \<Longrightarrow> length (concat vs) \<le> length T \<Longrightarrow>
   4 * n + length (concat ws) + length (concat vs) < 2 ^ 32 \<Longrightarrow>
   load_columns ops cols (length ws) (of_nat (4 * n + length (concat ws))) (filled n ws D T) c =
   Inr (of_nat (4 * n + length (concat ws) + length (concat vs)),
     filled n (ws @ map (map Some) vs) [] (drop (length (concat vs)) T), c')"
proof (induction cols arbitrary: ts vs c ws D T)
  case Nil
  then show ?case by (simp add: column_bytes_def)
next
  case (Cons col cols)
  from Cons.prems(1) obtain t ts' v vs' where e: "ts = t # ts'" "vs = v # vs'"
    "token_bytes ops (data_type col) t = Inr v" "column_bytes ops cols ts' vs'"
    by (auto simp: column_bytes_Cons)
  from Cons.prems(2) e(1) obtain c1 where g: "get_delimited_str c = (t, c1)" "get_tokens (length cols) c1 = (ts', c')"
    by (auto simp: Let_def split: prod.splits)
  have "length D = 2 + (2 + 4 * length cols)" using Cons.prems(4) by simp
  then obtain d1 D' where D': "D = d1 @ D'" "length d1 = 2" "length D' = 2 + 4 * length cols"
    using split_length by metis
  then obtain d2 D'' where D: "D = d1 @ d2 @ D''" "length d2 = 2" "length D'' = 4 * length cols"
    using split_length by metis
  have "length T = length v + (length T - length v)" using Cons.prems(5) by (simp add: e(2))
  then obtain old T2 where T: "T = old @ T2" "length old = length v"
    using split_length by metis
  let ?o = "4 * n + length (concat ws)"
  have off: "unat (of_nat ?o :: u32) = ?o"
    using Cons.prems(6) by (simp add: unat_of_nat del: of_nat_add of_nat_mult)
  have lv: "load_value ops (data_type col) c = Inr (v, c1)" using load_value_token [OF g(1)] e(3) by simp
  have "load_columns ops (col # cols) (length ws) (of_nat ?o) (filled n ws D T) c =
      load_columns ops cols (Suc (length ws)) (of_nat ?o + of_nat (length v))
        (filled n (ws @ [map Some v]) D'' T2) c1"
    unfolding D(1) T(1)
    using lv D D' T(2) off Cons.prems(3) by (simp add: set_slot_filled SetValue_filled ucast_u16_of_nat
         filled_snoc [symmetric] sizeof_Slot_def
         del: of_nat_add of_nat_mult)
  also have "of_nat ?o + of_nat (length v) = (of_nat (4 * n + length (concat (ws @ [map Some v]))) :: u32)"
    by simp
  also have "load_columns ops cols (Suc (length ws)) \<dots> (filled n (ws @ [map Some v]) D'' T2) c1 =
      Inr (of_nat (4 * n + length (concat (ws @ [map Some v])) + length (concat vs')),
        filled n ((ws @ [map Some v]) @ map (map Some) vs') [] (drop (length (concat vs')) T2), c')"
    using Cons.IH [OF e(4) g(2), of "ws @ [map Some v]" D'' T2] Cons.prems D(3) e(2) T
    by (simp del: of_nat_add of_nat_mult)
  finally show ?case using T by (simp add: e(2) add.assoc)
qed


subsection \<open>Values and their text\<close>

fun csv_text :: "text_ops \<Rightarrow> db_value \<Rightarrow> string" where
  "csv_text ops (VInteger v) = show_int (sint v)"
| "csv_text ops (VFloat v) = show_double ops v"
| "csv_text ops (VDate v) = show_int (sint v)"
| "csv_text ops (VVarchar s) = s"

text \<open>
  The values that can be read back: no date, because the text that is written for it is a number;
  no character of the line structure or of the escape string in a string; and a \<open>double\<close> whose
  text denotes it.
\<close>

fun loadable :: "text_ops \<Rightarrow> db_value \<Rightarrow> bool" where
  "loadable ops (VInteger v) \<longleftrightarrow> True"
| "loadable ops (VFloat v) \<longleftrightarrow> token_ok ''$$'' (show_double ops v) \<and> read_double ops (show_double ops v) = Some v"
| "loadable ops (VDate v) \<longleftrightarrow> False"
| "loadable ops (VVarchar s) \<longleftrightarrow> token_ok ''$$'' s"

lemma token_ok_show_int: "token_ok ''$$'' (show_int i)"
proof -
  have "c \<in> set (show_int i) \<Longrightarrow> is_digit c \<or> c = CHR ''-''" for c
    using show_nat_is_digit by (auto simp: show_int_def split: if_splits)
  moreover have "\<not> is_digit (CHR ''$'')" "\<not> is_digit (CHR 0x0D)" "\<not> is_digit (CHR 0x0A)"
    by (simp_all add: is_digit_def)
  ultimately show ?thesis by (fastforce simp: token_ok_def)
qed

lemma read_int64_sint: "read_int64 (show_int (sint (v :: u64))) = Some (sint v)"
  using sint_ge [of v] sint_lt [of v] by (intro read_int64_show) simp_all

lemma loadable_token:
  "loadable ops v \<Longrightarrow> token_ok ''$$'' (csv_text ops v) \<and>
   token_bytes ops (value_type v) (csv_text ops v) = Inr (encode_value v)"
  by (cases v) (simp_all add: token_ok_show_int token_bytes_def read_int64_sint)

lemma loadable_columns:
  "list_all (loadable ops) vs \<Longrightarrow> map data_type cols = map value_type vs \<Longrightarrow>
   column_bytes ops cols (map (csv_text ops) vs) (map encode_value vs)"
proof (induction vs arbitrary: cols)
  case (Cons v vs)
  then obtain col cols' where "cols = col # cols'" "data_type col = value_type v"
    "map data_type cols' = map value_type vs" by (cases cols) auto
  with Cons loadable_token [of ops v] show ?case by (simp add: column_bytes_Cons)
qed (simp add: column_bytes_def)

subsection \<open>Rows\<close>

definition csv_line :: "text_ops \<Rightarrow> char \<Rightarrow> db_value list \<Rightarrow> string" where
  "csv_line ops d vs = row_line d ''$$'' (map (csv_text ops) vs)"

definition delimiter_ok :: "char \<Rightarrow> bool" where
  "delimiter_ok d \<longleftrightarrow> d \<noteq> CHR ''$'' \<and> d \<noteq> CHR 0x0D \<and> d \<noteq> CHR 0x0A"

lemma escape_ok_delimiter: "delimiter_ok d \<Longrightarrow> escape_ok d ''$$''"
  by (auto simp: escape_ok_def delimiter_ok_def)

definition row_ok :: "text_ops \<Rightarrow> RowDesc \<Rightarrow> char \<Rightarrow> nat \<Rightarrow> db_value list \<Rightarrow> bool" where
  "row_ok ops desc d n vs \<longleftrightarrow> map data_type desc = map value_type vs \<and> list_all (loadable ops) vs \<and>
     csv_line ops d vs \<noteq> [] \<and> length (encode_tuple vs) \<le> n \<and> length (encode_tuple vs) < 2 ^ 32"

lemma length_encode_tuple:
  "length (encode_tuple vs) = 4 * length vs + length (concat (map encode_value vs))"
  by (simp add: encode_tuple_def length_tuple_image image_size_def sizeof_Slot_def length_concat o_def)

lemma load_columns_row:
  assumes ok: "row_ok ops desc d (length tuple) vs" and d: "delimiter_ok d"
    and c: "plain_csv d ''$$'' c" "drop (csv_pos c) (csv_str c) = csv_line ops d vs"
  obtains c' where "load_columns ops desc 0 (of_nat (sizeof_Slot * length desc)) tuple c =
      Inr (of_nat (length (encode_tuple vs)), encode_tuple vs @ drop (length (encode_tuple vs)) tuple, c')"
    and "istm c' = istm c" "plain_csv d ''$$'' c'" "has_bom c' = has_bom c"
      "terminate_on_blank_line c' = terminate_on_blank_line c"
proof -
  let ?n = "length vs" and ?ts = "map (csv_text ops) vs" and ?b = "map encode_value vs"
  from ok have t: "map data_type desc = map value_type vs" "list_all (loadable ops) vs"
    "length (encode_tuple vs) \<le> length tuple" "length (encode_tuple vs) < 2 ^ 32"
    and ne: "vs \<noteq> []" by (auto simp: row_ok_def csv_line_def)
  from t(1) have n: "length desc = ?n" by (metis length_map)
  have "list_all (token_ok ''$$'') ?ts" using t(2) loadable_token by (auto simp: list_all_iff)
  from get_tokens_row [OF c(1) escape_ok_delimiter [OF d] this _ c(2) [unfolded csv_line_def]] ne obtain c' where
    c': "get_tokens ?n c = (?ts, c')" "istm c' = istm c" "plain_csv d ''$$'' c'" "has_bom c' = has_bom c"
      "terminate_on_blank_line c' = terminate_on_blank_line c" by auto
  let ?D = "take (4 * ?n) tuple" and ?T = "drop (4 * ?n) tuple"
  have "load_columns ops desc 0 (of_nat (4 * ?n)) (filled ?n [] ?D ?T) c =
      Inr (of_nat (4 * ?n + length (concat ?b)),
        filled ?n (map (map Some) ?b) [] (drop (length (concat ?b)) ?T), c')"
  proof -
    have "get_tokens (length desc) c = (?ts, c')" "?n = length ([] :: cell list list) + length desc"
      "length ?D = 4 * length desc" "length (concat ?b) \<le> length ?T"
      "4 * ?n + length (concat ([] :: cell list list)) + length (concat ?b) < 2 ^ 32"
      using c'(1) n t(3,4) by (simp_all add: length_encode_tuple)
    from load_columns_filled [OF loadable_columns [OF t(2,1)] this] show ?thesis
      by (simp only: list.size(3) concat.simps(1) append_Nil add_0_right)
  qed
  moreover have "filled ?n (map (map Some) ?b) [] (drop (length (concat ?b)) ?T) =
      encode_tuple vs @ drop (length (encode_tuple vs)) tuple"
    using filled_complete [of "map (map Some) ?b" "drop (length (concat ?b)) ?T"]
    by (simp add: encode_tuple_def length_encode_tuple [unfolded encode_tuple_def] o_def add.commute)
  ultimately have "load_columns ops desc 0 (of_nat (sizeof_Slot * length desc)) tuple c =
      Inr (of_nat (length (encode_tuple vs)), encode_tuple vs @ drop (length (encode_tuple vs)) tuple, c')"
    by (simp add: n sizeof_Slot_def length_encode_tuple filled_def)
  from that [OF this c'(2-5)] show thesis .
qed

lemma load_row_ok:
  assumes ok: "row_ok ops desc d (length tuple) vs" and d: "delimiter_ok d"
    and c: "plain_csv d ''$$'' c" "drop (csv_pos c) (csv_str c) = csv_line ops d vs"
    and put: "WriteHandler_Put st relid (map the (encode_tuple vs)) = Inr st'"
  obtains tuple' c' where "load_row ops desc relid tuple c st = Inr (tuple', c', st')"
    and "length tuple' = length tuple" and "istm c' = istm c" "plain_csv d ''$$'' c'" "has_bom c' = has_bom c"
      "terminate_on_blank_line c' = terminate_on_blank_line c"
proof -
  from load_columns_row [OF ok d c] obtain c' where lc:
    "load_columns ops desc 0 (of_nat (sizeof_Slot * length desc)) tuple c =
      Inr (of_nat (length (encode_tuple vs)), encode_tuple vs @ drop (length (encode_tuple vs)) tuple, c')"
    "istm c' = istm c" "plain_csv d ''$$'' c'" "has_bom c' = has_bom c"
      "terminate_on_blank_line c' = terminate_on_blank_line c" .
  from ok have b: "length (encode_tuple vs) < 2 ^ 32" "length (encode_tuple vs) \<le> length tuple" "vs \<noteq> []"
    by (auto simp: row_ok_def csv_line_def)
  have u: "unat (of_nat (length (encode_tuple vs)) :: u32) = length (encode_tuple vs)"
    using b(1) by (simp add: unat_of_nat)
  moreover have "0 < length (encode_tuple vs)" using b(3) by (simp add: length_encode_tuple)
  ultimately have pos: "(0 :: u32) < of_nat (length (encode_tuple vs))"
    by (simp add: word_less_nat_alt del: length_greater_0_conv)
  have "deref (length (encode_tuple vs)) (encode_tuple vs @ drop (length (encode_tuple vs)) tuple) =
      Inr (map the (encode_tuple vs))"
    using deref_append [of "map the (encode_tuple vs)"] by (metis encode_tuple_bytes length_map)
  then have "load_row ops desc relid tuple c st =
      Inr (encode_tuple vs @ drop (length (encode_tuple vs)) tuple, c', st')"
    using lc(1) pos u put by (simp add: load_row_def)
  from that [OF this _ lc(2-5)] b(2) show thesis by simp
qed

end
