(* ===== verification/Copy_Exec.thy ===== *)
theory Copy_Exec
  imports Copy_Load "HOL-Library.Multiset"
begin

section \<open>The effect of a load on the store\<close>

text \<open>
  A load of lines that are the text of rows: the rows go into the batch of the write handler in
  order, each under the next UUID, and the commit applies the batch to the relation. Afterwards
  an iterator over the relation reads the old tuples and the new ones.
\<close>

subsection \<open>Batches\<close>

fun row_batch :: "(nat \<Rightarrow> key) \<Rightarrow> nat \<Rightarrow> db_value list list \<Rightarrow> batch_op list" where
  "row_batch ids n [] = []"
| "row_batch ids n (vs # rows) = Batch_Put (ids n) (map the (encode_tuple vs)) # row_batch ids (Suc n) rows"

fun put_rows :: "LevelStore \<Rightarrow> u32 \<Rightarrow> db_value list list \<Rightarrow> LevelStore res" where
  "put_rows st relid [] = Inr st"
| "put_rows st relid (vs # rows) =
     bind_res (WriteHandler_Put st relid (map the (encode_tuple vs))) (\<lambda>st. put_rows st relid rows)"

lemma update_same: "map_of m k = Some v \<Longrightarrow> AList.update k v m = m"
  by (induction m) auto

lemma put_rows_batch:
  assumes "map_of (write_handler_map st) relid = Some h"
  shows "put_rows st relid rows = Inr (st\<lparr>uuid_next := uuid_next st + length rows,
    write_handler_map := AList.update relid
      (h\<lparr>wh_batch := wh_batch h @ row_batch (uuid st) (uuid_next st) rows\<rparr>) (write_handler_map st)\<rparr>)"
  using assms
proof (induction rows arbitrary: st h)
  case (Cons vs rows)
  let ?h = "h\<lparr>wh_batch := wh_batch h @ [Batch_Put (uuid st (uuid_next st)) (map the (encode_tuple vs))]\<rparr>"
  let ?st = "st\<lparr>uuid_next := uuid_next st + 1,
    write_handler_map := AList.update relid ?h (write_handler_map st)\<rparr>"
  have "WriteHandler_Put st relid (map the (encode_tuple vs)) = Inr ?st"
    using Cons.prems by (simp add: WriteHandler_Put_def WriteHandler_PutKey_def GenUUID_def batch_add_def)
  with Cons.IH [of ?st ?h] show ?case by (simp add: update_conv')
qed (simp add: update_same)

lemma put_rows_Cons:
  assumes "map_of (write_handler_map st) relid = Some h"
  obtains st1 h1 where "WriteHandler_Put st relid (map the (encode_tuple vs)) = Inr st1"
    and "map_of (write_handler_map st1) relid = Some h1"
  using assms by (auto simp: WriteHandler_Put_def WriteHandler_PutKey_def GenUUID_def batch_add_def update_conv')

subsection \<open>Lines\<close>

definition csv_file :: "text_ops \<Rightarrow> char \<Rightarrow> db_value list list \<Rightarrow> string" where
  "csv_file ops d rows = concat (map (\<lambda>vs. csv_line ops d vs @ [CHR 0x0A]) rows)"

lemma set_row_line: "set (row_line d e ts) \<subseteq> (\<Union>t \<in> set ts. set (replace t [d] e)) \<union> {d}"
  by (induction d e ts rule: row_line.induct) auto

lemma csv_line_no_newline:
  assumes "list_all (loadable ops) vs" "delimiter_ok d"
  shows "CHR 0x0A \<notin> set (csv_line ops d vs)"
proof
  assume "CHR 0x0A \<in> set (csv_line ops d vs)"
  with set_row_line [of d "''$$''" "map (csv_text ops) vs"] assms(2)
  obtain v where "v \<in> set vs" "CHR 0x0A \<in> set (replace (csv_text ops v) [d] ''$$'')"
    by (auto simp: csv_line_def delimiter_ok_def)
  moreover have "token_ok ''$$'' (csv_text ops v)" if "v \<in> set vs" for v
    using that assms(1) loadable_token by (auto simp: list_all_iff)
  ultimately show False using escaped_plain(3) [OF escape_ok_delimiter [OF assms(2)]] by blast
qed

definition reader_at :: "char \<Rightarrow> string \<Rightarrow> csv_in \<Rightarrow> bool" where
  "reader_at d s c \<longleftrightarrow> plain_csv d ''$$'' c \<and> rest (istm c) = s \<and> \<not> eofbit (istm c) \<and> \<not> failbit (istm c) \<and>
     \<not> has_bom c \<and> terminate_on_blank_line c"

lemma load_lines_rows:
  assumes "list_all (row_ok ops desc d (length tuple)) rows" "delimiter_ok d" "reader_at d (csv_file ops d rows) c"
    and "map_of (write_handler_map st) relid = Some h" "put_rows st relid rows = Inr st'" "length rows < k"
  shows "\<exists>tuple' c'. load_lines ops desc relid k cnt tuple c st = Inr (Some (cnt + length rows), tuple', c', st')"
  using assms
proof (induction rows arbitrary: k cnt tuple c st h)
  case Nil
  then obtain j where k: "k = Suc j" by (cases k) auto
  from Nil.prems(3) obtain c' where "read_line (Suc j) c = Inr (False, c')"
    using read_line_end [of c j] by (auto simp: reader_at_def csv_file_def)
  with Nil.prems k show ?case by simp
next
  case (Cons vs rows)
  from Cons.prems(6) obtain j where k: "k = Suc j" by (cases k) auto
  from Cons.prems(1) have ok: "row_ok ops desc d (length tuple) vs" by simp
  let ?left = "csv_file ops d rows"
  let ?c = "c\<lparr>istm := (istm c)\<lparr>rest := ?left\<rparr>, csv_str := csv_line ops d vs, csv_pos := 0,
    first_line_read := True, line_num := line_num c + 1, token_num := 0\<rparr>"
  have "rest (istm c) = csv_line ops d vs @ CHR 0x0A # ?left" "\<not> eofbit (istm c)" "\<not> failbit (istm c)" "\<not> has_bom c"
    using Cons.prems(3) by (simp_all add: reader_at_def csv_file_def)
  then have r: "read_line (Suc j) c = Inr (True, ?c)"
    using read_line_next [of c "csv_line ops d vs" ?left j] csv_line_no_newline [OF _ Cons.prems(2)] ok
    by (auto simp: row_ok_def)
  have pc: "plain_csv d ''$$'' ?c" using Cons.prems(3) by (simp add: reader_at_def plain_csv_def)
  from put_rows_Cons [OF Cons.prems(4)] obtain st1 h1 where
    p: "WriteHandler_Put st relid (map the (encode_tuple vs)) = Inr st1" "map_of (write_handler_map st1) relid = Some h1" .
  from load_row_ok [OF ok Cons.prems(2) pc _ p(1)] obtain tuple' c' where
    l: "load_row ops desc relid tuple ?c st = Inr (tuple', c', st1)" "length tuple' = length tuple"
      "istm c' = istm ?c" "plain_csv d ''$$'' c'" "has_bom c' = has_bom ?c"
      "terminate_on_blank_line c' = terminate_on_blank_line ?c" by auto
  have "reader_at d ?left c'" using l(3-6) Cons.prems(3) by (simp add: reader_at_def)
  moreover have "list_all (row_ok ops desc d (length tuple')) rows" "put_rows st1 relid rows = Inr st'" "length rows < j"
    using Cons.prems(1,5,6) k p(1) l(2) by simp_all
  ultimately obtain tuple'' c'' where
    "load_lines ops desc relid j (Suc cnt) tuple' c' st1 = Inr (Some (Suc cnt + length rows), tuple'', c'', st')"
    using Cons.IH [OF _ Cons.prems(2) _ p(2)] by blast
  with r l(1) show ?case by (simp add: k)
qed


subsection \<open>The load\<close>

text \<open>The state of the store after the load of some rows into a relation nobody has open.\<close>

definition loaded :: "LevelStore \<Rightarrow> u32 \<Rightarrow> db_value list list \<Rightarrow> LevelStore" where
  "loaded st relid rows =
     (let p = GetDBFilePath st relid; b = row_batch (uuid st) (uuid_next st) rows in
      st\<lparr>files := (files st)(p \<mapsto> batch_apply b (DB_entries st p)), locked := (locked st)(p := True),
         uuid_next := uuid_next st + length rows,
         write_handler_map := AList.update relid \<lparr>wh_batch = b, wh_reference = 1\<rparr> (write_handler_map st)\<rparr>)"

definition copy_message :: "nat \<Rightarrow> string \<Rightarrow> string" where
  "copy_message n rname = ''copy '' @ show_nat n @ '' to relation '' @ rname @ ''.''"

lemma update_update: "AList.update k w (AList.update k v m) = AList.update k w m"
  by (induction m) auto

lemma reader_at_open:
  "3 \<le> length s \<Longrightarrow> \<not> BOM_hit s \<Longrightarrow> reader_at d s (set_in_delimiter (csv_open s) d ''$$'')"
  by (simp add: reader_at_def set_in_delimiter_def csv_open_def plain_csv_def)

lemma Load_Exec_rows:
  assumes inv: "handles_inv st" and free: "\<not> system_open st relid" "\<not> has_writer st relid" "\<not> has_reader st relid"
    and rel: "GetRelation st rname = Some rel" "relation_id rel = relid"
    and rows: "list_all (row_ok ops (Relation_ToDesc rel) d page_size) rows" "delimiter_ok d" "length rows < k"
    and fil: "fs path = Some (csv_file ops d rows)" "3 \<le> length (csv_file ops d rows)"
      "\<not> BOM_hit (csv_file ops d rows)"
  obtains ld ld' where "Load_Prepare fs (Load_new page_size path rname d) = (kStateOK, ld)"
    and "Load_Exec ops True k ld st = Inr (kStateOK, ld', loaded st relid rows)"
    and "ld_response ld' = copy_message (length rows) rname" "ld_batch ld' = Some relid"
proof -
  let ?c = "set_in_delimiter (csv_open (csv_file ops d rows)) d ''$$''"
  let ?ld = "(Load_new page_size path rname d)\<lparr>ld_is := Some ?c\<rparr>"
  let ?p = "GetDBFilePath st relid"
  define st1 where "st1 = st\<lparr>files := (files st)(?p \<mapsto> DB_entries st ?p), locked := (locked st)(?p := True),
    write_handler_map := AList.update relid \<lparr>wh_batch = [], wh_reference = 1\<rparr> (write_handler_map st)\<rparr>"
  have prep: "Load_Prepare fs (Load_new page_size path rname d) = (kStateOK, ?ld)"
    using fil by (simp add: Load_Prepare_def Load_new_def)
  have new: "NewWriteHandler st relid = Inr st1"
    using NewWriteHandler_new [OF inv free(2)] free by (simp add: st1_def Let_def)
  define st2 where "st2 = st1\<lparr>uuid_next := uuid_next st + length rows, write_handler_map :=
    AList.update relid \<lparr>wh_batch = row_batch (uuid st) (uuid_next st) rows, wh_reference = 1\<rparr> (write_handler_map st1)\<rparr>"
  have w: "map_of (write_handler_map st1) relid = Some \<lparr>wh_batch = [], wh_reference = 1\<rparr>"
    by (simp add: st1_def update_conv')
  from put_rows_batch [OF this, of rows] have p: "put_rows st1 relid rows = Inr st2"
    by (simp add: st2_def st1_def)
  have "list_all (row_ok ops (Relation_ToDesc rel) d (length (ld_tuple ?ld))) rows"
    using rows(1) by (simp add: Load_new_def CreateTuple_def)
  from load_lines_rows [OF this rows(2) reader_at_open [OF fil(2,3)] w p rows(3), of 0] obtain tuple c where l:
    "load_lines ops (Relation_ToDesc rel) relid k 0 (ld_tuple ?ld) ?c st1 = Inr (Some (length rows), tuple, c, st2)"
    by auto
  have "WriteHandler_Commit True st2 relid = Inr (True, loaded st relid rows)"
    by (simp add: WriteHandler_Commit_def st2_def st1_def update_conv' DB_Write_def loaded_def Let_def
        DB_entries_def update_update)
  then have e: "Load_Exec ops True k ?ld st = Inr (kStateOK, ?ld\<lparr>ld_batch := Some relid, ld_tuple := tuple,
      ld_is := Some c, ld_response := copy_message (length rows) rname\<rparr>, loaded st relid rows)"
    using rel new l by (simp add: Load_Exec_def Load_new_def copy_message_def)
  show thesis by (rule that [OF prep e]) simp_all
qed

subsection \<open>What the relation holds afterwards\<close>

text \<open>Keys are fresh when no UUID to come is in the relation and no two of them are equal.\<close>

definition fresh_ids :: "LevelStore \<Rightarrow> u32 \<Rightarrow> bool" where
  "fresh_ids st relid \<longleftrightarrow> inj (uuid st) \<and>
     (\<forall>n \<ge> uuid_next st. uuid st n \<notin> fst ` set (DB_entries st (GetDBFilePath st relid)))"

lemma mset_kv_put: "k \<notin> fst ` set m \<Longrightarrow> mset (kv_put k v m) = add_mset (k, v) (mset m)"
  by (induction m) auto

lemma row_batch_values:
  assumes "inj ids" "\<forall>i \<ge> n. ids i \<notin> fst ` set m"
  shows "mset (map snd (batch_apply (row_batch ids n rows) m)) =
    mset (map (\<lambda>vs. map the (encode_tuple vs)) rows) + mset (map snd m)"
  using assms(2)
proof (induction rows arbitrary: n m)
  case (Cons vs rows)
  let ?m = "kv_put (ids n) (map the (encode_tuple vs)) m"
  have "\<forall>i \<ge> Suc n. ids i \<notin> fst ` set ?m"
    using Cons.prems assms(1) by (auto simp: set_kv_put inj_eq)
  from Cons.IH [OF this] mset_kv_put [of "ids n" m] Cons.prems show ?case
    by (simp add: batch_apply_def batch_step_def)
qed (simp add: batch_apply_def)

lemma DB_entries_loaded:
  "DB_entries (loaded st relid rows) (GetDBFilePath st relid) =
   batch_apply (row_batch (uuid st) (uuid_next st) rows) (DB_entries st (GetDBFilePath st relid))"
  by (simp add: loaded_def Let_def DB_entries_def)

lemma loaded_values:
  "fresh_ids st relid \<Longrightarrow>
   mset (map snd (DB_entries (loaded st relid rows) (GetDBFilePath st relid))) =
   mset (map (\<lambda>vs. map the (encode_tuple vs)) rows) + mset (map snd (DB_entries st (GetDBFilePath st relid)))"
  unfolding DB_entries_loaded fresh_ids_def by (elim conjE) (rule row_batch_values)

lemma Load_unknown_relation:
  "GetRelation st rname = None \<Longrightarrow>
   Load_Exec ops ok k (Load_new page_size path rname d) st = Inr (kStateRelationNotFound, Load_new page_size path rname d, st) \<and>
   Load_delete (Load_new page_size path rname d) st = Inl Null_pointer"
  by (simp add: Load_Exec_def Load_new_def Load_delete_def DeleteIOObject_def)

end
