(* ===== verification/Copy_Export.thy ===== *)
theory Copy_Export
  imports Copy_Exec
begin

section \<open>Export, and export followed by load\<close>

text \<open>
  The file that \<open>COPY ... TO\<close> writes for a relation is the text of its rows, one line each; loaded
  into another relation with the same columns it gives the same tuples.
\<close>

subsection \<open>Columns\<close>

definition writer :: "csv_out \<Rightarrow> bool" where
  "writer c \<longleftrightarrow> out_delimiter c = CHR '','' \<and> escape_str c = ''$$'' \<and> \<not> surround_quote_on_str c"

lemma csv_put_string_text: "writer c \<Longrightarrow> csv_put_string c s = csv_put_text c s"
  by (simp add: csv_put_string_def csv_put_text_def escape_str_and_output_def escape_and_output_def
      writer_def put_separator_def Let_def)

lemma export_value_encoded:
  assumes "i < length vs" "fits_slots vs" "writer c"
  shows "export_value ops (value_type (vs ! i)) (encode_tuple vs) i c = Inr (csv_put_text c (csv_text ops (vs ! i)))"
proof -
  from encoded_slot [OF assms(1,2)] obtain s R where s: "RawTuple_GetSlot (encode_tuple vs) i = Inr s"
    "unat (len s) = length (encode_value (vs ! i))"
    "RawTuple_GetValue (encode_tuple vs) (unat (offset s)) = map Some (encode_value (vs ! i)) @ R"
    by metis
  show ?thesis
    by (cases "vs ! i") (use s assms(3) in \<open>simp_all add: export_value_def RawTuple_GetInteger_def
      RawTuple_GetDouble_def deref_append_n csv_put_string_text\<close>)
qed

fun more_columns :: "string list \<Rightarrow> string" where
  "more_columns [] = []"
| "more_columns (t # ts) = CHR '','' # replace t [CHR '',''] ''$$'' @ more_columns ts"

lemma row_line_more: "row_line (CHR '','') ''$$'' (t # ts) = replace t [CHR '',''] ''$$'' @ more_columns ts"
  by (induction ts arbitrary: t) simp_all

lemma csv_put_text_more:
  "writer c \<Longrightarrow> \<not> after_newline c \<Longrightarrow> csv_put_text c t = c\<lparr>ostm := ostm c @ more_columns [t]\<rparr>"
  by (cases c) (simp add: csv_put_text_def put_separator_def escape_and_output_def csv_escape_def writer_def)

lemma csv_put_text_first:
  "writer c \<Longrightarrow> after_newline c \<Longrightarrow>
   csv_put_text c t = c\<lparr>ostm := ostm c @ replace t [CHR '',''] ''$$'', after_newline := False\<rparr>"
  by (cases c) (simp add: csv_put_text_def put_separator_def escape_and_output_def csv_escape_def writer_def)

lemma export_columns_more:
  assumes "map data_type cols = map value_type (drop i vs)" "fits_slots vs" "writer c" "\<not> after_newline c"
  shows "export_columns ops cols i [Some (encode_tuple vs)] c = Inr (c\<lparr>ostm := ostm c @ more_columns (map (csv_text ops) (drop i vs))\<rparr>)"
  using assms(1,3,4)
proof (induction cols arbitrary: i c)
  case (Cons col cols)
  then have i: "i < length vs" by (metis drop_all length_map list.distinct(1) list.size(3) not_le_imp_less map_is_Nil_conv)
  then have d: "drop i vs = vs ! i # drop (Suc i) vs" by (rule Cons_nth_drop_Suc [symmetric])
  have w: "writer (c\<lparr>ostm := s\<rparr>)" for s using Cons.prems(2) by (simp add: writer_def)
  have "export_columns ops (col # cols) i [Some (encode_tuple vs)] c = export_columns ops cols (Suc i) [Some (encode_tuple vs)]
      (c\<lparr>ostm := ostm c @ more_columns [csv_text ops (vs ! i)]\<rparr>)"
    using Cons.prems d export_value_encoded [OF i assms(2) Cons.prems(2), of ops]
    by (simp add: TupleRow_GetTuple_def csv_put_text_more)
  also have "\<dots> = Inr (c\<lparr>ostm := ostm c @ more_columns (map (csv_text ops) (drop i vs))\<rparr>)"
    by (subst Cons.IH) (use Cons.prems d w in simp_all)
  finally show ?case .
qed simp

lemma export_columns_row:
  assumes "map data_type cols = map value_type vs" "fits_slots vs" "writer c" "after_newline c" "vs \<noteq> []"
  shows "export_columns ops cols 0 [Some (encode_tuple vs)] c =
    Inr (c\<lparr>ostm := ostm c @ csv_line ops (CHR '','') vs, after_newline := False\<rparr>)"
proof -
  from assms(5) obtain v us where vs: "vs = v # us" by (cases vs) auto
  with assms(1) obtain col cols' where cols: "cols = col # cols'" "data_type col = value_type v"
    "map data_type cols' = map value_type us" by (cases cols) auto
  let ?c = "c\<lparr>ostm := ostm c @ replace (csv_text ops v) [CHR '',''] ''$$'', after_newline := False\<rparr>"
  have w: "writer ?c" "\<not> after_newline ?c" using assms(3) by (simp_all add: writer_def)
  have "export_columns ops cols 0 [Some (encode_tuple vs)] c = export_columns ops cols' (Suc 0) [Some (encode_tuple vs)] ?c"
    using export_value_encoded [of 0 vs c ops] assms(2-4) vs cols
    by (simp add: TupleRow_GetTuple_def csv_put_text_first)
  also have "\<dots> = Inr (?c\<lparr>ostm := ostm ?c @ more_columns (map (csv_text ops) (drop (Suc 0) vs))\<rparr>)"
    by (rule export_columns_more [OF _ assms(2) w]) (use vs cols in simp)
  finally show ?thesis by (simp add: vs csv_line_def row_line_more)
qed

subsection \<open>Rows\<close>

definition export_ok :: "RowDesc \<Rightarrow> db_value list \<Rightarrow> bool" where
  "export_ok desc vs \<longleftrightarrow> map data_type desc = map value_type vs \<and> fits_slots vs \<and> vs \<noteq> []"

lemma export_loop_rows:
  assumes "list_all (export_ok desc) rows" "map (map Some) (iter_rest (\<sigma> r)) = map encode_tuple rows"
    and "writer c" "after_newline c" "length row = 1" "Suc (length rows) < k"
  shows "\<exists>\<sigma>' te c'. export_loop ops k desc \<sigma> (SeqScan r 0 m) row c cnt =
    Inr (kStateEOF, \<sigma>', te, c', cnt + int (length rows)) \<and> ostm c' = ostm c @ csv_file ops (CHR '','') rows"
  using assms
proof (induction rows arbitrary: k \<sigma> m row c cnt)
  case Nil
  define j where "j = k - 2"
  have k: "k = Suc (Suc j)" using Nil.prems(6) by (simp add: j_def)
  from Nil.prems(2) show ?case
    by (simp add: k SeqScan_GetNext_def iter_rest_Nil_Valid csv_file_def)
next
  case (Cons vs rows)
  define j where "j = k - 2"
  have k: "k = Suc (Suc j)" using Cons.prems(6) by (simp add: j_def)
  from Cons.prems(2) obtain t ts where it: "iter_rest (\<sigma> r) = t # ts" and enc: "map Some t = encode_tuple vs"
    and ts: "map (map Some) ts = map encode_tuple rows" by auto
  from iter_rest_Cons [OF it] obtain it' where
    i: "IteratorHandler_Valid (\<sigma> r)" "IteratorHandler_GetTuple (\<sigma> r) = Inr t"
      "IteratorHandler_Next (\<sigma> r) = Inr it'" "iter_rest it' = ts" .
  from Cons.prems(5) obtain x where row: "row = [x]" by (cases row) auto
  let ?c = "c\<lparr>ostm := ostm c @ csv_line ops (CHR '','') vs @ [CHR 0x0A]\<rparr>"
  have g: "GetNext (Suc j) \<sigma> (SeqScan r 0 m) row =
      Inr (kStateOK, \<sigma>(r := it'), SeqScan r 0 (Suc m), [Some (encode_tuple vs)])"
    using i enc row by (simp add: SeqScan_GetNext_def TupleRow_SetTuple_def)
  have e: "export_columns ops desc 0 [Some (encode_tuple vs)] c =
      Inr (c\<lparr>ostm := ostm c @ csv_line ops (CHR '','') vs, after_newline := False\<rparr>)"
    by (rule export_columns_row) (use Cons.prems(1,3,4) in \<open>auto simp: export_ok_def\<close>)
  have n: "csv_put_char (c\<lparr>ostm := ostm c @ csv_line ops (CHR '','') vs, after_newline := False\<rparr>) (CHR 0x0A) = ?c"
    using Cons.prems(4) by (cases c) (simp add: csv_put_char_def)
  have "\<exists>\<sigma>' te c'. export_loop ops (Suc j) desc (\<sigma>(r := it')) (SeqScan r 0 (Suc m)) [Some (encode_tuple vs)] ?c (cnt + 1) =
      Inr (kStateEOF, \<sigma>', te, c', cnt + 1 + int (length rows)) \<and> ostm c' = ostm ?c @ csv_file ops (CHR '','') rows"
    by (rule Cons.IH) (use Cons.prems ts i(4) k in \<open>simp_all add: writer_def\<close>)
  moreover have "export_loop ops (Suc (Suc j)) desc \<sigma> (SeqScan r 0 m) row c cnt =
      export_loop ops (Suc j) desc (\<sigma>(r := it')) (SeqScan r 0 (Suc m)) [Some (encode_tuple vs)] ?c (cnt + 1)"
    using g e n by (subst export_loop.simps) (simp del: export_loop.simps GetNext.simps)
  ultimately show ?case by (simp add: k csv_file_def add.assoc del: export_loop.simps)
qed

lemma Export_Exec_rows:
  assumes "list_all (export_ok desc) rows" "map (map Some) (iter_all (\<sigma> r)) = map encode_tuple rows"
    and "Suc (length rows) < k"
  shows "\<exists>\<sigma>' te. Export_Exec ops k desc \<sigma> (SeqScan_new r 0) = Inr (kStateOK, ''copy '' @ show_int (int (length rows)) @ ''.'',
    csv_file ops (CHR '','') rows, \<sigma>', te)"
proof -
  let ?\<sigma> = "\<sigma>(r := IteratorHandler_SeekToFirst (\<sigma> r))"
  let ?c = "set_out_delimiter csv_create (CHR '','') ''$$''"
  from assms(3) obtain j where k: "k = Suc j" by (cases k) auto
  have "\<exists>\<sigma>' te c'. export_loop ops k desc ?\<sigma> (SeqScan r 0 0) (TupleRow_new 1) ?c 0 =
      Inr (kStateEOF, \<sigma>', te, c', 0 + int (length rows)) \<and> ostm c' = ostm ?c @ csv_file ops (CHR '','') rows"
    by (rule export_loop_rows [OF assms(1) _ _ _ _ assms(3)])
       (use assms(2) in \<open>simp_all add: writer_def set_out_delimiter_def csv_create_def TupleRow_new_def\<close>)
  then show ?thesis
    by (auto simp: Export_Exec_def SeqScan_new_def k set_out_delimiter_def csv_create_def simp del: export_loop.simps)
qed

end
