(* ===== verification/Session_Recv.thy ===== *)
theory Session_Recv
  imports Session_Send
begin

section \<open>Messages from the client\<close>

text \<open>
  Models the receiving half of \<^verbatim>\<open>rrportal/session.cpp\<close>: the startup packet, the command loop and
  the processing of a simple query, with the protocol constants of \<^verbatim>\<open>include/postgres/pgcomm.h\<close>.
  The stages and the destructor of the realizer are a parameter here (\<open>realizer_ops\<close>).
\<close>

subsection \<open>Protocol versions\<close>

definition PG_PROTOCOL_MAJOR :: "u32 \<Rightarrow> u32" where
  "PG_PROTOCOL_MAJOR v = drop_bit 16 v"

definition PG_PROTOCOL_MINOR :: "u32 \<Rightarrow> u32" where
  "PG_PROTOCOL_MINOR v = v AND 0xFFFF"

definition PG_PROTOCOL :: "u32 \<Rightarrow> u32 \<Rightarrow> u32" where
  "PG_PROTOCOL m n = push_bit 16 m OR n"

definition PG_PROTOCOL_EARLIEST :: u32 where
  "PG_PROTOCOL_EARLIEST = PG_PROTOCOL 2 0"

definition PG_PROTOCOL_LATEST :: u32 where
  "PG_PROTOCOL_LATEST = PG_PROTOCOL 3 0"

definition CANCEL_REQUEST_CODE :: u32 where
  "CANCEL_REQUEST_CODE = PG_PROTOCOL 1234 5678"

definition NEGOTIATE_SSL_CODE :: u32 where
  "NEGOTIATE_SSL_CODE = PG_PROTOCOL 1234 5679"

subsection \<open>Reading\<close>

definition sock_read :: "'s socket_ops \<Rightarrow> 's Session \<Rightarrow> nat \<Rightarrow> (byte list \<times> 's Session) res" where
  "sock_read net ss n = bind_res (asio_read net (sock ss) n) (\<lambda>(bs, s). Inr (bs, ss\<lparr>sock := s\<rparr>))"

text \<open>Make room for \<open>n\<close> bytes in the read buffer and read them into it.\<close>

definition read_into_buffer :: "'s socket_ops \<Rightarrow> 's Session \<Rightarrow> nat \<Rightarrow> (nat \<times> 's Session) res" where
  "read_into_buffer net ss n =
     (let mb = MessageBuffer_SetSize (MessageBuffer_ReAlloc (read_msg ss) n) n in
      bind_res (sock_read net (ss\<lparr>read_msg := mb\<rparr>) (MessageBuffer_GetSize mb)) (\<lambda>(bs, ss).
      bind_res (store_bytes (mb_data (read_msg ss)) 0 bs) (\<lambda>d.
      Inr (length bs, ss\<lparr>read_msg := (read_msg ss)\<lparr>mb_data := d\<rparr>\<rparr>))))"

definition ReadBody :: "'s socket_ops \<Rightarrow> 's Session \<Rightarrow> (bool \<times> 's Session) res" where
  "ReadBody net ss =
     bind_res (sock_read net ss 4) (\<lambda>(bs, ss).
     if length bs \<noteq> 4 then Inr (False, ss)
     else let plen = (be_word bs :: u32) - 4 in
       if sint plen < 0 then Inr (False, ss)
       else bind_res (read_into_buffer net ss (unat plen)) (\<lambda>(n, ss).
         if n < unat plen then Inr (False, ss) else Inr (True, ss)))"

text \<open>The switch over the message type in \<open>RecvCommand\<close> has no effect. A failure is the character 0.\<close>

definition RecvCommand :: "'s socket_ops \<Rightarrow> 's Session \<Rightarrow> (byte \<times> 's Session) res" where
  "RecvCommand net ss =
     bind_res (sock_read net ss 1) (\<lambda>(bs, ss).
     if length bs \<noteq> 1 then Inr (0, ss)
     else bind_res (ReadBody net ss) (\<lambda>(ok, ss).
       if \<not> ok then Inr (0, ss) else Inr (hd bs, ss)))"

definition read_msg_string :: "'s Session \<Rightarrow> string res" where
  "read_msg_string ss = bind_res (MessageBuffer_bytes (read_msg ss)) (\<lambda>bs. Inr (string_of bs))"

definition RecvCopyData :: "'s socket_ops \<Rightarrow> 's Session \<Rightarrow> (string \<times> 's Session) res" where
  "RecvCopyData net ss =
     (if stopped ss then Inr ([], ss)
      else bind_res (RecvCommand net ss) (\<lambda>(qtype, ss).
        if qtype = ascii CHR ''d'' then bind_res (read_msg_string ss) (\<lambda>s. Inr (s, ss))
        else Inr ([], ss)))"

subsection \<open>The startup packet\<close>

text \<open>A C string in memory, up to its null byte.\<close>

fun c_str :: "cell list \<Rightarrow> byte list res" where
  "c_str [] = Inl Out_of_bounds"
| "c_str (None # cs) = Inl Uninitialised"
| "c_str (Some b # cs) = (if b = 0 then Inr [] else bind_res (c_str cs) (\<lambda>bs. Inr (b # bs)))"

definition add_option :: "'s Session \<Rightarrow> string \<Rightarrow> string \<Rightarrow> 's Session" where
  "add_option ss name value =
     (let ss = (if name = ''database'' then ss\<lparr>database_name := value\<rparr>
                else if name = ''user'' then ss\<lparr>user_name := value\<rparr>
                else if name = ''options'' then ss\<lparr>cmdline_options := value\<rparr>
                else ss) in
      ss\<lparr>guc_options := guc_options ss @ [(name, value)]\<rparr>)"

text \<open>
  The loop over the name/value pairs of a packet of \<open>plen\<close> bytes in \<open>buf\<close>. The offset is a
  32-bit integer and is compared unsigned. Every round advances it, so \<open>plen\<close> rounds are enough.
\<close>

fun startup_options :: "nat \<Rightarrow> cell list \<Rightarrow> u32 \<Rightarrow> u32 \<Rightarrow> 's Session \<Rightarrow> (u32 \<times> 's Session) res" where
  "startup_options 0 buf plen off ss = Inl Out_of_fuel"
| "startup_options (Suc k) buf plen off ss =
     (if off < plen then
        bind_res (deref 1 (drop (unat off) buf)) (\<lambda>first.
        if first = [0] then Inr (off, ss)
        else bind_res (c_str (drop (unat off) buf)) (\<lambda>name.
        let valoffset = off + of_nat (length name) + 1 in
        if valoffset \<ge> plen then Inr (off, ss)
        else bind_res (c_str (drop (unat valoffset) buf)) (\<lambda>value.
        startup_options k buf plen (valoffset + of_nat (length value) + 1)
          (add_option ss (string_of name) (string_of value)))))
      else Inr (off, ss))"

definition startup_body :: "'s socket_ops \<Rightarrow> u32 \<Rightarrow> u32 \<Rightarrow> 's Session \<Rightarrow> (bool \<times> 's Session) res" where
  "startup_body net plen proto ss =
     (if PG_PROTOCOL_MAJOR proto < PG_PROTOCOL_MAJOR PG_PROTOCOL_EARLIEST \<or>
         PG_PROTOCOL_MAJOR proto > PG_PROTOCOL_MAJOR PG_PROTOCOL_LATEST \<or>
         (PG_PROTOCOL_MAJOR proto = PG_PROTOCOL_MAJOR PG_PROTOCOL_LATEST \<and>
          PG_PROTOCOL_MINOR proto > PG_PROTOCOL_MINOR PG_PROTOCOL_LATEST)
      then Inr (False, ss)
      else if PG_PROTOCOL_MAJOR proto < 3 then Inr (False, ss)
      else bind_res (startup_options (Suc (unat plen)) (mb_data (read_msg ss)) plen 4 ss) (\<lambda>(off, ss).
        if off \<noteq> plen - 1 then Inr (False, ss)
        else SendAuthRequest net (ss\<lparr>proto_version := proto\<rparr>)))"

text \<open>
  One reading of a packet. An SSL request is refused with the byte \<open>N\<close> when none has been
  seen before; the result \<open>None\<close> then asks for another packet. The version word is stored back
  into the buffer in host order.
\<close>

definition startup_packet :: "'s socket_ops \<Rightarrow> bool \<Rightarrow> 's Session \<Rightarrow> (bool option \<times> 's Session) res" where
  "startup_packet net ssl_done ss =
     bind_res (sock_read net ss 4) (\<lambda>(bs, ss).
     if length bs < 4 then Inr (Some False, ss)
     else let plen = (be_word bs :: u32) - 4 in
       bind_res (read_into_buffer net ss (unat plen)) (\<lambda>(n, ss).
       if n < unat plen then Inr (Some False, ss)
       else bind_res (load_bytes (mb_data (read_msg ss)) 0 4) (\<lambda>pv.
         let proto = (be_word pv :: u32) in
         bind_res (store_bytes (mb_data (read_msg ss)) 0 (le_bytes 4 proto)) (\<lambda>d.
         let ss = ss\<lparr>read_msg := (read_msg ss)\<lparr>mb_data := d\<rparr>\<rparr> in
         if proto = CANCEL_REQUEST_CODE then Inr (Some False, ss)
         else if proto = NEGOTIATE_SSL_CODE \<and> \<not> ssl_done then
           bind_res (asio_write net (sock ss) [ascii CHR ''N'']) (\<lambda>(m, s).
           if m \<noteq> 1 then Inr (Some False, ss\<lparr>sock := s\<rparr>) else Inr (None, ss\<lparr>sock := s\<rparr>))
         else bind_res (startup_body net plen proto ss) (\<lambda>(ok, ss). Inr (Some ok, ss))))))"

text \<open>The recursive call of the source has \<open>ssl_done\<close> set, so it does not recurse again.\<close>

definition ProcessStartupPacket :: "'s socket_ops \<Rightarrow> bool \<Rightarrow> 's Session \<Rightarrow> (bool \<times> 's Session) res" where
  "ProcessStartupPacket net ssl_done ss =
     bind_res (startup_packet net ssl_done ss) (\<lambda>(r, ss).
     case r of Some ok \<Rightarrow> Inr (ok, ss)
     | None \<Rightarrow> bind_res (startup_packet net True ss) (\<lambda>(r, ss).
         case r of Some ok \<Rightarrow> Inr (ok, ss) | None \<Rightarrow> Inl Assert_failed))"

subsection \<open>The command loop\<close>

text \<open>
  The realizer of a query: its five stages, the message it leaves, and its destructor. A stage acts
  on the realizer, on the state \<open>'w\<close> that all sessions share (the store, the files) and on the session.
\<close>

type_synonym ('r, 'w, 's) stage = "'r \<Rightarrow> 'w \<Rightarrow> 's Session \<Rightarrow> (State \<times> 'r \<times> 'w \<times> 's Session) res"

record ('r, 'w, 's) realizer_ops =
  rlz_new :: "string \<Rightarrow> 'r"
  rlz_Parse :: "('r, 'w, 's) stage"
  rlz_Check :: "('r, 'w, 's) stage"
  rlz_Optimize :: "('r, 'w, 's) stage"
  rlz_Build :: "('r, 'w, 's) stage"
  rlz_Execute :: "('r, 'w, 's) stage"
  rlz_Message :: "'r \<Rightarrow> string"
  rlz_delete :: "'r \<Rightarrow> 'w \<Rightarrow> 'w res"

text \<open>The stages in order; the first that does not succeed ends the query.\<close>

fun run_stages :: "('r, 'w, 's) stage list \<Rightarrow> ('r, 'w, 's) stage" where
  "run_stages [] r w ss = Inr (kStateOK, r, w, ss)"
| "run_stages (f # fs) r w ss =
     bind_res (f r w ss) (\<lambda>(state, r, w, ss).
     if state \<noteq> kStateOK then Inr (state, r, w, ss) else run_stages fs r w ss)"

definition ProcessSimpleQuery ::
  "'s socket_ops \<Rightarrow> ('r, 'w, 's) realizer_ops \<Rightarrow> 'w \<Rightarrow> 's Session \<Rightarrow> string \<Rightarrow> ('w \<times> 's Session) res" where
  "ProcessSimpleQuery net rlz w ss sql =
     bind_res (run_stages [rlz_Parse rlz, rlz_Check rlz, rlz_Optimize rlz, rlz_Build rlz, rlz_Execute rlz]
       (rlz_new rlz sql) w ss) (\<lambda>(state, r, w, ss).
     bind_res (if state \<noteq> kStateOK then SendErrorResponse net ss (rlz_Message rlz r)
               else SendCommandComplete net ss (rlz_Message rlz r)) (\<lambda>ss.
     bind_res (SendReadForQuery net ss (ascii CHR ''I'')) (\<lambda>ss.
     bind_res (rlz_delete rlz r w) (\<lambda>w. Inr (w, ss)))))"

fun MainLoop ::
  "'s socket_ops \<Rightarrow> ('r, 'w, 's) realizer_ops \<Rightarrow> nat \<Rightarrow> 'w \<Rightarrow> 's Session \<Rightarrow> ('w \<times> 's Session) res" where
  "MainLoop net rlz 0 w ss = Inl Out_of_fuel"
| "MainLoop net rlz (Suc k) w ss =
     (if stopped ss then Inr (w, ss)
      else bind_res (RecvCommand net ss) (\<lambda>(qtype, ss).
        if qtype = ascii CHR ''Q'' then
          bind_res (read_msg_string ss) (\<lambda>query.
          bind_res (ProcessSimpleQuery net rlz w ss query) (\<lambda>(w, ss). MainLoop net rlz k w ss))
        else if qtype = ascii CHR ''X'' then
          MainLoop net rlz k w (ss\<lparr>session_state := kStateFrontendTerminate, stopped := True\<rparr>)
        else MainLoop net rlz k w ss))"

text \<open>
  \<open>Thread\<close>: startup, the greeting messages, the command loop. A Boost exception ends the thread;
  the result says whether the session left its manager, as it does after a terminate message.
\<close>

definition Thread ::
  "'s socket_ops \<Rightarrow> ('r, 'w, 's) realizer_ops \<Rightarrow> nat \<Rightarrow> 'w \<Rightarrow> 's Session \<Rightarrow> (bool \<times> ('w \<times> 's Session) option) res" where
  "Thread net rlz k w ss =
     (let body =
        bind_res (ProcessStartupPacket net False ss) (\<lambda>(ok, ss).
        if \<not> ok then Inr (w, ss)
        else bind_res (SendParameterStatus net ss) (\<lambda>(ok, ss).
        if \<not> ok then Inr (w, ss)
        else bind_res (SendBackendKeyData net ss) (\<lambda>ss.
        bind_res (SendReadForQuery net ss (ascii CHR ''I'')) (\<lambda>ss.
        MainLoop net rlz k w ss)))) in
      case body of
        Inr (w, ss) \<Rightarrow> Inr (stopped ss \<and> session_state ss = kStateFrontendTerminate, Some (w, ss))
      | Inl f \<Rightarrow> if f = Cxx_exception then Inr (False, None) else Inl f)"

subsection \<open>Well-formed startup packets\<close>

text \<open>What the code relies on of a socket: reads deliver the input in order, or throw at its end.\<close>

definition reads_stream :: "'s socket_ops \<Rightarrow> ('s \<Rightarrow> byte list) \<Rightarrow> ('s \<Rightarrow> byte list) \<Rightarrow> bool" where
  "reads_stream net inp out \<longleftrightarrow>
     (\<forall>s n. if n \<le> length (inp s)
        then \<exists>s'. asio_read net s n = Inr (take n (inp s), s') \<and> inp s' = drop n (inp s) \<and> out s' = out s
        else asio_read net s n = Inl Cxx_exception) \<and>
     (\<forall>s bs n s'. asio_write net s bs = Inr (n, s') \<longrightarrow> inp s' = inp s)"

lemma sock_read_stream:
  assumes "reads_stream net inp out" and "inp (sock ss) = bs @ rest" and "n = length bs"
  shows "\<exists>s. sock_read net ss n = Inr (bs, ss\<lparr>sock := s\<rparr>) \<and> inp s = rest \<and> out s = out (sock ss)"
proof -
  have "n \<le> length (inp (sock ss))" "take n (inp (sock ss)) = bs" "drop n (inp (sock ss)) = rest"
    using assms(2,3) by simp_all
  moreover from this assms(1) obtain s where "asio_read net (sock ss) n = Inr (take n (inp (sock ss)), s)"
    "inp s = drop n (inp (sock ss))" "out s = out (sock ss)"
    unfolding reads_stream_def by meson
  ultimately show ?thesis by (auto simp: sock_read_def)
qed

text \<open>After \<open>ReAlloc n\<close> the block has room for \<open>n\<close> bytes.\<close>

definition buffer_ok :: "MessageBuffer \<Rightarrow> bool" where
  "buffer_ok mb \<longleftrightarrow> buffer_length mb \<le> length (mb_data mb)"

lemma ReAlloc_room:
  assumes "buffer_ok mb"
  shows "n \<le> length (mb_data (MessageBuffer_ReAlloc mb n))" and "buffer_ok (MessageBuffer_ReAlloc mb n)"
  using assms by (auto simp: buffer_ok_def MessageBuffer_ReAlloc_def realloc_def)

lemma read_into_buffer_stream:
  assumes "reads_stream net inp out" and "inp (sock ss) = bs @ rest" and "buffer_ok (read_msg ss)"
  shows "\<exists>s mb tail. read_into_buffer net ss (length bs) = Inr (length bs, ss\<lparr>read_msg := mb, sock := s\<rparr>) \<and>
    inp s = rest \<and> out s = out (sock ss) \<and> mb_data mb = map Some bs @ tail \<and> data_length mb = length bs \<and>
    buffer_ok mb"
proof -
  let ?mb = "MessageBuffer_SetSize (MessageBuffer_ReAlloc (read_msg ss) (length bs)) (length bs)"
  obtain s where s: "sock_read net (ss\<lparr>read_msg := ?mb\<rparr>) (length bs) = Inr (bs, ss\<lparr>read_msg := ?mb, sock := s\<rparr>)"
    "inp s = rest" "out s = out (sock ss)"
    using sock_read_stream [OF assms(1), of "ss\<lparr>read_msg := ?mb\<rparr>" bs rest "length bs"] assms(2) by auto
  have room: "length bs \<le> length (mb_data ?mb)" "buffer_ok ?mb"
    using ReAlloc_room [OF assms(3), of "length bs"] by (auto simp: MessageBuffer_SetSize_def buffer_ok_def)
  then have st: "store_bytes (mb_data ?mb) 0 bs = Inr (map Some bs @ drop (length bs) (mb_data ?mb))"
    by (simp add: store_bytes_def store_cells_def)
  define mb where "mb = ?mb\<lparr>mb_data := map Some bs @ drop (length bs) (mb_data ?mb)\<rparr>"
  have "read_into_buffer net ss (length bs) = Inr (length bs, ss\<lparr>read_msg := mb, sock := s\<rparr>)"
    using s(1) st by (simp add: read_into_buffer_def MessageBuffer_GetSize_def MessageBuffer_SetSize_def mb_def)
  moreover have "buffer_ok mb" "mb_data mb = map Some bs @ drop (length bs) (mb_data ?mb)" "data_length mb = length bs"
    using room by (simp_all add: buffer_ok_def mb_def MessageBuffer_SetSize_def)
  ultimately show ?thesis using s(2,3) by blast
qed

lemma c_str_append: "0 \<notin> set bs \<Longrightarrow> c_str (map Some bs @ Some 0 # rest) = Inr bs"
  by (induction bs) auto

definition option_bytes :: "(string \<times> string) list \<Rightarrow> byte list" where
  "option_bytes ps = concat (map (\<lambda>(n, v). bytes_of n @ [0] @ bytes_of v @ [0]) ps)"

definition option_ok :: "string \<times> string \<Rightarrow> bool" where
  "option_ok p \<longleftrightarrow> fst p \<noteq> [] \<and> CHR 0x00 \<notin> set (fst p) \<and> CHR 0x00 \<notin> set (snd p)"

lemma byte_of_char_0: "byte_of_char c = 0 \<longleftrightarrow> c = CHR 0x00"
proof -
  have "byte_of_char (CHR 0x00) = 0" by (simp add: byte_of_char_def)
  then show ?thesis by (metis char_of_byte_of_char)
qed

lemma bytes_of_no_null: "CHR 0x00 \<notin> set s \<Longrightarrow> 0 \<notin> set (bytes_of s)"
  by (auto simp: bytes_of_def dest: byte_of_char_0 [THEN iffD1, OF sym])

fun add_options :: "'s Session \<Rightarrow> (string \<times> string) list \<Rightarrow> 's Session" where
  "add_options ss [] = ss"
| "add_options ss (p # ps) = add_options (add_option ss (fst p) (snd p)) ps"

lemma add_option_guc [simp]:
  "guc_options (add_option ss n v) = guc_options ss @ [(n, v)]"
  "sock (add_option ss n v) = sock ss" "read_msg (add_option ss n v) = read_msg ss"
  "write_msg (add_option ss n v) = write_msg ss"
  by (auto simp: add_option_def Let_def)

lemma add_options_guc [simp]:
  "guc_options (add_options ss ps) = guc_options ss @ ps" "sock (add_options ss ps) = sock ss"
  "read_msg (add_options ss ps) = read_msg ss" "write_msg (add_options ss ps) = write_msg ss"
  by (induction ps arbitrary: ss) auto

lemma startup_options_run:
  assumes "\<forall>p \<in> set ps. option_ok p" and "length ps < k"
    and "buf = pre @ map Some (option_bytes ps @ [0]) @ tail"
    and "m = length pre + length (option_bytes ps) + 1" and "m < 2 ^ 32"
  shows "startup_options k buf (of_nat m) (of_nat (length pre)) ss = Inr (of_nat (m - 1), add_options ss ps)"
  using assms
proof (induction ps arbitrary: k pre ss)
  case Nil
  then obtain j where k: "k = Suc j" by (cases k) auto
  have "(of_nat (length pre) :: u32) < of_nat m" "unat (of_nat (length pre) :: u32) = length pre"
    using Nil.prems(4,5)
    by (simp_all add: word_less_nat_alt unat_of_nat option_bytes_def del: of_nat_add of_nat_Suc)
  moreover have "deref 1 (drop (length pre) buf) = Inr [0]"
    using Nil.prems(3) by (simp add: option_bytes_def deref_def)
  ultimately show ?case using Nil.prems(4) by (simp add: k option_bytes_def del: of_nat_add of_nat_Suc)
next
  case (Cons p ps)
  obtain n v where p: "p = (n, v)" by (cases p)
  obtain j where k: "k = Suc j" "length ps < j" using Cons.prems(2) by (cases k) auto
  have ok: "n \<noteq> []" "0 \<notin> set (bytes_of n)" "0 \<notin> set (bytes_of v)"
    using Cons.prems(1) bytes_of_no_null by (auto simp: p option_ok_def)
  define o1 o2 where "o1 = length pre + length n + 1" and "o2 = o1 + length v + 1"
  let ?pre2 = "pre @ map Some (bytes_of n @ [0] @ bytes_of v @ [0])"
  have buf: "buf = pre @ map Some (bytes_of n) @ Some 0 # map Some (bytes_of v) @ Some 0 #
      map Some (option_bytes ps @ [0]) @ tail"
    using Cons.prems(3) by (simp add: p option_bytes_def)
  have o2: "length ?pre2 = o2" and m: "m = o2 + length (option_bytes ps) + 1" "length pre < o1" "o1 < o2"
    using Cons.prems(4) by (simp_all add: p option_bytes_def o1_def o2_def)
  have u: "unat (of_nat (length pre) :: u32) = length pre" "unat (of_nat o1 :: u32) = o1" "unat (of_nat m :: u32) = m"
    using m Cons.prems(5) by (simp_all add: unat_of_nat del: of_nat_add of_nat_Suc)
  obtain b bs where b: "bytes_of n = b # bs" "b \<noteq> 0" using ok by (cases "bytes_of n") (auto simp: bytes_of_def)
  have c: "deref 1 (drop (length pre) buf) = Inr [b]" "c_str (drop (length pre) buf) = Inr (bytes_of n)"
    using buf b c_str_append [OF ok(2)] by (simp_all add: deref_def)
  have "drop o1 buf = map Some (bytes_of v) @ Some 0 # map Some (option_bytes ps @ [0]) @ tail"
    by (simp add: buf o1_def)
  then have c3: "c_str (drop o1 buf) = Inr (bytes_of v)" using c_str_append [OF ok(3)] by simp
  have v: "of_nat (length pre) + of_nat (length n) + 1 = (of_nat o1 :: u32)"
    "of_nat o1 + of_nat (length v) + 1 = (of_nat o2 :: u32)"
    by (simp_all add: o1_def o2_def)
  have lt: "(of_nat (length pre) :: u32) < of_nat m" "(of_nat o1 :: u32) < of_nat m"
    unfolding word_less_nat_alt u using m by simp_all
  have "startup_options k buf (of_nat m) (of_nat (length pre)) ss =
      startup_options j buf (of_nat m) (of_nat o2) (add_option ss n v)"
    using c c3 b(2) lt(1) lt(2) [unfolded not_le [symmetric]] by (simp add: k(1) u v Let_def)
  also have "\<dots> = startup_options j buf (of_nat m) (of_nat (length ?pre2)) (add_option ss n v)"
    unfolding o2 ..
  also have "\<dots> = Inr (of_nat (m - 1), add_options (add_option ss n v) ps)"
    by (rule Cons.IH) (use Cons.prems k(2) m(1) buf o2 in auto)
  finally show ?case by (simp add: p)
qed

text \<open>Protocol 3.0, the options and a terminating null byte, behind the length word.\<close>

definition startup_message :: "(string \<times> string) list \<Rightarrow> byte list" where
  "startup_message ps = be_bytes 4 PG_PROTOCOL_LATEST @ option_bytes ps @ [0]"

lemma PG_PROTOCOL_LATEST_value: "PG_PROTOCOL_LATEST = 0x30000"
  by (simp add: PG_PROTOCOL_LATEST_def PG_PROTOCOL_def push_bit_eq_mult)

lemma protocol_latest_accepted:
  "PG_PROTOCOL_MAJOR PG_PROTOCOL_LATEST = 3" "PG_PROTOCOL_MAJOR PG_PROTOCOL_EARLIEST = 2"
  "PG_PROTOCOL_LATEST \<noteq> CANCEL_REQUEST_CODE" "PG_PROTOCOL_LATEST \<noteq> NEGOTIATE_SSL_CODE"
  unfolding PG_PROTOCOL_MAJOR_def PG_PROTOCOL_LATEST_def PG_PROTOCOL_EARLIEST_def PG_PROTOCOL_def
    CANCEL_REQUEST_CODE_def NEGOTIATE_SSL_CODE_def
  by (simp_all add: push_bit_eq_mult)

lemma SendAuthRequest_sent:
  assumes "writes_all net out" and "9 \<le> length (mb_data (write_msg ss))"
  shows "\<exists>ss'. SendAuthRequest net ss = Inr (True, ss') \<and>
    sent out ss (frame (ascii CHR ''R'') (be_bytes 4 (0 :: u32))) ss'"
proof -
  let ?xss = "[[ascii CHR ''R''], be_bytes 4 (8 :: u32), be_bytes 4 (0 :: u32)]"
  obtain mb where mb: "append_msgs (ss\<lparr>write_msg := MessageBuffer_SetSize (write_msg ss) 0\<rparr>) ?xss =
      Inr (ss\<lparr>write_msg := mb\<rparr>)" "MessageBuffer_bytes mb = Inr (concat ?xss)"
    "MessageBuffer_GetSize mb = length (concat ?xss)" "length (mb_data mb) = length (mb_data (write_msg ss))"
    using append_from_empty [of ?xss ss] assms(2) by auto
  from assms(1) obtain s' where s': "asio_write net (sock ss) (concat ?xss) = Inr (length (concat ?xss), s')"
    "out s' = out (sock ss) @ concat ?xss" unfolding writes_all_def by blast
  have "SendAuthRequest net ss =
      bind_res (append_msgs (ss\<lparr>write_msg := MessageBuffer_SetSize (write_msg ss) 0\<rparr>) ?xss) (\<lambda>ss.
      bind_res (MessageBuffer_bytes (write_msg ss)) (\<lambda>bs.
      bind_res (asio_write net (sock ss) bs) (\<lambda>(n, s).
      Inr (n = MessageBuffer_GetSize (write_msg ss), ss\<lparr>sock := s\<rparr>))))"
    by (simp add: SendAuthRequest_def append_msgs_Cons bind_res_assoc cong del: bind_res_weak_cong)
  also have "\<dots> = Inr (True, ss\<lparr>write_msg := mb, sock := s'\<rparr>)"
    using mb s'(1) by simp
  finally have "SendAuthRequest net ss = Inr (True, ss\<lparr>write_msg := mb, sock := s'\<rparr>)" .
  moreover have "sent out ss (concat ?xss) (ss\<lparr>write_msg := mb, sock := s'\<rparr>)"
    using s'(2) mb(4) by (rule sentI)
  ultimately show ?thesis by (simp add: frame_def)
qed

lemma length_option_bytes: "length ps \<le> length (option_bytes ps)"
  by (induction ps) (auto simp: option_bytes_def)

lemma startup_body_accepts:
  assumes net: "writes_all net out" and ps: "\<forall>p \<in> set ps. option_ok p"
    and len: "length (startup_message ps) < 2 ^ 32" and buf: "9 \<le> length (mb_data (write_msg ss))"
    and d: "mb_data (read_msg ss) = map Some (le_bytes 4 PG_PROTOCOL_LATEST) @ map Some (option_bytes ps @ [0]) @ tail"
  shows "\<exists>ss'. startup_body net (of_nat (length (startup_message ps))) PG_PROTOCOL_LATEST ss = Inr (True, ss') \<and>
    sent out ((add_options ss ps)\<lparr>proto_version := PG_PROTOCOL_LATEST\<rparr>)
      (frame (ascii CHR ''R'') (be_bytes 4 (0 :: u32))) ss'"
proof -
  define n where "n = length (startup_message ps)"
  have n: "n = 4 + length (option_bytes ps) + 1" "n < 2 ^ 32" using len by (simp_all add: n_def startup_message_def)
  have u: "unat (of_nat n :: u32) = n" using n(2) by (simp add: unat_of_nat)
  have run: "startup_options (Suc (unat (of_nat n :: u32))) (mb_data (read_msg ss)) (of_nat n) 4 ss =
      Inr (of_nat n - 1, add_options ss ps)"
    using startup_options_run [OF ps _ d, of "Suc n" n ss] length_option_bytes [of ps] n unfolding u
    by simp
  obtain ss' where ss': "SendAuthRequest net ((add_options ss ps)\<lparr>proto_version := PG_PROTOCOL_LATEST\<rparr>) = Inr (True, ss')"
    "sent out ((add_options ss ps)\<lparr>proto_version := PG_PROTOCOL_LATEST\<rparr>)
      (frame (ascii CHR ''R'') (be_bytes 4 (0 :: u32))) ss'"
    using SendAuthRequest_sent [OF net, of "(add_options ss ps)\<lparr>proto_version := PG_PROTOCOL_LATEST\<rparr>"] buf by auto
  have "startup_body net (of_nat n) PG_PROTOCOL_LATEST ss = Inr (True, ss')"
    unfolding startup_body_def run using ss'(1) by (simp add: protocol_latest_accepted)
  with ss'(2) show ?thesis unfolding n_def by blast
qed

lemma startup_accepts:
  assumes net: "writes_all net out" "reads_stream net inp out"
    and inp: "inp (sock ss) = be_bytes 4 (of_nat (4 + length (startup_message ps)) :: u32) @ startup_message ps @ rest"
    and ps: "\<forall>p \<in> set ps. option_ok p" and len: "4 + length (startup_message ps) < 2 ^ 32"
    and bufs: "buffer_ok (read_msg ss)" "9 \<le> length (mb_data (write_msg ss))"
  shows "\<exists>ss'. ProcessStartupPacket net ssl_done ss = Inr (True, ss') \<and>
    guc_options ss' = guc_options ss @ ps \<and> proto_version ss' = PG_PROTOCOL_LATEST \<and>
    out (sock ss') = out (sock ss) @ frame (ascii CHR ''R'') (be_bytes 4 (0 :: u32))"
proof -
  let ?msg = "startup_message ps" and ?pv = "be_bytes 4 PG_PROTOCOL_LATEST"
  define plen :: u32 where "plen = of_nat (length ?msg)"
  have plen: "unat plen = length ?msg" "(of_nat (4 + length ?msg) :: u32) - 4 = plen"
    using len by (simp_all add: plen_def unat_of_nat)
  obtain s1 where s1: "sock_read net ss 4 = Inr (be_bytes 4 (of_nat (4 + length ?msg) :: u32), ss\<lparr>sock := s1\<rparr>)"
    "inp s1 = ?msg @ rest" "out s1 = out (sock ss)"
    using sock_read_stream [OF net(2) inp, of 4] by auto
  obtain s2 mb tail where s2: "read_into_buffer net (ss\<lparr>sock := s1\<rparr>) (length ?msg) =
      Inr (length ?msg, ss\<lparr>sock := s1, read_msg := mb, sock := s2\<rparr>)" "out s2 = out s1"
    "mb_data mb = map Some ?msg @ tail"
    using read_into_buffer_stream [OF net(2), of "ss\<lparr>sock := s1\<rparr>" ?msg rest] s1(2) bufs(1) by auto
  let ?d = "map Some (le_bytes 4 PG_PROTOCOL_LATEST) @ map Some (option_bytes ps @ [0]) @ tail"
  have d: "mb_data mb = map Some ?pv @ map Some (option_bytes ps @ [0]) @ tail"
    using s2(3) by (simp add: startup_message_def)
  have ld: "load_bytes (mb_data mb) 0 4 = Inr ?pv"
    using load_bytes_at [of 0 "[]" 4 ?pv] d by simp
  have st: "store_bytes (mb_data mb) 0 (le_bytes 4 PG_PROTOCOL_LATEST) = Inr ?d"
    using store_bytes_at [of 0 "[]" "map Some ?pv" "le_bytes 4 PG_PROTOCOL_LATEST"] d by simp
  define ss2 where "ss2 = ss\<lparr>sock := s1, read_msg := mb, sock := s2\<rparr>\<lparr>read_msg := mb\<lparr>mb_data := ?d\<rparr>\<rparr>"
  obtain ss' where ss': "startup_body net plen PG_PROTOCOL_LATEST ss2 = Inr (True, ss')"
    "sent out ((add_options ss2 ps)\<lparr>proto_version := PG_PROTOCOL_LATEST\<rparr>)
      (frame (ascii CHR ''R'') (be_bytes 4 (0 :: u32))) ss'"
    using startup_body_accepts [OF net(1) ps, of ss2 tail] len bufs(2) by (auto simp: ss2_def plen_def)
  have "startup_packet net ssl_done ss = Inr (Some True, ss')"
    unfolding startup_packet_def using s1(1) s2(1) ld st ss'(1) plen
    by (simp add: Let_def protocol_latest_accepted ss2_def del: of_nat_add)
  then have "ProcessStartupPacket net ssl_done ss = Inr (True, ss')"
    by (simp add: ProcessStartupPacket_def)
  moreover have "guc_options ss' = guc_options ss @ ps" "proto_version ss' = PG_PROTOCOL_LATEST"
    "out (sock ss') = out (sock ss) @ frame (ascii CHR ''R'') (be_bytes 4 (0 :: u32))"
    using ss'(2) s1(3) s2(2) by (auto simp: sent_def ss2_def)
  ultimately show ?thesis by blast
qed

end
