(* ===== verification/Realizer_Exec.thy ===== *)
theory Realizer_Exec
  imports Realizer_Select Copy_Export Session_Recv
begin

section \<open>Executing statements\<close>

text \<open>
  Models \<open>Parse\<close>, \<open>Execute\<close> and the destructor of \<^verbatim>\<open>realizer/query_realizer.cpp\<close>: dispatch on the kind
  of statement, \<open>CREATE\<close>, \<open>COPY\<close> in both directions, \<open>INSERT\<close> and \<open>SELECT\<close>. The state that all sessions
  share is the store and the files.
\<close>

record Server =
  srv_store :: LevelStore
  srv_files :: file_system

text \<open>
  What the model takes from outside: the generated parser (a message and a tree), the text of
  doubles and dates, the text of the realizer's address in the names of temporary files, which
  files can be written, whether LevelDB's writes succeed, the value of a relation id that was
  never set, and the fuel of the loops.
\<close>

record server_env =
  sql_parser :: "string \<Rightarrow> string \<times> ast option"
  texts :: text_ops
  this_text :: string
  writable :: "string \<Rightarrow> bool"
  write_ok :: bool
  stale_id :: u32
  fuel :: nat

subsection \<open>Commands\<close>

datatype cmd = Cmd_Load Load | Cmd_Export u32 RowDesc string string | Cmd_Insert InsertValue

record realizer =
  sql_stmt :: string
  parse_tree :: "ast option"
  rq :: QueryRealizer
  top_cmd :: "cmd option"

definition realizer_new :: "string \<Rightarrow> realizer" where
  "realizer_new sql = \<lparr>sql_stmt = sql, parse_tree = None, rq = QueryRealizer_new, top_cmd = None\<rparr>"

definition set_message :: "realizer \<Rightarrow> string \<Rightarrow> realizer" where
  "set_message r m = r\<lparr>rq := (rq r)\<lparr>message := m\<rparr>\<rparr>"

fun cmd_response :: "cmd \<Rightarrow> string" where
  "cmd_response (Cmd_Load ld) = ld_response ld"
| "cmd_response (Cmd_Export relid desc path m) = m"
| "cmd_response (Cmd_Insert iv) = iv_response iv"

text \<open>
  A file that is opened for writing is created or emptied; one that cannot be opened stays as it
  is, and what is written to it is lost.
\<close>

definition write_file :: "server_env \<Rightarrow> string \<Rightarrow> string \<Rightarrow> file_system \<Rightarrow> file_system" where
  "write_file env path content fs = (if writable env path then fs(path \<mapsto> content) else fs)"

definition cmd_Prepare :: "server_env \<Rightarrow> cmd \<Rightarrow> Server \<Rightarrow> State \<times> cmd \<times> Server" where
  "cmd_Prepare env c w = (case c of
     Cmd_Load ld \<Rightarrow> let (state, ld) = Load_Prepare (srv_files w) ld in (state, Cmd_Load ld, w)
   | Cmd_Export relid desc path m \<Rightarrow>
       (kStateOK, c, w\<lparr>srv_files := write_file env path [] (srv_files w)\<rparr>)
   | Cmd_Insert iv \<Rightarrow> (InsertValue_Prepare iv, c, w))"

text \<open>The iterators of the store move with a scan.\<close>

definition put_iters :: "iters \<Rightarrow> LevelStore \<Rightarrow> LevelStore" where
  "put_iters \<sigma> st = st\<lparr>iterator_handler_map :=
     map (\<lambda>(i, h). (i, h\<lparr>ih_iter := \<sigma> i\<rparr>)) (iterator_handler_map st)\<rparr>"

definition cmd_Exec :: "server_env \<Rightarrow> cmd \<Rightarrow> Server \<Rightarrow> (State \<times> cmd \<times> Server) res" where
  "cmd_Exec env c w = (case c of
     Cmd_Load ld \<Rightarrow>
       bind_res (Load_Exec (texts env) (write_ok env) (fuel env) ld (srv_store w)) (\<lambda>(state, ld, st).
       Inr (state, Cmd_Load ld, w\<lparr>srv_store := st\<rparr>))
   | Cmd_Export relid desc path m \<Rightarrow>
       bind_res (Export_Exec (texts env) (fuel env) desc (store_iters (srv_store w)) (SeqScan_new relid 0))
         (\<lambda>(state, m, content, \<sigma>, te).
       Inr (state, Cmd_Export relid desc path m, w\<lparr>srv_store := put_iters \<sigma> (srv_store w),
         srv_files := write_file env path content (srv_files w)\<rparr>))
   | Cmd_Insert iv \<Rightarrow>
       bind_res (InsertValue_Exec (write_ok env) iv (srv_store w)) (\<lambda>(state, iv, st).
       Inr (state, Cmd_Insert iv, w\<lparr>srv_store := st\<rparr>)))"

definition ExecCmd :: "server_env \<Rightarrow> realizer \<Rightarrow> Server \<Rightarrow> (State \<times> realizer \<times> Server) res" where
  "ExecCmd env r w = (case top_cmd r of None \<Rightarrow> Inl Assert_failed
   | Some c \<Rightarrow>
       let (state, c, w) = cmd_Prepare env c w in
       if state \<noteq> kStateOK then Inr (state, set_message (r\<lparr>top_cmd := Some c\<rparr>) (cmd_response c), w)
       else bind_res (cmd_Exec env c w) (\<lambda>(state, c, w).
         Inr (state, set_message (r\<lparr>top_cmd := Some c\<rparr>) (cmd_response c), w)))"

subsection \<open>CREATE\<close>

text \<open>
  The schema of the statement, or nothing with two primary keys. A column is copied into the list
  before its primary key is set; the store does not look at that field.
\<close>

fun create_schema :: "ColumnDefine list \<Rightarrow> nat \<Rightarrow> ColumnSchema list option" where
  "create_schema [] n = Some []"
| "create_schema (d # ds) n =
     (let n = (if def_primary_key d then n + 1 else n) in
      if n > 1 then None
      else map_option (Cons \<lparr>cs_name = def_name d, cs_data_type = def_data_type d,
             cs_length = def_length d, cs_is_null = False, is_primary_key = False\<rparr>) (create_schema ds n))"

definition ExecCreate :: "server_env \<Rightarrow> CreateStmt \<Rightarrow> realizer \<Rightarrow> Server \<Rightarrow> (bool \<times> realizer \<times> Server) res" where
  "ExecCreate env c r w =
     (let name = create_table_name c in
      case create_schema (column_define_list c) 0 of
        None \<Rightarrow> Inr (False, set_message r (''relation '' @ name @ '' cannot have multiple keys.''), w)
      | Some cols \<Rightarrow>
          bind_res (CreateRelation (fuel env) (srv_store w) \<lparr>ts_name = name, column_list = cols\<rparr>) (\<lambda>(ok, st).
          Inr (ok, set_message r (''relation '' @ name @ (if ok then '' created.'' else '' create failed.'')),
            w\<lparr>srv_store := st\<rparr>)))"

subsection \<open>COPY\<close>

text \<open>The client's data up to the first empty message.\<close>

fun copy_in_loop :: "'s socket_ops \<Rightarrow> nat \<Rightarrow> 's Session \<Rightarrow> string \<Rightarrow> (string \<times> 's Session) res" where
  "copy_in_loop net 0 ss acc = Inl Out_of_fuel"
| "copy_in_loop net (Suc k) ss acc =
     bind_res (RecvCopyData net ss) (\<lambda>(data, ss).
     if data = [] then Inr (acc, ss) else copy_in_loop net k ss (acc @ data))"

definition PAGE_SIZE :: nat where "PAGE_SIZE = 8192"

definition run_load :: "server_env \<Rightarrow> LoadStmt \<Rightarrow> string \<Rightarrow> realizer \<Rightarrow> Server \<Rightarrow> (State \<times> realizer \<times> Server) res" where
  "run_load env s path r w = ExecCmd env
     (r\<lparr>top_cmd := Some (Cmd_Load (Load_new PAGE_SIZE path (load_table_name s) (copy_delimiter s)))\<rparr>) w"

definition ExecLoad :: "'s socket_ops \<Rightarrow> server_env \<Rightarrow> LoadStmt \<Rightarrow> (realizer, Server, 's) stage" where
  "ExecLoad net env s r w ss =
     (if from_stdin s then
        case GetRelation (srv_store w) (load_table_name s) of
          None \<Rightarrow> Inr (kStateRelationNotFound, set_message r ''table not found.'', w, ss)
        | Some rel \<Rightarrow>
            bind_res (SendCopyInResponse net ss (of_nat (length (attributes rel)))) (\<lambda>ss.
            let path = ''/tmp/tmpfile_import_'' @ this_text env @ ''.csv'' in
            bind_res (copy_in_loop net (fuel env) ss []) (\<lambda>(data, ss).
            bind_res (run_load env s path r (w\<lparr>srv_files := write_file env path data (srv_files w)\<rparr>))
              (\<lambda>(state, r, w). Inr (state, r, w, ss))))
      else bind_res (run_load env s (load_file_path s) r w) (\<lambda>(state, r, w). Inr (state, r, w, ss)))"

text \<open>The lines \<open>std::getline\<close> reads until it fails; each is sent with its newline.\<close>

function file_lines :: "string \<Rightarrow> string list" where
  "file_lines s = (if s = [] then [] else
     takeWhile (\<lambda>c. c \<noteq> CHR 0x0A) s # file_lines (drop 1 (dropWhile (\<lambda>c. c \<noteq> CHR 0x0A) s)))"
  by pat_completeness auto
termination
proof (relation "measure length")
  fix s :: string
  assume "s \<noteq> []"
  then show "(drop 1 (dropWhile (\<lambda>c. c \<noteq> CHR 0x0A) s), s) \<in> measure length"
    using length_dropWhile_le [of "\<lambda>c. c \<noteq> CHR 0x0A" s] by (cases s) (auto simp: le_imp_less_Suc)
qed simp

declare file_lines.simps [simp del]

fun send_lines :: "'s socket_ops \<Rightarrow> 's Session \<Rightarrow> string list \<Rightarrow> 's Session res" where
  "send_lines net ss [] = Inr ss"
| "send_lines net ss (l # ls) = bind_res (SendCopyData net ss (l @ [CHR 0x0A])) (\<lambda>ss. send_lines net ss ls)"

text \<open>The lines of the file are sent whether or not the target is the client.\<close>

definition ExecExport :: "'s socket_ops \<Rightarrow> server_env \<Rightarrow> ExportStmt \<Rightarrow> (realizer, Server, 's) stage" where
  "ExecExport net env s r w ss = (case GetRelation (srv_store w) (export_table_name s) of
     None \<Rightarrow> Inr (kStateRelationNotFound, r, w, ss)
   | Some rel \<Rightarrow>
       bind_res (NewIterator (srv_store w) (relation_id rel)) (\<lambda>st.
       let r = r\<lparr>rq := (rq r)\<lparr>all_iter := all_iter (rq r) @ [IO_iterator (relation_id rel)],
             top_exec := Some (SeqScan_new (relation_id rel) 0)\<rparr>\<rparr>;
           w = w\<lparr>srv_store := st\<rparr>;
           desc = Relation_ToDesc rel;
           path = (if to_stdout s then ''/tmp/tmpfile_export_'' @ this_text env @ ''.csv'' else export_file_path s) in
       bind_res (if to_stdout s then SendCopyOutResponse net ss (of_nat (length (attributes rel))) else Inr ss) (\<lambda>ss.
       let w = (if to_stdout s then w else w\<lparr>srv_files := write_file env path [] (srv_files w)\<rparr>) in
       bind_res (ExecCmd env (r\<lparr>top_cmd := Some (Cmd_Export (relation_id rel) desc path [])\<rparr>) w) (\<lambda>(state, r, w).
       if state \<noteq> kStateOK then Inr (state, r, w, ss)
       else bind_res (send_lines net ss (case srv_files w path of None \<Rightarrow> [] | Some c \<Rightarrow> file_lines c)) (\<lambda>ss.
         Inr (kStateOK, r, w, ss))))))"

subsection \<open>INSERT\<close>

text \<open>
  The values by column name. The test for an empty list is the wrong way round: without values
  their number has to be that of the columns, with values every one needs a column name.
\<close>

definition insert_map :: "InsertStmt \<Rightarrow> Relation \<Rightarrow> (string \<times> ConstValue) list res" where
  "insert_map s rel =
     (if insert_values s = [] then
        (if length (insert_values s) = length (attributes rel) then Inr [] else Inl Assert_failed)
      else if length (opt_column_names s) < length (insert_values s) then Inl Out_of_bounds
      else Inr (zip (opt_column_names s) (insert_values s)))"

definition insert_bytes :: "DataType \<Rightarrow> ConstValue option \<Rightarrow> byte list" where
  "insert_bytes t v = (case t of
     kDTInteger \<Rightarrow> le_bytes 8 (case v of None \<Rightarrow> 0 | Some c \<Rightarrow> int_val c)
   | kDTFloat \<Rightarrow> le_bytes 8 (0 :: u64)
   | kDTVarchar \<Rightarrow> (case v of None \<Rightarrow> [] | Some c \<Rightarrow> bytes_of (str_val c))
   | _ \<Rightarrow> [])"

text \<open>Slot and offset are set only for a column without a value.\<close>

fun insert_columns :: "(string \<times> ConstValue) list \<Rightarrow> Attribute list \<Rightarrow> nat \<Rightarrow> u32 \<Rightarrow> raw_tuple \<Rightarrow> (u32 \<times> raw_tuple) res" where
  "insert_columns m [] i off tuple = Inr (off, tuple)"
| "insert_columns m (a # as) i off tuple =
     (let v = map_of m (attr_name a); bs = insert_bytes (attr_data_type a) v in
      bind_res (RawTuple_SetValue tuple (unat off) (map Some bs)) (\<lambda>tuple.
      case v of
        Some _ \<Rightarrow> insert_columns m as (Suc i) off tuple
      | None \<Rightarrow>
          bind_res (set_slot_offset tuple i (ucast off)) (\<lambda>tuple.
          bind_res (set_slot_length tuple i (of_nat (length bs))) (\<lambda>tuple.
          insert_columns m as (Suc i) (off + of_nat (length bs)) tuple))))"

definition ExecInsert :: "server_env \<Rightarrow> InsertStmt \<Rightarrow> realizer \<Rightarrow> Server \<Rightarrow> (State \<times> realizer \<times> Server) res" where
  "ExecInsert env s r w = (case GetRelation (srv_store w) (insert_table_name s) of
     None \<Rightarrow> Inr (kStateRelationNotFound, r, w)
   | Some rel \<Rightarrow>
       bind_res (insert_map s rel) (\<lambda>m.
       bind_res (insert_columns m (attributes rel) 0 (of_nat (sizeof_Slot * length (attributes rel)))
         (CreateTuple 8192)) (\<lambda>(off, tuple).
       bind_res (NewWriteHandler (srv_store w) (relation_id rel)) (\<lambda>st.
       ExecCmd env (r\<lparr>rq := (rq r)\<lparr>all_iter := all_iter (rq r) @ [IO_write (relation_id rel)]\<rparr>,
         top_cmd := Some (Cmd_Insert (InsertValue_new (relation_id rel) tuple (unat off)))\<rparr>)
         (w\<lparr>srv_store := st\<rparr>)))))"

subsection \<open>SELECT\<close>

text \<open>A relation id that was never set has some value; the description is sent with it.\<close>

definition settle_desc :: "u32 \<Rightarrow> RowDesc \<Rightarrow> RowDesc" where
  "settle_desc g desc = map (\<lambda>c. c\<lparr>cd_relation_id := Some (case cd_relation_id c of None \<Rightarrow> g | Some i \<Rightarrow> i)\<rparr>) desc"

definition run_select :: "'s socket_ops \<Rightarrow> server_env \<Rightarrow> (realizer, Server, 's) stage" where
  "run_select net env r w ss = (case top_exec (rq r) of None \<Rightarrow> Inl Null_pointer
   | Some te \<Rightarrow>
       bind_res (ExecSelect net (fuel env) (settle_desc (stale_id env) (output_row_desc (rq r))) ss
         (store_iters (srv_store w)) te) (\<lambda>(state, m, ss, \<sigma>, te).
       let r = r\<lparr>rq := (rq r)\<lparr>top_exec := Some te\<rparr>\<rparr>;
           r = (case m of None \<Rightarrow> r | Some msg \<Rightarrow> set_message r msg) in
       Inr (state, r, w\<lparr>srv_store := put_iters \<sigma> (srv_store w)\<rparr>, ss)))"

subsection \<open>The stages\<close>

definition Parse :: "server_env \<Rightarrow> (realizer, Server, 's) stage" where
  "Parse env r w ss = (case sql_parser env (sql_stmt r) of (m, tree) \<Rightarrow>
     let r = set_message (r\<lparr>parse_tree := tree\<rparr>) m in
     Inr (if tree = None then kStateParseError else kStateOK, r, w, ss))"

definition stage_Check :: "(realizer, Server, 's) stage" where
  "stage_Check r w ss = (case parse_tree r of None \<Rightarrow> Inl Null_pointer
   | Some t \<Rightarrow> bind_res (Check (srv_store w) t (rq r)) (\<lambda>(state, q). Inr (state, r\<lparr>rq := q\<rparr>, w, ss)))"

definition stage_Optimize :: "(realizer, Server, 's) stage" where
  "stage_Optimize r w ss = bind_res (Optimize (rq r)) (\<lambda>(state, q). Inr (state, r\<lparr>rq := q\<rparr>, w, ss))"

definition stage_Build :: "(realizer, Server, 's) stage" where
  "stage_Build r w ss = (case parse_tree r of None \<Rightarrow> Inl Null_pointer
   | Some t \<Rightarrow> bind_res (Build (srv_store w) t (rq r)) (\<lambda>(state, st, q).
       Inr (state, r\<lparr>rq := q\<rparr>, w\<lparr>srv_store := st\<rparr>, ss)))"

text \<open>
  The dispatch goes by the type tag. The node of \<open>CREATE TABLE ... AS\<close> carries the tag of \<open>CREATE TABLE\<close>,
  so that the cast gives the null pointer. \<open>UPDATE\<close> has no branch.
\<close>

definition Execute :: "'s socket_ops \<Rightarrow> server_env \<Rightarrow> (realizer, Server, 's) stage" where
  "Execute net env r w ss = (case parse_tree r of None \<Rightarrow> Inl Null_pointer
   | Some (AST_Create c) \<Rightarrow>
       bind_res (ExecCreate env c r w) (\<lambda>(ok, r, w).
       Inr (if ok then kStateOK else kStateExecError, r, w, ss))
   | Some (AST_CreateAs n s) \<Rightarrow> Inl Null_pointer
   | Some (AST_Load s) \<Rightarrow> ExecLoad net env s r w ss
   | Some (AST_Export s) \<Rightarrow> ExecExport net env s r w ss
   | Some (AST_Select s) \<Rightarrow> run_select net env r w ss
   | Some (AST_Insert s) \<Rightarrow> bind_res (ExecInsert env s r w) (\<lambda>(state, r, w). Inr (state, r, w, ss))
   | Some _ \<Rightarrow> Inr (kStateExecError, r, w, ss))"

text \<open>The destructor: the handlers, then the commands, of which only \<open>Load\<close> has something to do.\<close>

definition realizer_delete :: "realizer \<Rightarrow> Server \<Rightarrow> Server res" where
  "realizer_delete r w =
     bind_res (release_all (all_iter (rq r)) (srv_store w)) (\<lambda>st.
     bind_res (case top_cmd r of Some (Cmd_Load ld) \<Rightarrow> Load_delete ld st | _ \<Rightarrow> Inr st) (\<lambda>st.
     Inr (w\<lparr>srv_store := st\<rparr>)))"

definition query_realizer :: "'s socket_ops \<Rightarrow> server_env \<Rightarrow> (realizer, Server, 's) realizer_ops" where
  "query_realizer net env = \<lparr>rlz_new = realizer_new, rlz_Parse = Parse env, rlz_Check = stage_Check,
     rlz_Optimize = stage_Optimize, rlz_Build = stage_Build, rlz_Execute = Execute net env,
     rlz_Message = (\<lambda>r. message (rq r)), rlz_delete = realizer_delete\<rparr>"

text \<open>The statement of a client, from its text to the answer.\<close>

definition server_query :: "'s socket_ops \<Rightarrow> server_env \<Rightarrow> Server \<Rightarrow> 's Session \<Rightarrow> string \<Rightarrow> (Server \<times> 's Session) res" where
  "server_query net env w ss sql = ProcessSimpleQuery net (query_realizer net env) w ss sql"

end
