(* ===== verification/Server_Query.thy ===== *)
theory Server_Query
  imports Realizer_Exec
begin

section \<open>A statement from its text to the answer\<close>

text \<open>
  The composition of session, realizer, executors and store: a \<open>SELECT\<close> that passes \<open>Check\<close> and \<open>Build\<close>
  is answered with the rows of its relational meaning, and leaves the store as it was. Then the
  statements that fail in every case.
\<close>

subsection \<open>The protocol of an answer\<close>

lemma server_query_completes:
  assumes net: "writes_all net out" and fits: "6 + length (c_string (message (rq r))) \<le> length (mb_data (write_msg ss1))"
    and run: "run_stages [Parse env, stage_Check, stage_Optimize, stage_Build, Execute net env] (realizer_new sql) w ss =
      Inr (kStateOK, r, w1, ss1)"
    and del: "realizer_delete r w1 = Inr w2"
  shows "\<exists>ss2. server_query net env w ss sql = Inr (w2, ss2) \<and>
    sent out ss1 (frame (ascii CHR ''C'') (c_string (message (rq r))) @ frame (ascii CHR ''Z'') [ascii CHR ''I'']) ss2"
proof -
  obtain s3 where 3: "SendCommandComplete net ss1 (message (rq r)) = Inr s3"
    "sent out ss1 (frame (ascii CHR ''C'') (c_string (message (rq r)))) s3"
    using SendCommandComplete_sent [OF net, of "message (rq r)" ss1] fits by auto
  have "6 \<le> length (mb_data (write_msg s3))" using 3(2) fits by (simp add: sent_def)
  then obtain s4 where 4: "SendReadForQuery net s3 (ascii CHR ''I'') = Inr s4"
    "sent out s3 (frame (ascii CHR ''Z'') [ascii CHR ''I'']) s4"
    using SendReadForQuery_sent [OF net] by blast
  have "server_query net env w ss sql = Inr (w2, s4)"
    using run 3(1) 4(1) del by (simp add: server_query_def ProcessSimpleQuery_def query_realizer_def del: run_stages.simps)
  with sent_trans [OF 3(2) 4(2)] show ?thesis by blast
qed

lemma server_query_fails:
  assumes net: "writes_all net out" and fits: "7 + length (c_string (message (rq r))) \<le> length (mb_data (write_msg ss1))"
    and run: "run_stages [Parse env, stage_Check, stage_Optimize, stage_Build, Execute net env] (realizer_new sql) w ss =
      Inr (state, r, w1, ss1)" "state \<noteq> kStateOK"
    and del: "realizer_delete r w1 = Inr w2"
  shows "\<exists>ss2. server_query net env w ss sql = Inr (w2, ss2) \<and>
    sent out ss1 (frame (ascii CHR ''E'') (ascii CHR ''M'' # c_string (message (rq r)) @ [0]) @
      frame (ascii CHR ''Z'') [ascii CHR ''I'']) ss2"
proof -
  obtain s3 where 3: "SendErrorResponse net ss1 (message (rq r)) = Inr s3"
    "sent out ss1 (frame (ascii CHR ''E'') (ascii CHR ''M'' # c_string (message (rq r)) @ [0])) s3"
    using SendErrorResponse_sent [OF net, of "message (rq r)" ss1] fits by auto
  have "6 \<le> length (mb_data (write_msg s3))" using 3(2) fits by (simp add: sent_def)
  then obtain s4 where 4: "SendReadForQuery net s3 (ascii CHR ''I'') = Inr s4"
    "sent out s3 (frame (ascii CHR ''Z'') [ascii CHR ''I'']) s4"
    using SendReadForQuery_sent [OF net] by blast
  have "server_query net env w ss sql = Inr (w2, s4)"
    using run 3(1) 4(1) del by (simp add: server_query_def ProcessSimpleQuery_def query_realizer_def del: run_stages.simps)
  with sent_trans [OF 3(2) 4(2)] show ?thesis by blast
qed

subsection \<open>SELECT\<close>

lemma ExecSelect_result:
  assumes net: "writes_all net out"
    and ok: "plan_ok (length \<Gamma>) l" "plan_typed \<Gamma> DB l" "stored DB \<sigma> (relids l)" "joins_fed (length \<Gamma>) DB l"
    and rows: "plan_rows (length \<Gamma>) l"
    and attrs: "attrs_typed \<Gamma> (positions l) desc as"
    and fits: "\<forall>vs \<in> set (query_result (length \<Gamma>) DB l as). fits_slots vs \<and>
      5 + length (data_row_body vs) \<le> length (mb_data (write_msg ss))"
    and desc: "\<forall>c \<in> set desc. cd_relation_id c \<noteq> None" "length desc < 32768"
      "5 + length (row_description_body desc) \<le> length (mb_data (write_msg ss))"
  shows "\<exists>k ss' \<sigma>' te'. ExecSelect net k desc ss \<sigma> (Project_new l as (length \<Gamma>)) =
      Inr (kStateOK, Some (select_message (int (length (query_result (length \<Gamma>) DB l as)))), ss', \<sigma>', te') \<and>
    sent out ss (frame (ascii CHR ''T'') (row_description_body desc) @
      data_rows (query_result (length \<Gamma>) DB l as)) ss'"
proof (rule ExecSelect_sends [OF net _ _ _ desc])
  have f: "\<forall>vs \<in> set (query_result (length \<Gamma>) DB l as). fits_slots vs" using fits by blast
  show "top_startable (length \<Gamma>) (\<sigma>, Project_new l as (length \<Gamma>))"
    and "top_rows (length \<Gamma>) (\<sigma>, Project_new l as (length \<Gamma>)) = map row_of (query_result (length \<Gamma>) DB l as)"
    using query_startable [OF ok rows attrs f] by blast+
  show "\<forall>vs \<in> set (query_result (length \<Gamma>) DB l as). sendable (length (mb_data (write_msg ss))) desc vs"
    using fits project_values_typed(2) [OF attrs plan_values_typed [OF ok(2,1)]]
    by (auto simp: sendable_def query_result_def)
qed

lemma ExecSelect_mono:
  assumes "ExecSelect net k desc ss \<sigma> te = Inr R" "k \<le> k'"
  shows "ExecSelect net k' desc ss \<sigma> te = Inr R"
proof -
  from assms(1) obtain ss1 state \<sigma>1 te1 where o: "SendRowDescription net ss desc = Inr ss1"
    "Open k \<sigma> te = Inr (state, \<sigma>1, te1)" by (auto simp: ExecSelect_def Prepare_OK)
  have o': "Open k' \<sigma> te = Inr (state, \<sigma>1, te1)" by (rule Open_mono [OF o(2) assms(2)])
  show ?thesis
  proof (cases "state = kStateOK")
    case True
    with assms(1) o obtain L where L: "ExecSelect_loop net k desc ss1 \<sigma>1 te1 (TupleRow_new 1) 0 = Inr L"
      by (auto simp: ExecSelect_def Prepare_OK)
    from ExecSelect_loop_mono [OF L assms(2)] L assms(1) o o' True show ?thesis
      by (simp add: ExecSelect_def Prepare_OK)
  qed (use assms(1) o o' in \<open>simp add: ExecSelect_def Prepare_OK\<close>)
qed

text \<open>A relation id that is filled in changes no type.\<close>

lemma settle_desc_types [simp]:
  "map data_type (settle_desc g desc) = map data_type desc" "length (settle_desc g desc) = length desc"
  by (simp_all add: settle_desc_def o_def)

lemma settle_desc_set: "\<forall>c \<in> set (settle_desc g desc). cd_relation_id c \<noteq> None"
  by (auto simp: settle_desc_def)

lemma attrs_typed_settle: "attrs_typed \<Gamma> S desc as \<Longrightarrow> attrs_typed \<Gamma> S (settle_desc g desc) as"
  by (simp add: attrs_typed_def settle_desc_def list_all2_map1)

text \<open>The databases of the tables hold the encodings of their rows.\<close>

definition holds_tables :: "LevelStore \<Rightarrow> tables \<Rightarrow> (u32 \<Rightarrow> db_value list list) \<Rightarrow> bool" where
  "holds_tables st T DB \<longleftrightarrow> db_typed T DB \<and> (\<forall>i \<in> set (ids T).
     map (\<lambda>e. map Some (snd e)) (DB_entries st (GetDBFilePath st i)) = map encode_tuple (DB i) \<and>
     (\<forall>vs \<in> set (DB i). fits_slots vs))"

lemma holds_tables_stored:
  "opened st (set (ids T)) st' \<Longrightarrow> holds_tables st T DB \<Longrightarrow> stored DB (store_iters st') (set (ids T))"
  by (auto simp: stored_def holds_tables_def opened_def store_iters_def iter_all_def Iterator_new_def o_def)

subsection \<open>Giving the iterators back\<close>

lemma release_iterators:
  "distinct is \<Longrightarrow> \<forall>i \<in> set is. \<exists>h. map_of (iterator_handler_map st) i = Some h \<and> ih_reference h = 1 \<Longrightarrow>
   release_all (map IO_iterator is) st = Inr (st\<lparr>
     locked := (\<lambda>p. p \<notin> GetDBFilePath st ` set is \<and> locked st p),
     iterator_handler_map := fold AList.delete is (iterator_handler_map st)\<rparr>)"
proof (induction "is" arbitrary: st)
  case (Cons i "is")
  let ?st = "DB_Close (st\<lparr>iterator_handler_map := AList.delete i (iterator_handler_map st)\<rparr>) (GetDBFilePath st i)"
  have d: "DeleteIOObject st (IO_iterator i) = Inr ?st" using Cons.prems(2) by (auto simp: DeleteIOObject_def)
  have "release_all (map IO_iterator is) ?st = Inr (?st\<lparr>
      locked := (\<lambda>p. p \<notin> GetDBFilePath ?st ` set is \<and> locked ?st p),
      iterator_handler_map := fold AList.delete is (iterator_handler_map ?st)\<rparr>)"
    by (rule Cons.IH) (use Cons.prems in \<open>auto simp: DB_Close_def delete_conv'\<close>)
  moreover have "(\<lambda>p. p \<notin> GetDBFilePath ?st ` set is \<and> locked ?st p) =
      (\<lambda>p. p \<notin> GetDBFilePath st ` set (i # is) \<and> locked st p)"
    by (auto simp: DB_Close_def GetDBFilePath_def fun_eq_iff)
  ultimately have "release_all (map IO_iterator is) ?st = Inr (?st\<lparr>
      locked := (\<lambda>p. p \<notin> GetDBFilePath st ` set (i # is) \<and> locked st p),
      iterator_handler_map := fold AList.delete is (iterator_handler_map ?st)\<rparr>)" by simp
  then show ?case using d by (simp add: DB_Close_def)
qed (simp add: release_all.simps)


text \<open>Two stores with the same catalog, contents, handlers and locks.\<close>

definition same_store :: "LevelStore \<Rightarrow> LevelStore \<Rightarrow> bool" where
  "same_store st st' \<longleftrightarrow> (\<forall>n. GetRelation st' n = GetRelation st n) \<and> ls_path st' = ls_path st \<and>
     (\<forall>i. DB_entries st' (GetDBFilePath st i) = DB_entries st (GetDBFilePath st i)) \<and>
     (\<forall>i. map_of (iterator_handler_map st') i = map_of (iterator_handler_map st) i) \<and>
     write_handler_map st' = write_handler_map st \<and> locked st' = locked st"

lemma map_of_fold_delete:
  "map_of (fold AList.delete is m) i = (if i \<in> set is then None else map_of m i)"
  by (induction "is" arbitrary: m) (auto simp: delete_conv')

lemma map_of_put_iters:
  "map_of (iterator_handler_map (put_iters \<sigma> st)) i =
   map_option (\<lambda>h. h\<lparr>ih_iter := \<sigma> i\<rparr>) (map_of (iterator_handler_map st) i)"
proof -
  have "map_of (map (\<lambda>(i, h). (i, f i h)) m) i = map_option (f i) (map_of m i)" for f m
    by (induction m) auto
  then show ?thesis by (simp add: put_iters_def)
qed

text \<open>Other iterators than those of the query do not move.\<close>

definition moves_only :: "u32 set \<Rightarrow> iters \<Rightarrow> iters \<Rightarrow> bool" where
  "moves_only R \<sigma> \<sigma>' \<longleftrightarrow> (\<forall>i. i \<notin> R \<longrightarrow> \<sigma>' i = \<sigma> i)"

lemma opened_released:
  assumes op: "opened st (set is) st'" and d: "distinct is"
    and idle: "\<forall>i \<in> set is. map_of (iterator_handler_map st) i = None"
    and m: "moves_only (set is) (store_iters st') \<sigma>"
  shows "\<exists>st''. release_all (map IO_iterator is) (put_iters \<sigma> st') = Inr st'' \<and> same_store st st''"
proof -
  let ?st = "put_iters \<sigma> st'"
  let ?r = "?st\<lparr>locked := (\<lambda>p. p \<notin> GetDBFilePath ?st ` set is \<and> locked ?st p),
      iterator_handler_map := fold AList.delete is (iterator_handler_map ?st)\<rparr>"
  have path: "GetDBFilePath ?st = GetDBFilePath st" "GetDBFilePath st' = GetDBFilePath st"
    using op by (auto simp: put_iters_def opened_def GetDBFilePath_def fun_eq_iff)
  have "\<forall>i \<in> set is. \<exists>h. map_of (iterator_handler_map ?st) i = Some h \<and> ih_reference h = 1"
    using op by (simp add: map_of_put_iters opened_def)
  from release_iterators [OF d this] have r: "release_all (map IO_iterator is) ?st = Inr ?r" .
  have it: "map_of (iterator_handler_map ?r) i = map_of (iterator_handler_map st) i" for i
  proof (cases "i \<in> set is")
    case False
    then have e: "map_of (iterator_handler_map st') i = map_of (iterator_handler_map st) i" "\<sigma> i = store_iters st' i"
      using op m by (auto simp: opened_def moves_only_def)
    then show ?thesis using False
      by (cases "map_of (iterator_handler_map st) i") (simp_all add: map_of_fold_delete map_of_put_iters store_iters_def)
  qed (use idle in \<open>simp add: map_of_fold_delete\<close>)
  have "locked ?r = locked st"
    unfolding path using op by (auto simp: put_iters_def opened_def fun_eq_iff)
  with it op have "same_store st ?r"
    by (simp add: same_store_def opened_def put_iters_def GetRelation_def DB_entries_def)
  with r show ?thesis by blast
qed


subsection \<open>The iterators a plan moves\<close>

definition all_res :: "('a \<Rightarrow> bool) \<Rightarrow> 'a res \<Rightarrow> bool" where
  "all_res P m \<longleftrightarrow> (\<forall>x. m = Inr x \<longrightarrow> P x)"

lemma all_res_simps [simp]: "all_res P (Inl f)" "all_res P (Inr x) = P x"
  by (simp_all add: all_res_def)

lemma all_res_bind: "all_res Q m \<Longrightarrow> (\<And>x. Q x \<Longrightarrow> all_res P (f x)) \<Longrightarrow> all_res P (bind_res m f)"
  by (cases m) (simp_all add: all_res_def)

lemma all_res_bind_any: "(\<And>x. all_res P (f x)) \<Longrightarrow> all_res P (bind_res m f)"
  by (cases m) (simp_all add: all_res_def)

lemma all_res_bind_bool: "all_res P (f True) \<Longrightarrow> all_res P (f False) \<Longrightarrow> all_res P (bind_res m f)"
  by (cases m; cases "projr m") (auto simp: all_res_def)

text \<open>Started within the relations \<open>R\<close>, a plan stays there.\<close>

definition within :: "u32 set \<Rightarrow> iters \<Rightarrow> iters \<Rightarrow> exec \<Rightarrow> bool" where
  "within R \<sigma>0 \<sigma> e \<longleftrightarrow> moves_only R \<sigma>0 \<sigma> \<and> relids e \<subseteq> R"

lemma within_simps:
  "within R \<sigma>0 \<sigma> (Select l p) = within R \<sigma>0 \<sigma> l" "within R \<sigma>0 \<sigma> (Project l as row) = within R \<sigma>0 \<sigma> l"
  "within R \<sigma>0 \<sigma> (NestedLoopJoin l r p row ls rs) \<longleftrightarrow> within R \<sigma>0 \<sigma> l \<and> within R \<sigma>0 \<sigma> r"
  by (auto simp: within_def)

lemma exec_moves:
  assumes "within R \<sigma>0 \<sigma> e"
  shows "all_res (\<lambda>(s, \<sigma>', e'). within R \<sigma>0 \<sigma>' e') (Open k \<sigma> e)"
    and "all_res (\<lambda>(s, \<sigma>', e', row'). within R \<sigma>0 \<sigma>' e') (GetNext k \<sigma> e row)"
  using assms
proof (induction k arbitrary: \<sigma> e row)
  case (Suc k)
  note O = all_res_bind [OF Suc.IH(1)] and G = all_res_bind [OF Suc.IH(2)]
  { case 1
    show ?case
    proof (cases e)
      case (NestedLoopJoin l r p row ls rs)
      show ?thesis using 1 unfolding NestedLoopJoin Open.simps within_simps
        by (intro O) (auto simp: within_simps intro!: O G, auto simp: within_def)
    qed (use 1 in \<open>auto simp: within_simps intro!: O\<close>, auto simp: within_def moves_only_def)
  next
    case 2
    show ?case
    proof (cases e)
      case (SeqScan r i n)
      show ?thesis using 2 unfolding SeqScan GetNext.simps SeqScan_GetNext_def
        by (auto simp: within_def moves_only_def intro!: all_res_bind_any)
    next
      case (Select l p)
      show ?thesis using 2 unfolding Select GetNext.simps within_simps
        by (intro G) (auto simp: within_simps intro!: all_res_bind_bool Suc.IH(2))
    next
      case (Project l as row)
      show ?thesis using 2 unfolding Project GetNext.simps within_simps
        by (intro G) (auto simp: within_simps intro!: all_res_bind_any)
    next
      case (NestedLoopJoin l r p row ls rs)
      show ?thesis using 2 unfolding NestedLoopJoin GetNext.simps within_simps
        by (auto simp: within_simps intro!: O G all_res_bind_bool Suc.IH(2), auto simp: within_def)
    qed
  }
qed simp_all

lemma ExecSelect_loop_moves:
  "within R \<sigma>0 \<sigma> te \<Longrightarrow>
   all_res (\<lambda>(s, cnt', ss', \<sigma>', te'). within R \<sigma>0 \<sigma>' te') (ExecSelect_loop net k desc ss \<sigma> te row cnt)"
proof (induction k arbitrary: ss \<sigma> te row cnt)
  case (Suc k)
  show ?case unfolding ExecSelect_loop.simps
    by (rule all_res_bind [OF exec_moves(2) [OF Suc.prems]]) (auto intro!: all_res_bind_any Suc.IH)
qed simp

lemma ExecSelect_moves:
  assumes "ExecSelect net k desc ss \<sigma> te = Inr (s, m, ss', \<sigma>', te')"
  shows "moves_only (relids te) \<sigma> \<sigma>'"
proof -
  have w: "within (relids te) \<sigma> \<sigma> te" by (simp add: within_def moves_only_def)
  have "all_res (\<lambda>(s, m, ss', \<sigma>', te'). within (relids te) \<sigma> \<sigma>' te') (ExecSelect net k desc ss \<sigma> te)"
    unfolding ExecSelect_def Let_def Prepare_OK
  proof (rule all_res_bind_any, simp, rule all_res_bind [OF exec_moves(1) [OF w]], clarsimp)
    fix ss1 state \<sigma>1 te1 assume "within (relids te) \<sigma> \<sigma>1 te1"
    from ExecSelect_loop_moves [OF this]
    show "all_res (\<lambda>(s, m, ss', \<sigma>', te'). within (relids te) \<sigma> \<sigma>' te')
       (bind_res (ExecSelect_loop net k desc ss1 \<sigma>1 te1 (TupleRow_new (Suc 0)) 0) (\<lambda>(state, cnt, ss, \<sigma>, te).
        if state = kStateEOF then Inr (kStateOK, Some (select_message cnt), ss, \<sigma>, te)
        else Inr (state, None, ss, \<sigma>, te)))"
      by (rule all_res_bind) auto
  qed
  with assms show ?thesis by (simp add: within_def)
qed

end
