(* ===== verification/Server_Select.thy ===== *)
theory Server_Select
  imports Server_Query
begin

section \<open>SELECT, end to end\<close>

text \<open>
  What a client gets for a \<open>SELECT\<close> whose tree passes \<open>Check\<close> and \<open>Build\<close>: the description, the rows of the
  relational meaning of the plan, the completion message and the ready message. The store is
  afterwards as before.
\<close>

definition select_answer :: "RowDesc \<Rightarrow> db_value list list \<Rightarrow> byte list" where
  "select_answer desc vss = frame (ascii CHR ''T'') (row_description_body desc) @ data_rows vss @
     frame (ascii CHR ''C'') (c_string (select_message (int (length vss)))) @
     frame (ascii CHR ''Z'') [ascii CHR ''I'']"

text \<open>Everything that is sent fits the buffer of the session.\<close>

definition answer_fits :: "nat \<Rightarrow> RowDesc \<Rightarrow> db_value list list \<Rightarrow> bool" where
  "answer_fits cap desc vss \<longleftrightarrow> length desc < 32768 \<and> 5 + length (row_description_body desc) \<le> cap \<and>
     list_all (\<lambda>vs. fits_slots vs \<and> 5 + length (data_row_body vs) \<le> cap) vss \<and>
     6 + length (c_string (select_message (int (length vss)))) \<le> cap"

lemma run_select_stages:
  assumes parse: "sql_parser env sql = ([], Some (AST_Select s))"
    and check: "Check (srv_store w) (AST_Select s) QueryRealizer_new = Inr (kStateOK, q)"
    and build: "Build (srv_store w) (AST_Select s) q = Inr (kStateOK, st', q')"
    and te: "top_exec q' = Some te"
    and run: "ExecSelect net (fuel env) (settle_desc (stale_id env) (output_row_desc q')) ss (store_iters st') te =
      Inr (kStateOK, Some m, ss', \<sigma>', te')"
  shows "run_stages [Parse env, stage_Check, stage_Optimize, stage_Build, Execute net env] (realizer_new sql) w ss =
    Inr (kStateOK, \<lparr>sql_stmt = sql, parse_tree = Some (AST_Select s),
      rq = q'\<lparr>top_exec := Some te', message := m\<rparr>, top_cmd = None\<rparr>,
      w\<lparr>srv_store := put_iters \<sigma>' st'\<rparr>, ss')"
proof -
  have q: "QueryRealizer_new\<lparr>message := []\<rparr> = QueryRealizer_new" by (simp add: QueryRealizer_new_def)
  show ?thesis
    using assms q by (simp add: Parse_def realizer_new_def set_message_def stage_Check_def stage_Optimize_def Optimize_def
        stage_Build_def Execute_def run_select_def)
qed

lemma server_select:
  fixes env :: server_env
  assumes net: "writes_all net out"
    and parse: "sql_parser env sql = ([], Some (AST_Select s))"
    and check: "Check (srv_store w) (AST_Select s) QueryRealizer_new = Inr (kStateOK, q)"
    and build: "Build (srv_store w) (AST_Select s) q = Inr (kStateOK, st', q')"
    and ok: "select_ok (srv_store w) s tf"
    and T: "T = from_tables (srv_store w) tf"
    and idle: "\<forall>i \<in> set (ids T). map_of (iterator_handler_map (srv_store w)) i = None"
    and DB: "holds_tables (srv_store w) T DB"
    and plan: "top_exec q' = Some (Project_new l as (length T))" "joins_fed (length T) DB l"
    and vss: "vss = query_result (length T) DB l as"
    and desc: "desc = settle_desc (stale_id env) (output_row_desc q')"
    and fits: "answer_fits (length (mb_data (write_msg ss))) desc vss"
  shows "\<exists>k0. \<forall>k \<ge> k0. \<exists>w' ss'. server_query net (env\<lparr>fuel := k\<rparr>) w ss sql = Inr (w', ss') \<and>
    sent out ss (select_answer desc vss) ss' \<and> same_store (srv_store w) (srv_store w') \<and> srv_files w' = srv_files w"
proof -
  let ?n = "length T" and ?\<Gamma> = "schema_of T"
  from select_plan [OF check build ok] idle T plan(1) have p: "as = projection_list q'" "plan_over T ?n l"
    "opened (srv_store w) (set (ids T)) st'" "attrs_typed ?\<Gamma> (positions l) (output_row_desc q') as"
    "all_iter q' = map IO_iterator (ids T)" by (auto simp: Project_new_def)
  have d: "distinct (ids T)" using ok T by (simp add: select_ok_def)
  from p(2) have r: "relids l = set (ids T)" by (simp add: plan_over_def ids_def)
  have st: "stored DB (store_iters st') (relids l)" unfolding r by (rule holds_tables_stored [OF p(3) DB])
  have "plan_typed ?\<Gamma> DB l" using p(2) DB by (simp add: plan_over_def holds_tables_def)
  then obtain k0 ss1 \<sigma>' te' where e: "ExecSelect net k0 desc ss (store_iters st') (Project_new l as ?n) =
      Inr (kStateOK, Some (select_message (int (length vss))), ss1, \<sigma>', te')"
    "sent out ss (frame (ascii CHR ''T'') (row_description_body desc) @ data_rows vss) ss1"
    using ExecSelect_result [OF net, of ?\<Gamma> l DB "store_iters st'" desc as ss] p(2) st plan(2) fits
      attrs_typed_settle [OF p(4)] settle_desc_set vss desc
    by (auto simp: plan_over_def answer_fits_def list_all_iff)
  have mv: "moves_only (set (ids T)) (store_iters st') \<sigma>'"
    using ExecSelect_moves [OF e(1)] r by (simp add: Project_new_def)
  from opened_released [OF p(3) d _ mv] idle obtain st'' where rel:
    "release_all (map IO_iterator (ids T)) (put_iters \<sigma>' st') = Inr st''" "same_store (srv_store w) st''" by auto
  show ?thesis
  proof (intro exI [of _ k0] allI impI)
    fix k assume k: "k0 \<le> k"
    let ?env = "env\<lparr>fuel := k\<rparr>"
    let ?r = "\<lparr>sql_stmt = sql, parse_tree = Some (AST_Select s),
      rq = q'\<lparr>top_exec := Some te', message := select_message (int (length vss))\<rparr>, top_cmd = None\<rparr>"
    have run: "run_stages [Parse ?env, stage_Check, stage_Optimize, stage_Build, Execute net ?env] (realizer_new sql) w ss =
        Inr (kStateOK, ?r, w\<lparr>srv_store := put_iters \<sigma>' st'\<rparr>, ss1)"
      by (rule run_select_stages [OF _ check build plan(1)])
        (use parse ExecSelect_mono [OF e(1) k] desc in simp_all)
    have "realizer_delete ?r (w\<lparr>srv_store := put_iters \<sigma>' st'\<rparr>) = Inr (w\<lparr>srv_store := st''\<rparr>)"
      using rel(1) p(5) by (simp add: realizer_delete_def)
    from server_query_completes [OF net _ run this] fits e(2) obtain ss2 where
      "server_query net ?env w ss sql = Inr (w\<lparr>srv_store := st''\<rparr>, ss2)"
      "sent out ss1 (frame (ascii CHR ''C'') (c_string (select_message (int (length vss)))) @
        frame (ascii CHR ''Z'') [ascii CHR ''I'']) ss2" by (auto simp: answer_fits_def sent_def)
    with sent_trans [OF e(2)] rel(2) show "\<exists>w' ss'. server_query net ?env w ss sql = Inr (w', ss') \<and>
        sent out ss (select_answer desc vss) ss' \<and> same_store (srv_store w) (srv_store w') \<and> srv_files w' = srv_files w"
      by (fastforce simp: select_answer_def)
  qed
qed

end
