(* ===== verification/Server_Statements.thy ===== *)
theory Server_Statements
  imports Server_Query
begin

section \<open>The other statements, end to end\<close>

text \<open>
  \<open>COPY ... FROM\<close> a file of rows stores them; a statement that cannot be parsed is answered with the
  parser's message and changes nothing; \<open>UPDATE\<close> is refused. \<open>INSERT\<close>, \<open>CREATE TABLE ... AS\<close> and \<open>COPY\<close> into an
  unknown table end the server.
\<close>

lemma server_parse_error:
  assumes "writes_all net out" "sql_parser env sql = (m, None)"
    and "7 + length (c_string m) \<le> length (mb_data (write_msg ss))"
  shows "\<exists>ss'. server_query net env w ss sql = Inr (w, ss') \<and>
    sent out ss (frame (ascii CHR ''E'') (ascii CHR ''M'' # c_string m @ [0]) @ frame (ascii CHR ''Z'') [ascii CHR ''I'']) ss'"
proof -
  let ?r = "\<lparr>sql_stmt = sql, parse_tree = None, rq = QueryRealizer_new\<lparr>message := m\<rparr>, top_cmd = None\<rparr>"
  have "run_stages [Parse env, stage_Check, stage_Optimize, stage_Build, Execute net env] (realizer_new sql) w ss =
      Inr (kStateParseError, ?r, w, ss)"
    using assms(2) by (simp add: Parse_def realizer_new_def set_message_def)
  moreover have "realizer_delete ?r w = Inr w"
    by (cases w) (simp add: realizer_delete_def QueryRealizer_new_def)
  ultimately show ?thesis using server_query_fails [OF assms(1), of ?r ss env sql w ss kStateParseError w w] assms(3) by simp
qed

text \<open>A message that does not fit the buffer is written behind it.\<close>

lemma server_parse_error_long:
  assumes "sql_parser env sql = (m, None)" "5 \<le> length (mb_data (write_msg ss))"
    and "length (mb_data (write_msg ss)) < 7 + length (c_string m)"
  shows "server_query net env w ss sql = Inl Out_of_bounds"
proof -
  let ?r = "\<lparr>sql_stmt = sql, parse_tree = None, rq = QueryRealizer_new\<lparr>message := m\<rparr>, top_cmd = None\<rparr>"
  have "run_stages [Parse env, stage_Check, stage_Optimize, stage_Build, Execute net env] (realizer_new sql) w ss =
      Inr (kStateParseError, ?r, w, ss)"
    using assms(1) by (simp add: Parse_def realizer_new_def set_message_def)
  then show ?thesis using SendErrorResponse_overflow [OF assms(2,3), of net]
    by (simp add: server_query_def ProcessSimpleQuery_def query_realizer_def del: run_stages.simps)
qed

text \<open>A tree that is not a \<open>SELECT\<close> passes the stages before \<open>Execute\<close> unchanged.\<close>

definition parsed :: "string \<Rightarrow> ast \<Rightarrow> realizer" where
  "parsed sql t = (realizer_new sql)\<lparr>parse_tree := Some t\<rparr>"

lemma other_stages:
  assumes "sql_parser env sql = ([], Some t)" "\<And>s. t \<noteq> AST_Select s"
  shows "run_stages [Parse env, stage_Check, stage_Optimize, stage_Build, Execute net env] (realizer_new sql) w ss =
    Execute net env (parsed sql t) w ss"
proof -
  have m: "set_message (parsed sql t) [] = parsed sql t"
    by (simp add: set_message_def parsed_def realizer_new_def QueryRealizer_new_def)
  have c: "Check st t q = Inr (kStateOK, q)" "Build st t q = Inr (kStateOK, st, q)" for st q
    using assms(2) by (cases t; simp add: Check_def Build_def)+
  have "bind_res x (\<lambda>(state, r, w, ss). if state \<noteq> kStateOK then Inr (state, r, w, ss) else run_stages [] r w ss) = x" for x
    by (cases x) auto
  then show ?thesis
    using assms(1) m c by (simp add: Parse_def stage_Check_def stage_Optimize_def Optimize_def stage_Build_def parsed_def
        set_message_def realizer_new_def cong del: bind_res_weak_cong)
qed

lemma server_query_faults:
  assumes "sql_parser env sql = ([], Some t)" "\<And>s. t \<noteq> AST_Select s" "Execute net env (parsed sql t) w ss = Inl f"
  shows "server_query net env w ss sql = Inl f"
  using other_stages [OF assms(1,2), of net w ss] assms(3)
  by (simp add: server_query_def ProcessSimpleQuery_def query_realizer_def del: run_stages.simps)

lemma server_insert:
  assumes "sql_parser env sql = ([], Some (AST_Insert s))" "NewInsertStmt n t cols vals = Inr (AST_Insert s, n')"
    and "GetRelation (srv_store w) (insert_table_name s) = Some rel" "attributes rel \<noteq> []"
  shows "server_query net env w ss sql = Inl Assert_failed"
proof (rule server_query_faults [OF assms(1)])
  have "insert_values s = []" using NewInsertStmt_values [OF assms(2)] by auto
  then show "Execute net env (parsed sql (AST_Insert s)) w ss = Inl Assert_failed"
    using assms(3,4) by (simp add: Execute_def parsed_def ExecInsert_def insert_map_def)
qed simp

lemma server_create_as:
  assumes "sql_parser env sql = ([], Some (AST_CreateAs name s))"
  shows "server_query net env w ss sql = Inl Null_pointer"
  by (rule server_query_faults [OF assms]) (simp_all add: Execute_def parsed_def)

text \<open>The client is told about the missing table before the destructor of the load ends the process.\<close>

lemma server_copy_unknown:
  assumes net: "writes_all net out" and p: "sql_parser env sql = ([], Some (AST_Load s))" "\<not> from_stdin s"
    and fs: "srv_files w (load_file_path s) = Some content"
    and rel: "GetRelation (srv_store w) (load_table_name s) = None"
    and fits: "8 \<le> length (mb_data (write_msg ss))"
  shows "server_query net env w ss sql = Inl Null_pointer"
proof -
  let ?ld = "(Load_new PAGE_SIZE (load_file_path s) (load_table_name s) (copy_delimiter s))
    \<lparr>ld_is := Some (set_in_delimiter (csv_open content) (copy_delimiter s) ''$$'')\<rparr>"
  let ?r = "(parsed sql (AST_Load s))\<lparr>top_cmd := Some (Cmd_Load ?ld)\<rparr>"
  have "Execute net env (parsed sql (AST_Load s)) w ss = Inr (kStateRelationNotFound, ?r, w, ss)"
    using assms by (cases w) (simp add: Execute_def parsed_def ExecLoad_def run_load_def ExecCmd_def cmd_Prepare_def
        Load_Prepare_def cmd_Exec_def Load_Exec_def set_message_def realizer_new_def QueryRealizer_new_def Load_new_def)
  moreover have "message (rq ?r) = []" by (simp add: parsed_def realizer_new_def QueryRealizer_new_def)
  moreover obtain s3 where 3: "SendErrorResponse net ss [] = Inr s3" "sent out ss (frame (ascii CHR ''E'') (ascii CHR ''M'' # c_string [] @ [0])) s3"
    using SendErrorResponse_sent [OF net, of "[]" ss] fits by (auto simp: c_string_def bytes_of_def)
  moreover from 3(2) obtain s4 where "SendReadForQuery net s3 (ascii CHR ''I'') = Inr s4"
    using SendReadForQuery_sent [OF net, of s3 "ascii CHR ''I''"] fits by (auto simp: sent_def)
  moreover have "realizer_delete ?r w = Inl Null_pointer"
    by (simp add: realizer_delete_def parsed_def realizer_new_def QueryRealizer_new_def Load_delete_def DeleteIOObject_def
        Load_new_def)
  ultimately show ?thesis using other_stages [OF p(1), of net w ss]
    by (simp add: server_query_def ProcessSimpleQuery_def query_realizer_def del: run_stages.simps)
qed

lemma server_update:
  assumes "writes_all net out" "sql_parser env sql = ([], Some (AST_Update u))" "8 \<le> length (mb_data (write_msg ss))"
  shows "\<exists>ss'. server_query net env w ss sql = Inr (w, ss')"
proof -
  have "run_stages [Parse env, stage_Check, stage_Optimize, stage_Build, Execute net env] (realizer_new sql) w ss =
      Inr (kStateExecError, parsed sql (AST_Update u), w, ss)"
    using other_stages [OF assms(2), of net w ss] by (simp add: Execute_def parsed_def)
  moreover have "realizer_delete (parsed sql (AST_Update u)) w = Inr w"
    by (cases w) (simp add: realizer_delete_def parsed_def realizer_new_def QueryRealizer_new_def)
  moreover have "7 + length (c_string (message (rq (parsed sql (AST_Update u))))) \<le> length (mb_data (write_msg ss))"
    using assms(3) by (simp add: parsed_def realizer_new_def QueryRealizer_new_def c_string_def bytes_of_def)
  ultimately show ?thesis using server_query_fails [OF assms(1)] by blast
qed


subsection \<open>COPY from a file\<close>

lemma handles_inv_loaded:
  assumes inv: "handles_inv st" and free: "\<not> system_open st relid" "\<not> has_reader st relid"
  shows "handles_inv (loaded st relid rows)"
proof -
  let ?p = "GetDBFilePath st relid" and ?b = "row_batch (uuid st) (uuid_next st) rows"
  let ?st = "st\<lparr>files := (files st)(?p \<mapsto> batch_apply ?b (DB_entries st ?p))\<rparr>"
  have "handles_inv ?st" by (rule handles_inv_files [OF inv batch_apply_sorted [OF DB_entries_sorted [OF inv]]])
  from handles_inv_writer [OF this, of "\<lparr>wh_batch = ?b, wh_reference = 1\<rparr>" relid] free
  have w: "handles_inv (?st\<lparr>locked := (locked ?st)(?p := True), write_handler_map := AList.update relid
      \<lparr>wh_batch = ?b, wh_reference = 1\<rparr> (write_handler_map ?st)\<rparr>)" by (simp add: owner_defs)
  have "loaded st relid rows = (?st\<lparr>locked := (locked ?st)(?p := True), write_handler_map := AList.update relid
      \<lparr>wh_batch = ?b, wh_reference = 1\<rparr> (write_handler_map ?st)\<rparr>)\<lparr>uuid_next := uuid_next st + length rows\<rparr>"
    by (simp add: loaded_def Let_def)
  then show ?thesis using w by (simp only: handles_inv_uuid)
qed

text \<open>The store after the load, with the handler given back.\<close>

definition copied :: "LevelStore \<Rightarrow> u32 \<Rightarrow> db_value list list \<Rightarrow> LevelStore" where
  "copied st relid rows = (let st' = loaded st relid rows in
     DB_Close (st'\<lparr>write_handler_map := AList.delete relid (write_handler_map st')\<rparr>) (GetDBFilePath st relid))"

lemma DeleteIOObject_loaded: "DeleteIOObject (loaded st relid rows) (IO_write relid) = Inr (copied st relid rows)"
  by (simp add: DeleteIOObject_def loaded_def copied_def Let_def update_conv')

lemma copied_store:
  assumes "handles_inv st" "\<not> system_open st relid" "\<not> has_reader st relid"
  shows "handles_inv (copied st relid rows)" and "\<not> has_writer (copied st relid rows) relid"
    and "DB_entries (copied st relid rows) (GetDBFilePath st relid) =
      batch_apply (row_batch (uuid st) (uuid_next st) rows) (DB_entries st (GetDBFilePath st relid))"
    and "i \<noteq> relid \<Longrightarrow> DB_entries (copied st relid rows) (GetDBFilePath st i) = DB_entries st (GetDBFilePath st i)"
    and "GetRelation (copied st relid rows) n = GetRelation st n"
proof -
  have "has_writer (loaded st relid rows) relid"
    by (simp add: has_writer_def loaded_def Let_def update_conv')
  from handles_inv_close(1) [OF handles_inv_loaded [OF assms] this]
  show "handles_inv (copied st relid rows)" by (simp add: copied_def Let_def loaded_def)
qed (simp_all add: has_writer_def copied_def loaded_def Let_def DB_Close_def delete_conv' DB_entries_def GetRelation_def
    GetDBFilePath_inj)

lemma server_load:
  assumes net: "writes_all net out"
    and p: "sql_parser env sql = ([], Some (AST_Load s))" "\<not> from_stdin s" "copy_delimiter s = d"
    and inv: "handles_inv (srv_store w)" and free: "\<not> system_open (srv_store w) relid"
      "\<not> has_writer (srv_store w) relid" "\<not> has_reader (srv_store w) relid"
    and rel: "GetRelation (srv_store w) (load_table_name s) = Some rel" "relation_id rel = relid"
    and rows: "list_all (row_ok (texts env) (Relation_ToDesc rel) d PAGE_SIZE) rows" "delimiter_ok d" "length rows < fuel env"
    and fil: "srv_files w (load_file_path s) = Some (csv_file (texts env) d rows)"
      "3 \<le> length (csv_file (texts env) d rows)" "\<not> BOM_hit (csv_file (texts env) d rows)"
    and ok: "write_ok env"
    and m: "m = copy_message (length rows) (load_table_name s)" "6 + length (c_string m) \<le> length (mb_data (write_msg ss))"
  shows "\<exists>ss'. server_query net env w ss sql = Inr (w\<lparr>srv_store := copied (srv_store w) relid rows\<rparr>, ss') \<and>
    sent out ss (frame (ascii CHR ''C'') (c_string m) @ frame (ascii CHR ''Z'') [ascii CHR ''I'']) ss'"
proof -
  from Load_Exec_rows [where fs = "srv_files w" and path = "load_file_path s", OF inv free rel rows fil] obtain ld ld' where
    ld: "Load_Prepare (srv_files w) (Load_new PAGE_SIZE (load_file_path s) (load_table_name s) d) = (kStateOK, ld)"
      "Load_Exec (texts env) True (fuel env) ld (srv_store w) = Inr (kStateOK, ld', loaded (srv_store w) relid rows)"
      "ld_response ld' = m" "ld_batch ld' = Some relid" unfolding m(1) .
  let ?r = "set_message ((parsed sql (AST_Load s))\<lparr>top_cmd := Some (Cmd_Load ld')\<rparr>) m"
  have "Execute net env (parsed sql (AST_Load s)) w ss =
      Inr (kStateOK, ?r, w\<lparr>srv_store := loaded (srv_store w) relid rows\<rparr>, ss)"
    using p(2,3) ld ok by (simp add: Execute_def parsed_def ExecLoad_def run_load_def ExecCmd_def cmd_Prepare_def cmd_Exec_def)
  then have run: "run_stages [Parse env, stage_Check, stage_Optimize, stage_Build, Execute net env] (realizer_new sql) w ss =
      Inr (kStateOK, ?r, w\<lparr>srv_store := loaded (srv_store w) relid rows\<rparr>, ss)"
    using other_stages [OF p(1), of net w ss] by simp
  have "realizer_delete ?r (w\<lparr>srv_store := loaded (srv_store w) relid rows\<rparr>) =
      Inr (w\<lparr>srv_store := copied (srv_store w) relid rows\<rparr>)"
    using ld(4) by (simp add: realizer_delete_def set_message_def parsed_def realizer_new_def QueryRealizer_new_def
        Load_delete_def DeleteIOObject_loaded)
  from server_query_completes [OF net _ run this] m(2) show ?thesis by (simp add: set_message_def)
qed

end
