(* ===== verification/Store_Reload.thy ===== *)
theory Store_Reload
  imports Store_Catalog
begin

section \<open>Reading the catalog back\<close>

text \<open>
  What \<open>ReadSystemTable\<close> rebuilds from catalog tuples that \<open>WriteRelMeta\<close> has written. The tuples
  come in the order of their random keys; each column goes through \<open>AddAttribute(append = false)\<close>,
  which keeps a column only when the relation has none yet or one with a greater position. So a
  relation gets back, in order, the columns up to the one whose tuple is read first.
\<close>

subsection \<open>Columns added by position\<close>

definition reload :: "Relation \<Rightarrow> Attribute list \<Rightarrow> Relation" where
  "reload rel as = foldl (\<lambda>r a. Relation_AddAttribute r a False) rel as"

definition in_relation :: "u32 \<Rightarrow> Attribute \<Rightarrow> Attribute" where
  "in_relation rid a = a\<lparr>attr_relation_id := rid\<rparr>"

lemma attribute_index_in_relation [simp]: "attribute_index (in_relation rid a) = attribute_index a"
  by (simp add: in_relation_def)

lemma reload_keeps [simp]:
  "relation_id (reload rel as) = relation_id rel" "rel_name (reload rel as) = rel_name rel"
  by (induction as arbitrary: rel) (simp_all add: reload_def)

lemma insert_before_greater_insort:
  "attribute_index a \<notin> attribute_index ` set as \<Longrightarrow>
   \<exists>b \<in> set as. attribute_index a < attribute_index b \<Longrightarrow> sorted (map attribute_index as) \<Longrightarrow>
   insert_before_greater a as = insort_key attribute_index a as"
  by (induction as) (auto simp: not_less)

lemma attributes_Add_False:
  "attributes rel \<noteq> [] \<Longrightarrow> attributes (Relation_AddAttribute rel a False) =
   insert_before_greater (in_relation (relation_id rel) a) (attributes rel)"
  by (simp add: Relation_AddAttribute_def in_relation_def)

lemma sort_key_snoc:
  assumes "distinct (map f (xs @ [x]))"
  shows "insort_key f x (sort_key f xs) = sort_key f (xs @ [x])"
proof (rule map_sorted_distinct_set_unique [where f = f])
  show "inj_on f (set (insort_key f x (sort_key f xs)) \<union> set (sort_key f (xs @ [x])))"
    using assms by (auto simp: set_insort_key distinct_map)
  show "distinct (map f (insort_key f x (sort_key f xs)))" "distinct (map f (sort_key f (xs @ [x])))"
    using assms by (auto simp: distinct_map distinct_insort set_insort_key inj_on_insert)
qed (simp_all add: sorted_insort_key set_insort_key)

definition kept_columns :: "u32 \<Rightarrow> Attribute list \<Rightarrow> Attribute list" where
  "kept_columns rid as = (case as of [] \<Rightarrow> []
     | a # _ \<Rightarrow> sort_key attribute_index (map (in_relation rid)
         (filter (\<lambda>b. attribute_index b \<le> attribute_index a) as)))"

lemma reload_columns:
  "attributes rel = [] \<Longrightarrow> distinct (map attribute_index as) \<Longrightarrow>
   attributes (reload rel as) = kept_columns (relation_id rel) as"
proof (induction as rule: rev_induct)
  case Nil
  then show ?case by (simp add: reload_def kept_columns_def)
next
  case (snoc b as)
  let ?rid = "relation_id rel"
  show ?case
  proof (cases as)
    case Nil
    with snoc.prems show ?thesis
      by (simp add: reload_def kept_columns_def Relation_AddAttribute_def in_relation_def)
  next
    case (Cons a as')
    let ?xs = "map (in_relation ?rid) (filter (\<lambda>b. attribute_index b \<le> attribute_index a) as)"
    let ?b = "in_relation ?rid b"
    from snoc Cons have IH: "attributes (reload rel as) = sort_key attribute_index ?xs"
      by (simp add: kept_columns_def)
    have "in_relation ?rid a \<in> set (sort_key attribute_index ?xs)" by (simp add: Cons set_insort_key)
    then have ne: "attributes (reload rel as) \<noteq> []" unfolding IH by (metis list.set(1) empty_iff)
    have step: "attributes (reload rel (as @ [b])) = insert_before_greater ?b (sort_key attribute_index ?xs)"
      using attributes_Add_False [OF ne, of b] unfolding IH reload_keeps by (simp add: reload_def)
    have aa: "a \<in> set as" by (simp add: Cons)
    show ?thesis
    proof (cases "attribute_index b \<le> attribute_index a")
      case True
      with snoc.prems Cons have lt: "attribute_index b < attribute_index a" by force
      have d: "distinct (map attribute_index (?xs @ [?b]))"
        using snoc.prems(2) by (auto simp: comp_def distinct_map_filter)
      have "insert_before_greater ?b (sort_key attribute_index ?xs) =
          insort_key attribute_index ?b (sort_key attribute_index ?xs)"
        by (rule insert_before_greater_insort) (use d lt aa in \<open>auto simp: comp_def\<close>)
      with step sort_key_snoc [OF d] True Cons show ?thesis by (simp add: kept_columns_def)
    next
      case False
      then have "insert_before_greater ?b (sort_key attribute_index ?xs) = sort_key attribute_index ?xs"
        by (intro insert_before_greater_drop) auto
      with step False Cons show ?thesis by (simp add: kept_columns_def)
    qed
  qed
qed

subsection \<open>The two passes over the system tables\<close>

text \<open>An attribute as its tuple gives it back.\<close>

definition stored_attribute :: "Attribute \<Rightarrow> Attribute" where
  "stored_attribute a = Attribute_default\<lparr>attr_id := of_nat (524328 + length (attr_name a)),
     attr_relation_id := attr_relation_id a, attr_name := attr_name a,
     attr_data_type := DataType_cast (DataType_code (attr_data_type a)),
     max_length := max_length a, attribute_index := attribute_index a\<rparr>"

lemma Attribute_FromTuple_bytes:
  "length (attr_name a) \<le> 968 \<Longrightarrow>
   Attribute_FromTuple Attribute_default (map Some (attribute_bytes a)) = Inr (stored_attribute a)"
  by (simp add: map_Some_attribute_bytes Attribute_FromTuple_image stored_attribute_def del: of_nat_add)

lemma Relation_FromTuple_bytes:
  "length (rel_name r) \<le> 496 \<Longrightarrow>
   Relation_FromTuple Relation_new (map Some (relation_bytes r)) = Inr (r\<lparr>attributes := []\<rparr>)"
  by (cases r) (simp add: map_Some_relation_bytes Relation_FromTuple_image Relation_new_def)

text \<open>The catalog of relations without columns.\<close>

definition catalog_of :: "Relation list \<Rightarrow> LevelStore \<Rightarrow> LevelStore" where
  "catalog_of rs st = st\<lparr>all_relations := rs,
     name_rel_map := map_of (zip (map rel_name rs) [0..<length rs]),
     id_rel_map := map_of (zip (map relation_id rs) [0..<length rs])\<rparr>"

lemma InsertRelation_catalog_of:
  assumes "rel_name r \<notin> rel_name ` set rs" "relation_id r \<notin> relation_id ` set rs"
  shows "InsertRelation (catalog_of rs st) r = (True, catalog_of (rs @ [r]) st)"
  using assms map_of_zip_is_None [of "map rel_name rs" "[0..<length rs]"]
    map_of_zip_is_None [of "map relation_id rs" "[0..<length rs]"]
    map_of_zip_snoc [of "map rel_name rs" "[0..<length rs]" "rel_name r" "length rs"]
    map_of_zip_snoc [of "map relation_id rs" "[0..<length rs]" "relation_id r" "length rs"]
  by (simp add: InsertRelation_def catalog_of_def Let_def del: fun_upd_apply)

lemma read_relations_spec:
  "map snd m = map relation_bytes rs \<Longrightarrow> \<forall>r \<in> set rs. length (rel_name r) \<le> 496 \<Longrightarrow>
   distinct (map rel_name (rs0 @ rs)) \<Longrightarrow> distinct (map relation_id (rs0 @ rs)) \<Longrightarrow>
   read_relations m (catalog_of rs0 st) =
   Inr (catalog_of (rs0 @ map (\<lambda>r. r\<lparr>attributes := []\<rparr>) rs) st)"
proof (induction rs arbitrary: m rs0)
  case (Cons r rs)
  from Cons.prems(1) obtain k m' where m: "m = (k, relation_bytes r) # m'"
    "map snd m' = map relation_bytes rs" by (cases m) auto
  let ?r = "r\<lparr>attributes := []\<rparr>"
  have "InsertRelation (catalog_of rs0 st) ?r = (True, catalog_of (rs0 @ [?r]) st)"
    using Cons.prems by (intro InsertRelation_catalog_of) auto
  moreover have "read_relations m' (catalog_of (rs0 @ [?r]) st) =
      Inr (catalog_of ((rs0 @ [?r]) @ map (\<lambda>r. r\<lparr>attributes := []\<rparr>) rs) st)"
    using Cons.prems m by (intro Cons.IH) auto
  ultimately show ?case using Cons.prems(2) m by (simp add: Relation_FromTuple_bytes)
qed simp

text \<open>The second pass, over the tuples of the columns \<open>as\<close> in key order.\<close>

definition columns_of :: "u32 \<Rightarrow> Attribute list \<Rightarrow> Attribute list" where
  "columns_of rid as = map stored_attribute (filter (\<lambda>a. attr_relation_id a = rid) as)"

lemma read_attributes_spec:
  "map snd m = map attribute_bytes as \<Longrightarrow> \<forall>a \<in> set as. length (attr_name a) \<le> 968 \<Longrightarrow>
   catalog_inv st \<Longrightarrow> \<forall>a \<in> set as. id_rel_map st (attr_relation_id a) \<noteq> None \<Longrightarrow>
   \<forall>i < length (all_relations st). id_rel_map st (relation_id (all_relations st ! i)) = Some i \<Longrightarrow>
   read_attributes m st = Inr (st\<lparr>all_relations :=
     map (\<lambda>r. reload r (columns_of (relation_id r) as)) (all_relations st)\<rparr>)"
proof (induction as arbitrary: m st)
  case Nil
  then show ?case by (simp add: columns_of_def reload_def)
next
  case (Cons a as)
  from Cons.prems(1) obtain k m' where m: "m = (k, attribute_bytes a) # m'"
    "map snd m' = map attribute_bytes as" by (cases m) auto
  from Cons.prems(4) obtain i where i: "id_rel_map st (attr_relation_id a) = Some i" by auto
  from catalog_inv_id [OF Cons.prems(3) i] have l: "i < length (all_relations st)"
    and ri: "relation_id (all_relations st ! i) = attr_relation_id a" by auto
  let ?r = "Relation_AddAttribute (all_relations st ! i) (stored_attribute a) False"
  let ?st = "st\<lparr>all_relations := (all_relations st)[i := ?r]\<rparr>"
  have keep: "relation_id ((all_relations st)[i := ?r] ! j) = relation_id (all_relations st ! j)" for j
    using l by (cases "j = i") auto
  have "read_attributes m' ?st = Inr (?st\<lparr>all_relations :=
      map (\<lambda>r. reload r (columns_of (relation_id r) as)) (all_relations ?st)\<rparr>)"
  proof (rule Cons.IH)
    show "catalog_inv ?st" by (rule catalog_inv_update [OF Cons.prems(3)]) simp_all
    show "\<forall>i < length (all_relations ?st). id_rel_map ?st (relation_id (all_relations ?st ! i)) = Some i"
      using Cons.prems(5) by (simp add: keep)
  qed (use m Cons.prems in auto)
  moreover have "map (\<lambda>r. reload r (columns_of (relation_id r) as)) ((all_relations st)[i := ?r]) =
      map (\<lambda>r. reload r (columns_of (relation_id r) (a # as))) (all_relations st)" (is "?L = ?R")
  proof (rule nth_equalityI)
    fix j assume "j < length ?L"
    then have j: "j < length (all_relations st)" by simp
    show "?L ! j = ?R ! j"
    proof (cases "j = i")
      case True
      then show ?thesis using l ri by (simp add: columns_of_def reload_def)
    next
      case False
      with Cons.prems(5) i j have "relation_id (all_relations st ! j) \<noteq> attr_relation_id a"
        by (metis option.inject)
      with False j show ?thesis by (simp add: columns_of_def)
    qed
  qed simp
  ultimately show ?case
    using m i Cons.prems(2) by (simp add: Attribute_FromTuple_bytes stored_attribute_def)
qed

lemma map_of_zip_upt:
  "distinct xs \<Longrightarrow> i < length xs \<Longrightarrow> map_of (zip xs [0..<length xs]) (xs ! i) = Some i"
  by (simp add: map_of_zip_nth)

lemma catalog_inv_catalog_of:
  assumes "distinct (map rel_name rs)" "distinct (map relation_id rs)"
  shows "catalog_inv (catalog_of rs st)"
  using assms by (force simp: catalog_inv_def catalog_of_def in_set_zip)

text \<open>The whole of \<open>ReadSystemTable\<close> on the databases that \<open>WriteRelMeta\<close> fills.\<close>

lemma ReadSystemTable_spec:
  assumes st: "st = catalog_of [] st0"
    and rs: "map snd (DB_entries st0 (GetDBFilePath st0 SYS_RELATION)) = map relation_bytes rs"
    and as: "map snd (DB_entries st0 (GetDBFilePath st0 SYS_ATTRIBUTE)) = map attribute_bytes as"
    and ok: "\<forall>r \<in> set rs. length (rel_name r) \<le> 496" "\<forall>a \<in> set as. length (attr_name a) \<le> 968"
    and d: "distinct (map rel_name rs)" "distinct (map relation_id rs)"
    and known: "\<forall>a \<in> set as. attr_relation_id a \<in> relation_id ` set rs"
  shows "ReadSystemTable st = Inr (True, (catalog_of (map (\<lambda>r. r\<lparr>attributes := []\<rparr>) rs) st0)\<lparr>all_relations :=
    map (\<lambda>r. reload (r\<lparr>attributes := []\<rparr>) (columns_of (relation_id r) as)) rs\<rparr>)"
proof -
  let ?rs = "map (\<lambda>r. r\<lparr>attributes := []\<rparr>) rs"
  let ?st = "catalog_of ?rs st0"
  have same: "DB_entries (catalog_of qs st0) = DB_entries st0"
    "GetDBFilePath (catalog_of qs st0) = GetDBFilePath st0" for qs
    by (simp_all add: catalog_of_def DB_entries_def fun_eq_iff)
  have ids: "map relation_id ?rs = map relation_id rs" "map rel_name ?rs = map rel_name rs"
    by (simp_all add: comp_def)
  have 1: "read_relations (DB_entries st0 (GetDBFilePath st0 SYS_RELATION)) st = Inr ?st"
    using read_relations_spec [OF rs ok(1), of "[]" st0] d st by simp
  have known': "id_rel_map ?st x \<noteq> None" if "x \<in> relation_id ` set rs" for x
    using that map_of_zip_is_None [of "map relation_id ?rs" "[0..<length ?rs]" x] ids
    by (simp add: catalog_of_def)
  have 2: "read_attributes (DB_entries st0 (GetDBFilePath st0 SYS_ATTRIBUTE)) ?st =
      Inr (?st\<lparr>all_relations := map (\<lambda>r. reload r (columns_of (relation_id r) as)) ?rs\<rparr>)"
    using read_attributes_spec [OF as ok(2), of ?st] known known' catalog_inv_catalog_of [of ?rs st0] d ids
      map_of_zip_upt [of "map relation_id rs"]
    by (simp add: catalog_of_def comp_def)
  show ?thesis using 1 2 same st by (simp add: ReadSystemTable_def comp_def)
qed

end
