(* ===== verification/Store_Steps.thy ===== *)
theory Store_Steps
  imports Store_Handles Store_Reload
begin

section \<open>All operations of the store\<close>

text \<open>
  The store as one state machine: start and stop, the catalog operations and the handlers. The
  catalog invariant holds in every state that is reached from a store without relations.
\<close>

inductive store_step :: "LevelStore \<Rightarrow> LevelStore \<Rightarrow> bool" where
  start: "Start st = Inr (ok, st') \<Longrightarrow> store_step st st'"
| stop: "store_step st (Stop st)"
| create: "CreateRelation fuel st schema = Inr (ok, st') \<Longrightarrow> store_step st st'"
| drop_rel: "DropRelation st n = (ok, st') \<Longrightarrow> store_step st st'"
| index: "CreateIndex st = (ok, st') \<Longrightarrow> store_step st st'"
| handler: "handle_step st st' \<Longrightarrow> store_step st st'"

definition same_catalog :: "LevelStore \<Rightarrow> LevelStore \<Rightarrow> bool" where
  "same_catalog st st' \<longleftrightarrow> name_rel_map st' = name_rel_map st \<and> id_rel_map st' = id_rel_map st \<and>
     all_relations st' = all_relations st"

lemma same_catalog_inv: "same_catalog st st' \<Longrightarrow> catalog_inv st \<Longrightarrow> catalog_inv st'"
  by (rule catalog_inv_cong) (simp_all add: same_catalog_def)

lemma same_catalog_refl [simp]: "same_catalog st st"
  by (simp add: same_catalog_def)

lemma same_catalog_trans: "same_catalog a b \<Longrightarrow> same_catalog b c \<Longrightarrow> same_catalog a c"
  by (simp add: same_catalog_def)

lemma same_catalog_DB_Open: "DB_Open st c p = (ok, st') \<Longrightarrow> same_catalog st st'"
  by (auto simp: DB_Open_def same_catalog_def split: if_splits option.splits)

lemma same_catalog_DB_Close [simp]: "same_catalog st (DB_Close st p)"
  by (simp add: DB_Close_def same_catalog_def)

lemma same_catalog_writes_only:
  assumes "writes_only st st'"
  shows "same_catalog st st'"
proof -
  from assms obtain fs u where "st' = st\<lparr>files := fs, uuid_next := u\<rparr>" unfolding writes_only_def by blast
  then show ?thesis by (simp add: same_catalog_def)
qed

lemma same_catalog_open_system:
  assumes "open_system st c = (ok, st')"
  shows "same_catalog st st'"
proof -
  obtain ok1 s1 where 1: "DB_Open st c (GetDBFilePath st SYS_RELATION) = (ok1, s1)" by fastforce
  obtain ok2 s2 where 2: "DB_Open (s1\<lparr>db_class := True\<rparr>) c (GetDBFilePath s1 SYS_ATTRIBUTE) = (ok2, s2)" by fastforce
  from same_catalog_DB_Open [OF 1] same_catalog_DB_Open [OF 2] assms 1 2 show ?thesis
    by (auto simp: open_system_def same_catalog_def Let_def split: if_splits)
qed

lemma same_catalog_close_system: "same_catalog st (close_system st)"
  by (simp add: close_system_def Let_def DB_Close_def same_catalog_def)

lemma same_catalog_Stop: "same_catalog st (Stop st)"
proof -
  have f: "same_catalog s (fold (\<lambda>(i, h) st. DB_Close st (GetDBFilePath st i)) m s)" for s and m :: "(u32 \<times> 'h) list"
  proof (induction m arbitrary: s)
    case (Cons x m)
    show ?case using same_catalog_trans [OF _ Cons.IH] by (cases x) simp
  qed simp
  let ?a = "fold (\<lambda>(i, h) st. DB_Close st (GetDBFilePath st i)) (write_handler_map st) st"
  let ?b = "fold (\<lambda>(i, h) st. DB_Close st (GetDBFilePath st i)) (iterator_handler_map ?a) ?a"
  have "same_catalog st ?b" by (rule same_catalog_trans [OF f f])
  then show ?thesis using same_catalog_close_system [of "?b\<lparr>write_handler_map := [], iterator_handler_map := []\<rparr>"]
    by (simp add: Stop_def Let_def same_catalog_def)
qed

lemma same_catalog_InitDB:
  assumes "InitDB st = Inr (ok, st')"
  shows "same_catalog st st'"
proof (cases "data_dir st")
  case False
  obtain ok1 s1 where 1: "open_system (st\<lparr>data_dir := True\<rparr>) True = (ok1, s1)" by fastforce
  have s1: "same_catalog st s1" using same_catalog_open_system [OF 1] by (simp add: same_catalog_def)
  show ?thesis
  proof (cases ok1)
    case True
    with assms False 1 obtain s2 s3 where "WriteRelMeta s1 rel_class = Inr s2" "WriteRelMeta s2 rel_attr = Inr s3"
      "st' = close_system s3" by (auto simp: InitDB_def CreateSystemTable_def)
    then show ?thesis
      using same_catalog_trans [OF same_catalog_trans [OF same_catalog_trans [OF s1]] same_catalog_close_system]
        same_catalog_writes_only [OF WriteRelMeta_frame] by blast
  qed (use assms False 1 s1 in \<open>simp add: InitDB_def\<close>)
qed (use assms in \<open>simp add: InitDB_def\<close>)

lemma catalog_inv_Start_open: "Start_open st = Inr (ok, st') \<Longrightarrow> catalog_inv st \<Longrightarrow> catalog_inv st'"
  by (auto simp: Start_open_def split: prod.splits if_splits
      dest: same_catalog_open_system same_catalog_inv catalog_inv_ReadSystemTable)

lemma catalog_inv_Start: "Start st = Inr (ok, st') \<Longrightarrow> catalog_inv st \<Longrightarrow> catalog_inv st'"
  by (auto simp: Start_def split: if_splits
      dest: same_catalog_InitDB same_catalog_inv catalog_inv_Start_open)

lemma same_catalog_handle_step: "handle_step st st' \<Longrightarrow> same_catalog st st'"
proof (induction rule: handle_step.induct)
  case (give_back st io st')
  then show ?case
    by (cases io) (auto simp: DeleteIOObject_def same_catalog_def DB_Close_def split: option.splits if_splits)
qed (auto simp: NewIterator_def NewWriteHandler_def WriteHandler_Put_def WriteHandler_PutKey_def WriteHandler_Delete_def
    WriteHandler_Commit_def GenUUID_def batch_add_def DB_Write_def DB_Open_def same_catalog_def Let_def
    split: option.splits if_splits)

lemma store_step_catalog: "store_step st st' \<Longrightarrow> catalog_inv st \<Longrightarrow> catalog_inv st'"
  by (induction rule: store_step.induct)
    (auto simp: DropRelation_def CreateIndex_def intro: catalog_inv_Start catalog_inv_Create
      same_catalog_inv [OF same_catalog_Stop] same_catalog_inv [OF same_catalog_handle_step])

lemma store_steps_catalog: "store_step\<^sup>*\<^sup>* st st' \<Longrightarrow> catalog_inv st \<Longrightarrow> catalog_inv st'"
  by (induction rule: rtranclp_induct) (auto intro: store_step_catalog)

text \<open>A lookup in the catalog by name and by identifier agree.\<close>

lemma catalog_inv_lookup:
  assumes "catalog_inv st" "GetRelation st n = Some r"
  shows "rel_name r = n \<and> (\<exists>i. id_rel_map st (relation_id r) = Some i \<and> all_relations st ! i = r)"
  using assms by (auto simp: GetRelation_def dest: catalog_inv_name split: option.splits)

lemma catalog_inv_empty: "name_rel_map st = Map.empty \<Longrightarrow> id_rel_map st = Map.empty \<Longrightarrow> catalog_inv st"
  by (simp add: catalog_inv_def)

end
