(* ===== verification/Witness_Data.thy ===== *)
theory Witness_Data
  imports Server_Select Server_Statements Store_Steps
begin

section \<open>A concrete server\<close>

text \<open>
  Inputs on which the properties are evaluated: a socket that keeps what is written to it, a store
  with one table of two rows, a query over it, and a file with two rows.
\<close>

definition w_net :: "byte list socket_ops" where
  "w_net = \<lparr>asio_read = (\<lambda>s n. Inr (take n s, drop n s)), asio_write = (\<lambda>s bs. Inr (length bs, s @ bs))\<rparr>"

lemma w_net_writes: "writes_all w_net (\<lambda>s. s)"
  by (simp add: writes_all_def w_net_def)

definition w_session :: "byte list Session" where
  "w_session = Session_new []"

lemma w_session_room: "length (mb_data (write_msg w_session)) = 512"
  by (simp add: w_session_def Session_new_def MessageBuffer_new_def)

subsection \<open>A table and its store\<close>

definition w_rel :: Relation where
  "w_rel = \<lparr>rel_name = ''T'', relation_id = 7, attributes =
     [\<lparr>attr_name = ''A'', attribute_index = 0, attr_id = 0, attr_relation_id = 7, max_length = 8,
       attr_data_type = kDTInteger, attr_is_null = False, is_variable = False\<rparr>,
      \<lparr>attr_name = ''B'', attribute_index = 1, attr_id = 1, attr_relation_id = 7, max_length = 10,
       attr_data_type = kDTVarchar, attr_is_null = False, is_variable = True\<rparr>]\<rparr>"

definition w_tables :: "u32 \<Rightarrow> db_value list list" where
  "w_tables r = (if r = 7 then [[VInteger 5, VVarchar ''ab''], [VInteger 9, VVarchar ''c'']] else [])"

definition w_kv :: kv where
  "w_kv = [([1], map the (encode_tuple [VInteger 5, VVarchar ''ab''])),
           ([2], map the (encode_tuple [VInteger 9, VVarchar ''c'']))]"

definition w_path :: string where "w_path = ''d/7.db''"

definition w_store :: LevelStore where
  "w_store = \<lparr>ls_path = ''d'', data_dir = True, files = [w_path \<mapsto> w_kv], locked = (\<lambda>p. False), db_class = False,
     db_attribute = False, name_rel_map = [''T'' \<mapsto> 0], id_rel_map = [7 \<mapsto> 0], all_relations = [w_rel],
     write_handler_map = [], iterator_handler_map = [], uuid = (\<lambda>n. replicate (n + 3) 1), uuid_next = 0,
     rand = of_nat, rand_next = 0\<rparr>"

lemma w_store_path: "GetDBFilePath w_store 7 = w_path"
  by code_simp

lemma w_store_relation: "GetRelation w_store ''T'' = Some w_rel"
  by (simp add: GetRelation_def w_store_def)

lemma w_kv_sorted: "kv_sorted w_kv"
  by (simp add: kv_sorted_def w_kv_def bytes_less.simps)

lemma w_store_handles: "handles_inv w_store" "\<not> system_open w_store i" "\<not> has_writer w_store i" "\<not> has_reader w_store i"
  using w_kv_sorted by (auto simp: handles_inv_def owner_defs w_store_def split: if_splits)

lemma w_store_catalog: "catalog_inv w_store"
  by (auto simp: catalog_inv_def w_store_def w_rel_def split: if_splits)

subsection \<open>A query\<close>

definition w_plan :: exec where
  "w_plan = Select (SeqScan_new 7 0) (IntegerCompare kGreater (SlotReference kDTInteger 0 0) (IntegerConstValue kDTInteger 6))"

definition w_attrs :: "value_expr list" where
  "w_attrs = [SlotReference kDTVarchar 0 1]"

definition w_desc :: RowDesc where
  "w_desc = [\<lparr>column_name = ''B'', data_type = kDTVarchar, data_type_size = 10, cd_relation_id = Some 7,
     attribute_id = 1, nth_tuple = 0, nth_item = 1\<rparr>]"

definition w_stmt :: select_stmt where
  "w_stmt = SelectStmt [(ColumnReference 0 [] ''B'', [])] [TableReference ''T'' []]
     [Operation kGreater (Some (ColumnReference 1 [] ''A''))
        (Some (ConstExpr \<lparr>cv_data_type = kDTInteger, str_val = [], int_val = 6\<rparr>))] [] []"

text \<open>The realizer after \<open>Check\<close>, and what \<open>Build\<close> makes of it.\<close>

definition w_checked :: QueryRealizer where
  "w_checked = (case Check w_store (AST_Select w_stmt) QueryRealizer_new of Inr (s, q) \<Rightarrow> q | Inl f \<Rightarrow> QueryRealizer_new)"

definition w_built :: "State \<times> LevelStore \<times> QueryRealizer" where
  "w_built = (case Build w_store (AST_Select w_stmt) w_checked of Inr r \<Rightarrow> r | Inl f \<Rightarrow> (kStateExecError, w_store, w_checked))"

lemma w_check: "Check w_store (AST_Select w_stmt) QueryRealizer_new = Inr (kStateOK, w_checked)"
  by code_simp

lemma w_build: "Build w_store (AST_Select w_stmt) w_checked = Inr (kStateOK, fst (snd w_built), snd (snd w_built))"
proof -
  have ok: "fst w_built = kStateOK" by code_simp
  show ?thesis
  proof (cases "Build w_store (AST_Select w_stmt) w_checked")
    case (Inr r)
    then have "w_built = r" by (simp add: w_built_def)
    with Inr ok show ?thesis by (simp add: prod_eq_iff)
  qed (use ok in \<open>simp add: w_built_def\<close>)
qed

lemma w_built_plan: "top_exec (snd (snd w_built)) = Some (Project_new w_plan w_attrs 1)"
  "settle_desc 7 (output_row_desc (snd (snd w_built))) = w_desc"
  "projection_list (snd (snd w_built)) = w_attrs"
  by code_simp+

lemma w_from_tables: "from_tables w_store (TableReference ''T'' []) = [(''T'', w_rel)]"
  by (simp add: from_tables_def w_store_relation)

lemma w_select_ok: "select_ok w_store w_stmt (TableReference ''T'' [])"
  by (simp add: select_ok_def w_stmt_def w_from_tables ids_def)

lemma w_holds: "holds_tables w_store [(''T'', w_rel)] w_tables"
proof -
  have "DB_entries w_store w_path = w_kv" by (simp add: DB_entries_def w_store_def)
  moreover have "map (\<lambda>e. map Some (snd e)) w_kv = map encode_tuple (w_tables 7)"
    by (simp add: w_kv_def w_tables_def encode_tuple_bytes [simplified])
  ultimately show ?thesis
    by (simp add: holds_tables_def ids_def w_rel_def w_store_path db_typed_def schema_of_def w_tables_def fits_slots_iff)
qed


subsection \<open>Statements\<close>

definition w_texts :: text_ops where
  "w_texts = \<lparr>show_double = (\<lambda>w. show_nat (unat w)), read_double = (\<lambda>s. Some (of_nat (nat_value s))),
     date_subsec = (\<lambda>s. Inl Cxx_exception)\<rparr>"

definition w_load :: LoadStmt where
  "w_load = \<lparr>from_stdin = False, load_table_name = ''T'', load_file_path = ''in.csv'', copy_delimiter = CHR '','',
     load_column_names = []\<rparr>"

definition w_insert :: InsertStmt where
  "w_insert = \<lparr>insert_table_name = ''T'', opt_column_names = [], insert_values = []\<rparr>"

definition w_env :: server_env where
  "w_env = \<lparr>sql_parser = (\<lambda>sql. if sql = ''select'' then ([], Some (AST_Select w_stmt))
       else if sql = ''load'' then ([], Some (AST_Load w_load))
       else if sql = ''lost'' then ([], Some (AST_Load (w_load\<lparr>load_table_name := ''U''\<rparr>)))
       else if sql = ''insert'' then ([], Some (AST_Insert w_insert))
       else (''syntax error'', None)),
     texts = w_texts, this_text = ''0x1'', writable = (\<lambda>p. True), write_ok = True, stale_id = 7, fuel = 10\<rparr>"

definition w_rows :: "db_value list list" where
  "w_rows = [[VInteger 3, VVarchar ''x,y''], [VInteger 4, VVarchar []]]"

definition w_server :: Server where
  "w_server = \<lparr>srv_store = w_store, srv_files = [''in.csv'' \<mapsto> csv_file w_texts (CHR '','') w_rows]\<rparr>"

lemma w_csv: "csv_file w_texts (CHR '','') w_rows = ''3,x$$y'' @ [CHR 0x0A] @ ''4,'' @ [CHR 0x0A]"
  by code_simp

lemma w_rows_ok: "list_all (row_ok w_texts (Relation_ToDesc w_rel) (CHR '','') PAGE_SIZE) w_rows" "delimiter_ok (CHR '','')"
  by (simp_all add: w_rows_def row_ok_def w_rel_def Relation_ToDesc_def csv_line_def length_encode_tuple PAGE_SIZE_def
      token_ok_def delimiter_ok_def)

lemma w_rows_export: "list_all (export_ok (Relation_ToDesc w_rel)) w_rows"
  by (simp add: w_rows_def export_ok_def w_rel_def Relation_ToDesc_def fits_slots_iff)

end
