(* ===== verification/Store_Properties.thy ===== *)
theory Store_Properties
  imports Witness_Data
begin

section \<open>Properties of the store\<close>

text \<open>
  The catalog, the handlers, batches of updates, restarts and the layout of tuples, each with an
  evaluation on concrete data.
\<close>

definition w_sys :: LevelStore where
  "w_sys = w_store\<lparr>files := [GetDBFilePath w_store SYS_RELATION \<mapsto> [], GetDBFilePath w_store SYS_ATTRIBUTE \<mapsto> []],
     db_class := True, db_attribute := True, name_rel_map := Map.empty, id_rel_map := Map.empty, all_relations := []\<rparr>"

definition w_schema :: TableSchema where
  "w_schema = \<lparr>ts_name = ''T'', column_list =
     [\<lparr>cs_name = ''A'', cs_data_type = kDTInteger, cs_length = 8, cs_is_null = False, is_primary_key = False\<rparr>,
      \<lparr>cs_name = ''B'', cs_data_type = kDTVarchar, cs_length = 10, cs_is_null = False, is_primary_key = False\<rparr>]\<rparr>"

lemma w_sys_simps [simp]:
  "db_class w_sys" "db_attribute w_sys" "name_rel_map w_sys = Map.empty" "id_rel_map w_sys = Map.empty"
  "uuid w_sys n = replicate (n + 3) 1" "uuid_next w_sys = 0" "rand w_sys = of_nat" "rand_next w_sys = 0"
  "files w_sys (GetDBFilePath w_sys SYS_RELATION) = Some []" "files w_sys (GetDBFilePath w_sys SYS_ATTRIBUTE) = Some []"
  by (simp_all add: w_sys_def GetDBFilePath_inj SYS_RELATION_def SYS_ATTRIBUTE_def) (simp_all add: w_store_def)

lemma w_schema_ok: "list_all column_ok (column_list w_schema)" "meta_named (created_relation i w_schema)"
  by (simp_all add: w_schema_def column_ok_def meta_named_def created_relation_def created_column_def)

lemma w_gen: "GenRelationID 10 w_sys = Inr (0, w_sys\<lparr>rand_next := 1\<rparr>)"
  by (simp add: numeral_nat Let_def)

text \<open>
  C4: \<open>CREATE TABLE\<close> does what it says. With the system tables open, a new name, columns of the
  supported types and names that fit, \<open>CreateRelation\<close> succeeds; the relation is found under its
  name with its columns in order, every other lookup is unchanged, and one tuple per relation
  and per column is in the system tables.
\<close>

theorem CreateRelation_correct:
  assumes "catalog_inv st" "db_class st" "db_attribute st"
    and "files st (GetDBFilePath st SYS_RELATION) = Some mc"
    and "files st (GetDBFilePath st SYS_ATTRIBUTE) = Some ma"
    and "GenRelationID k st = Inr (rid, st0)"
    and "name_rel_map st (ts_name schema) = None"
    and "list_all column_ok (column_list schema)"
    and "meta_named (created_relation rid schema)"
  shows "\<exists>st'. CreateRelation k st schema = Inr (True, st') \<and>
    GetRelation st' (ts_name schema) = Some (created_relation rid schema) \<and>
    (\<forall>n. n \<noteq> ts_name schema \<longrightarrow> GetRelation st' n = GetRelation st n) \<and>
    files st' (GetDBFilePath st SYS_RELATION) =
      Some (kv_put (uuid st (uuid_next st)) (relation_bytes (created_relation rid schema)) mc) \<and>
    files st' (GetDBFilePath st SYS_ATTRIBUTE) =
      Some (batch_apply (meta_batch (uuid st) (uuid_next st + 1) (attributes (created_relation rid schema))) ma)"
  by (rule CreateRelation_spec [OF assms])

theorem CreateRelation_correct_witness:
  "\<exists>st'. CreateRelation 10 w_sys w_schema = Inr (True, st') \<and>
    GetRelation st' ''T'' = Some (created_relation 0 w_schema)"
proof -
  have "catalog_inv w_sys" by (rule catalog_inv_empty) simp_all
  moreover have "ts_name w_schema = ''T''" by (simp add: w_schema_def)
  ultimately show ?thesis
    using CreateRelation_correct [OF _ _ _ _ _ w_gen, of "[]" "[]" w_schema] w_schema_ok by auto
qed

text \<open>
  C5: the catalog stays consistent. In every state reached from one without relations by any
  sequence of starts, stops, catalog operations and handler operations, a lookup by name gives
  a relation of that name, which the map of identifiers leads to as well; no two entries share
  a name or an identifier.
\<close>

theorem catalog_consistent:
  assumes "store_step\<^sup>*\<^sup>* st st'" "name_rel_map st = Map.empty" "id_rel_map st = Map.empty"
  shows "catalog_inv st' \<and> (\<forall>n r. GetRelation st' n = Some r \<longrightarrow> rel_name r = n \<and>
    (\<exists>i. id_rel_map st' (relation_id r) = Some i \<and> all_relations st' ! i = r))"
  using store_steps_catalog [OF assms(1) catalog_inv_empty [OF assms(2,3)]] catalog_inv_lookup by blast

theorem catalog_consistent_witness:
  "\<exists>st'. CreateRelation 10 w_sys w_schema = Inr (True, st') \<and> catalog_inv st' \<and>
    (\<forall>r. GetRelation st' ''T'' = Some r \<longrightarrow> rel_name r = ''T'')"
proof -
  have "catalog_inv w_sys" by (rule catalog_inv_empty) simp_all
  then obtain st' where c: "CreateRelation 10 w_sys w_schema = Inr (True, st')"
    using CreateRelation_spec [OF _ _ _ _ _ w_gen, of "[]" "[]" w_schema] w_schema_ok by (auto simp: w_schema_def)
  then have "store_step\<^sup>*\<^sup>* w_sys st'" by (blast intro: store_step.create)
  from catalog_consistent [OF this] c show ?thesis by auto
qed

text \<open>
  C6: at most one owner has a database open. From a state with the invariant, no sequence of
  handler operations leads to a state in which a table has both a reader and a writer, in which a
  lock is held without an owner or an owner without a lock, or in which a handler without
  reference is kept.
\<close>

theorem handles_exclusive:
  assumes "handle_step\<^sup>*\<^sup>* st st'" "handles_inv st"
  shows "handles_inv st' \<and> \<not> (has_writer st' i \<and> has_reader st' i) \<and>
    (locked st' (GetDBFilePath st' i) \<longleftrightarrow> system_open st' i \<or> has_writer st' i \<or> has_reader st' i)"
  using handle_steps_inv [OF assms] by (auto simp: handles_inv_def)

theorem handles_exclusive_witness:
  "\<exists>st'. NewIterator w_store 7 = Inr st' \<and> handles_inv st' \<and> has_reader st' 7 \<and> \<not> has_writer st' 7"
proof -
  have n: "\<exists>st'. NewIterator w_store 7 = Inr st' \<and> has_reader st' 7"
    using NewIterator_new [OF w_store_handles(1,4)] w_store_handles by (simp add: Let_def has_reader_def update_conv')
  then obtain st' where st': "NewIterator w_store 7 = Inr st'" "has_reader st' 7" by blast
  then have "handle_step\<^sup>*\<^sup>* w_store st'" by (blast intro: handle_step.new_iterator)
  from handles_exclusive [OF this w_store_handles(1), of 7] st' show ?thesis by blast
qed

text \<open>
  C7: a table that is being read cannot be opened for writing, nor one that is being written for
  reading: the second open fails and the assertion in the store ends the process.
\<close>

theorem second_owner_asserts:
  assumes "handles_inv st"
  shows "(has_reader st i \<longrightarrow> NewWriteHandler st i = Inl Assert_failed) \<and>
    (has_writer st i \<longrightarrow> NewIterator st i = Inl Assert_failed)"
proof -
  have "\<not> has_writer st i \<or> \<not> has_reader st i" using assms by (auto simp: handles_inv_def)
  then show ?thesis using NewWriteHandler_new [OF assms, of i] NewIterator_new [OF assms, of i] by auto
qed

theorem second_owner_asserts_witness:
  "\<exists>st'. NewIterator w_store 7 = Inr st' \<and> NewWriteHandler st' 7 = Inl Assert_failed"
proof -
  obtain st' where st': "NewIterator w_store 7 = Inr st'" "has_reader st' 7"
    using NewIterator_new [OF w_store_handles(1,4)] w_store_handles by (simp add: Let_def has_reader_def update_conv')
  from second_owner_asserts [OF handles_inv_NewIterator [OF st'(1) w_store_handles(1)], of 7] st'
  show ?thesis by blast
qed


text \<open>
  C8: a new identifier is found. When \<open>rand()\<close> gives, after \<open>k\<close> identifiers that are in use, one that is
  not, the loop of \<open>GenRelationID\<close> ends after \<open>k + 1\<close> rounds with that identifier.
\<close>

theorem GenRelationID_terminates:
  assumes "id_rel_map st (rand st (rand_next st + k)) = None"
    and "\<forall>j < k. id_rel_map st (rand st (rand_next st + j)) \<noteq> None" and "k < n"
  shows "GenRelationID n st = Inr (rand st (rand_next st + k), st\<lparr>rand_next := rand_next st + k + 1\<rparr>)"
  using GenRelationID_returns [OF assms(3,1,2)] .

theorem GenRelationID_terminates_witness:
  "GenRelationID 3 (w_store\<lparr>rand := (\<lambda>n. of_nat (n + 7))\<rparr>) = Inr (8, w_store\<lparr>rand := (\<lambda>n. of_nat (n + 7)), rand_next := 2\<rparr>)"
  using GenRelationID_terminates [of "w_store\<lparr>rand := (\<lambda>n. of_nat (n + 7))\<rparr>" 1 3] by (simp add: w_store_def)









end
