(* ===== verification/Statement_Properties.thy ===== *)
theory Statement_Properties
  imports Witness_Data
begin

section \<open>Statements: properties\<close>

text \<open>
  What the server does with the statements other than \<open>SELECT\<close>: a \<open>COPY\<close> from a file, texts that do not
  parse, and the statements that end the process.
\<close>

subsection \<open>A table after a load\<close>









subsection \<open>Texts that do not parse\<close>

text \<open>
  C12: a text that the parser refuses is answered with its message and the ready message, and
  nothing changes; if the message does not fit the write buffer, the server writes behind it.
\<close>

theorem parse_error_reported:
  assumes "writes_all net out" "sql_parser env sql = (m, None)" "8 \<le> length (mb_data (write_msg ss))"
  shows "if 7 + length (c_string m) \<le> length (mb_data (write_msg ss))
    then \<exists>ss'. server_query net env w ss sql = Inr (w, ss') \<and>
      sent out ss (frame (ascii CHR ''E'') (ascii CHR ''M'' # c_string m @ [0]) @ frame (ascii CHR ''Z'') [ascii CHR ''I'']) ss'
    else server_query net env w ss sql = Inl Out_of_bounds"
  using server_parse_error [OF assms(1,2), where w = w and ss = ss] server_parse_error_long [OF assms(2), of ss net w] assms(3)
  by auto

theorem parse_error_reported_witness:
  "(\<exists>ss'. server_query w_net w_env w_server w_session ''?'' = Inr (w_server, ss')) \<and>
   server_query w_net (w_env\<lparr>sql_parser := (\<lambda>sql. (replicate 505 CHR ''x'', None))\<rparr>) w_server w_session [] = Inl Out_of_bounds"
  using parse_error_reported [OF w_net_writes, of w_env "''?''" "''syntax error''" w_session w_server]
    parse_error_reported [OF w_net_writes, of "w_env\<lparr>sql_parser := (\<lambda>sql. (replicate 505 CHR ''x'', None))\<rparr>" "[]"
      "replicate 505 CHR ''x''" w_session w_server]
  by (auto simp: w_session_room w_env_def c_string_def bytes_of_def)

subsection \<open>Statements that end the server\<close>

text \<open>
  C13: no \<open>INSERT\<close> works. The tree that the parser context builds has no values, and for a table
  with columns the assertion of \<open>ExecInsert\<close> ends the process.
\<close>

theorem insert_asserts:
  assumes "sql_parser env sql = ([], Some (AST_Insert s))" "NewInsertStmt n t cols vals = Inr (AST_Insert s, n')"
    and "GetRelation (srv_store w) (insert_table_name s) = Some rel" "attributes rel \<noteq> []"
  shows "server_query net env w ss sql = Inl Assert_failed"
  by (rule server_insert [OF assms])

theorem insert_asserts_witness:
  "server_query w_net w_env w_server w_session ''insert'' = Inl Assert_failed"
proof -
  have "sql_parser w_env ''insert'' = ([], Some (AST_Insert w_insert))" by (simp add: w_env_def)
  moreover have "NewInsertStmt 0 (Some (AST_Name ''T'')) [] [] = Inr (AST_Insert w_insert, 1)"
    by code_simp
  moreover have "attributes w_rel \<noteq> []" by (simp add: w_rel_def)
  ultimately show ?thesis
    using insert_asserts [of w_env "''insert''" w_insert 0 "Some (AST_Name ''T'')" "[]" "[]" 1 w_server w_rel]
    by (simp add: w_server_def w_insert_def w_store_relation)
qed

text \<open>
  C14: \<open>COPY\<close> from a file into a table that does not exist ends the process: the error has been
  sent when the destructor of the load gives back the handle it never got.
\<close>

theorem copy_unknown_table_crashes:
  assumes "writes_all net out" "sql_parser env sql = ([], Some (AST_Load s))" "\<not> from_stdin s"
    and "srv_files w (load_file_path s) = Some content"
    and "GetRelation (srv_store w) (load_table_name s) = None" "8 \<le> length (mb_data (write_msg ss))"
  shows "server_query net env w ss sql = Inl Null_pointer"
  by (rule server_copy_unknown [OF assms])

theorem copy_unknown_table_crashes_witness:
  "server_query w_net w_env w_server w_session ''lost'' = Inl Null_pointer"
  by (rule copy_unknown_table_crashes [OF w_net_writes, of w_env "''lost''" "w_load\<lparr>load_table_name := ''U''\<rparr>"])
     (auto simp: w_env_def w_load_def w_server_def w_session_room GetRelation_def w_store_def)

end
