(* ===== verification/Data_Properties.thy ===== *)
theory Data_Properties
  imports Witness_Data
begin

section \<open>Encodings: properties\<close>

text \<open>
  Tuples, predicates, rows of a file, the catalog on disk and the startup packet: what is written
  and what is read back.
\<close>

subsection \<open>Tuples\<close>

text \<open>
  C15: a tuple gives back its values. In the encoding of a list of values that fits the 16-bit
  offsets, slot \<open>i\<close> carries the length of value \<open>i\<close>, and the bytes at its offset are those of the value.
\<close>

theorem tuple_roundtrip:
  assumes "i < length vs" "fits_slots vs"
  shows "\<exists>s. RawTuple_GetSlot (encode_tuple vs) i = Inr s \<and>
    load_bytes (encode_tuple vs) (unat (offset s)) (unat (len s)) = Inr (encode_value (vs ! i))"
proof -
  from encoded_slot [OF assms] obtain s where s: "RawTuple_GetSlot (encode_tuple vs) i = Inr s"
    "unat (len s) = length (encode_value (vs ! i))"
    "\<exists>rest. RawTuple_GetValue (encode_tuple vs) (unat (offset s)) = map Some (encode_value (vs ! i)) @ rest" by blast
  then show ?thesis by (auto simp: load_bytes_def RawTuple_GetValue_def deref_append)
qed

theorem tuple_roundtrip_witness:
  "\<exists>s. RawTuple_GetSlot (encode_tuple [VInteger 5, VVarchar ''ab'']) 1 = Inr s \<and>
    load_bytes (encode_tuple [VInteger 5, VVarchar ''ab'']) (unat (offset s)) (unat (len s)) = Inr (bytes_of ''ab'')"
  using tuple_roundtrip [of 1 "[VInteger 5, VVarchar ''ab'']"] by (simp add: fits_slots_iff)



text \<open>
  C17: projection builds the encoding of the projected values. The two passes of \<open>Project::GetNext\<close>,
  which compute the size and then copy value by value, give the tuple that the encoding
  defines in one step.
\<close>

theorem projection_equals_encoding:
  assumes "list_all2 (\<lambda>e v. eval_value e env = Some v) es vs" "row_fits env"
    and "\<forall>e \<in> set es. value_expr_ok e" "length (encode_tuple vs) < 2 ^ 32"
  shows "Project_tuple es (encode_row env) = Inr (encode_tuple vs)"
  by (rule Project_tuple_encoded [OF assms])

theorem projection_equals_encoding_witness:
  "Project_tuple w_attrs (encode_row [Some [VInteger 5, VVarchar ''ab'']]) = Inr (encode_tuple [VVarchar ''ab''])"
  by (rule projection_equals_encoding)
     (simp_all add: w_attrs_def row_fits_def fits_slots_iff length_encode_tuple)

subsection \<open>Files\<close>

text \<open>
  C18: a row of a file is read back token by token, whatever its tokens are, as long as they hold
  no line break and no character that starts the escape string.
\<close>

theorem csv_row_roundtrip:
  assumes "plain_csv d e c" "escape_ok d e" "list_all (token_ok e) ts" "ts \<noteq> []"
    and "csv_pos c = 0" "csv_str c = row_line d e ts"
  shows "fst (get_tokens (length ts) c) = ts"
  using get_tokens_row [OF assms(1-4)] assms(5,6) by auto

theorem csv_row_roundtrip_witness:
  "fst (get_tokens 3 ((set_in_delimiter (csv_open []) (CHR '','') ''$$'')\<lparr>csv_str := ''a,b$$c,''\<rparr>)) = [''a'', ''b,c'', []]"
  using csv_row_roundtrip [of "CHR '',''" "''$$''"
      "(set_in_delimiter (csv_open []) (CHR '','') ''$$'')\<lparr>csv_str := ''a,b$$c,''\<rparr>" "[''a'', ''b,c'', []]"]
  by (simp add: plain_csv_def set_in_delimiter_def csv_open_def escape_ok_def token_ok_def numeral_3_eq_3 del: get_tokens.simps)




subsection \<open>The catalog on disk\<close>

text \<open>
  C20: what a restart reads back of the catalog. Every relation is found again under its name with
  its identifier; of its columns, those are kept, in order of position, that do not come
  after the column whose tuple is first in the key order of the system table. The others are lost.
\<close>

theorem catalog_read_back:
  assumes "map snd (DB_entries st (GetDBFilePath st SYS_RELATION)) = map relation_bytes rs"
    and "map snd (DB_entries st (GetDBFilePath st SYS_ATTRIBUTE)) = map attribute_bytes as"
    and "\<forall>r \<in> set rs. length (rel_name r) \<le> 496" "\<forall>a \<in> set as. length (attr_name a) \<le> 968"
    and "distinct (map rel_name rs)" "distinct (map relation_id rs)"
    and "\<forall>a \<in> set as. attr_relation_id a \<in> relation_id ` set rs"
    and "r \<in> set rs" "distinct (map attribute_index (columns_of (relation_id r) as))"
  shows "\<exists>st' r'. ReadSystemTable (catalog_of [] st) = Inr (True, st') \<and> GetRelation st' (rel_name r) = Some r' \<and>
    rel_name r' = rel_name r \<and> relation_id r' = relation_id r \<and>
    attributes r' = kept_columns (relation_id r) (columns_of (relation_id r) as)"
proof -
  from assms(8) obtain i where i: "i < length rs" "r = rs ! i" by (auto simp: in_set_conv_nth)
  let ?g = "\<lambda>r. reload (r\<lparr>attributes := []\<rparr>) (columns_of (relation_id r) as)"
  let ?st = "(catalog_of (map (\<lambda>r. r\<lparr>attributes := []\<rparr>) rs) st)\<lparr>all_relations := map ?g rs\<rparr>"
  have "map_of (zip (map rel_name rs) [0..<length rs]) (rel_name r) = Some i"
    using map_of_zip_nth [of "map rel_name rs" "[0..<length rs]" i] assms(5) i by simp
  then have "GetRelation ?st (rel_name r) = Some (?g r)"
    using i by (simp add: GetRelation_def catalog_of_def o_def)
  moreover have "attributes (?g r) = kept_columns (relation_id r) (columns_of (relation_id r) as)"
    using reload_columns [of "r\<lparr>attributes := []\<rparr>" "columns_of (relation_id r) as"] assms(9) by simp
  ultimately show ?thesis using ReadSystemTable_spec [OF refl assms(1-7)] by simp
qed

definition w_disk :: LevelStore where
  "w_disk = w_store\<lparr>files := [GetDBFilePath w_store SYS_RELATION \<mapsto> [([1], relation_bytes w_rel)],
     GetDBFilePath w_store SYS_ATTRIBUTE \<mapsto>
       [([1], attribute_bytes (attributes w_rel ! 0)), ([2], attribute_bytes (attributes w_rel ! 1))]]\<rparr>"

theorem catalog_read_back_witness:
  "\<exists>st' r'. ReadSystemTable (catalog_of [] w_disk) = Inr (True, st') \<and> GetRelation st' ''T'' = Some r' \<and>
    map attr_name (attributes r') = [''A'']"
proof -
  have n: "GetDBFilePath w_store SYS_RELATION \<noteq> GetDBFilePath w_store SYS_ATTRIBUTE"
    by (simp add: GetDBFilePath_inj SYS_RELATION_def SYS_ATTRIBUTE_def)
  have p: "GetDBFilePath w_disk i = GetDBFilePath w_store i" for i by (simp add: w_disk_def)
  have e: "map snd (DB_entries w_disk (GetDBFilePath w_disk SYS_RELATION)) = map relation_bytes [w_rel]"
    "map snd (DB_entries w_disk (GetDBFilePath w_disk SYS_ATTRIBUTE)) = map attribute_bytes (attributes w_rel)"
    using n unfolding p by (simp_all add: w_disk_def DB_entries_def w_rel_def)
  have k: "map attr_name (kept_columns 7 (columns_of 7 (attributes w_rel))) = [''A'']"
    by (simp add: w_rel_def columns_of_def stored_attribute_def kept_columns_def in_relation_def)
  show ?thesis
    using catalog_read_back [OF e, of w_rel] k
    by (auto simp: w_rel_def columns_of_def stored_attribute_def)
qed

subsection \<open>Statements and fuel\<close>

text \<open>
  C21: an \<open>UPDATE\<close> with a condition or a list of tables never leaves the parser: the loops of
  \<open>NewUpdateStmt\<close> do not move on, so they do not end however many rounds they are given.
\<close>

theorem update_never_parsed:
  assumes "wh \<noteq> [] \<or> from_clause \<noteq> [] \<and> (\<forall>a \<in> set from_clause. as_table a \<noteq> None)"
  shows "NewUpdateStmt k n (Some (AST_Name t)) sets from_clause wh = Inl Out_of_fuel"
proof (cases "wh = []")
  case True
  then have "from_clause \<noteq> []" "as_table (hd from_clause) \<noteq> None" using assms by auto
  then have "update_loop k from_clause (\<lambda>a. assert_some (as_table a)) acc = Inl Out_of_fuel" for acc
    by (induction k arbitrary: acc) (auto simp: neq_Nil_conv assert_some_def)
  with True show ?thesis by (cases k) (auto simp: NewUpdateStmt_def opt_cast_def deref_some_def)
next
  case False
  then have "update_loop k wh (\<lambda>a. Inr (as_operation a)) [] = Inl Out_of_fuel" by (rule update_loop_diverges) simp
  then show ?thesis by (simp add: NewUpdateStmt_def opt_cast_def deref_some_def)
qed

theorem update_never_parsed_witness:
  "NewUpdateStmt 1000 0 (Some (AST_Name ''T'')) [] [] [AST_Name ''c''] = Inl Out_of_fuel"
  by (rule update_never_parsed) simp



subsection \<open>The startup packet\<close>





end
