(* ===== verification/Ldb_Coding.thy ===== *)
theory Ldb_Coding
  imports DB_Prelude
begin

section \<open>LevelDB: encodings of numbers and slices\<close>

text \<open>
  \<^verbatim>\<open>storage/leveldb/util/coding.h\<close> and \<^verbatim>\<open>coding.cc\<close>. A pointer with its limit is the list of the bytes between
  them, a slice the list of its bytes; a routine that returns a pointer behind the value
  returns the remaining bytes, and \<open>None\<close> for \<open>NULL\<close>. Routines that append to a string return what
  they append. The routines without bounds checks fault where they would read behind the block.
\<close>

subsection \<open>Fixed width\<close>

definition kLittleEndian :: bool where
  "kLittleEndian = True"

definition EncodeFixed32 :: "u32 \<Rightarrow> byte list" where
  "EncodeFixed32 v = (if kLittleEndian then le_bytes 4 v
     else [ucast (v AND 0xff), ucast (drop_bit 8 v AND 0xff), ucast (drop_bit 16 v AND 0xff), ucast (drop_bit 24 v AND 0xff)])"

definition EncodeFixed64 :: "u64 \<Rightarrow> byte list" where
  "EncodeFixed64 v = (if kLittleEndian then le_bytes 8 v
     else [ucast (v AND 0xff), ucast (drop_bit 8 v AND 0xff), ucast (drop_bit 16 v AND 0xff), ucast (drop_bit 24 v AND 0xff),
       ucast (drop_bit 32 v AND 0xff), ucast (drop_bit 40 v AND 0xff), ucast (drop_bit 48 v AND 0xff),
       ucast (drop_bit 56 v AND 0xff)])"

definition PutFixed32 :: "byte list \<Rightarrow> u32 \<Rightarrow> byte list" where
  "PutFixed32 dst v = dst @ EncodeFixed32 v"

definition PutFixed64 :: "byte list \<Rightarrow> u64 \<Rightarrow> byte list" where
  "PutFixed64 dst v = dst @ EncodeFixed64 v"

definition DecodeFixed32 :: "byte list \<Rightarrow> u32 res" where
  "DecodeFixed32 p = (if length p < 4 then Inl Out_of_bounds
     else Inr (if kLittleEndian then le_word (take 4 p)
       else ucast (p ! 0) OR push_bit 8 (ucast (p ! 1)) OR push_bit 16 (ucast (p ! 2)) OR push_bit 24 (ucast (p ! 3))))"

definition DecodeFixed64 :: "byte list \<Rightarrow> u64 res" where
  "DecodeFixed64 p = (if length p < 8 then Inl Out_of_bounds
     else if kLittleEndian then Inr (le_word (take 8 p))
     else bind_res (DecodeFixed32 p) (\<lambda>lo. bind_res (DecodeFixed32 (drop 4 p)) (\<lambda>hi.
       Inr (push_bit 32 (ucast hi) OR ucast lo))))"

subsection \<open>Variable width\<close>

definition EncodeVarint32 :: "u32 \<Rightarrow> byte list" where
  "EncodeVarint32 v =
    (if v < push_bit 7 1 then [ucast v]
     else if v < push_bit 14 1 then [ucast (v OR 128), ucast (drop_bit 7 v)]
     else if v < push_bit 21 1 then [ucast (v OR 128), ucast (drop_bit 7 v OR 128), ucast (drop_bit 14 v)]
     else if v < push_bit 28 1 then [ucast (v OR 128), ucast (drop_bit 7 v OR 128), ucast (drop_bit 14 v OR 128), ucast (drop_bit 21 v)]
     else [ucast (v OR 128), ucast (drop_bit 7 v OR 128), ucast (drop_bit 14 v OR 128), ucast (drop_bit 21 v OR 128),
       ucast (drop_bit 28 v)])"

definition PutVarint32 :: "byte list \<Rightarrow> u32 \<Rightarrow> byte list" where
  "PutVarint32 dst v = dst @ EncodeVarint32 v"

lemma unat_drop_bit: "unat (drop_bit n (v :: 'a::len word)) = unat v div 2 ^ n"
proof -
  have "take_bit LENGTH('a) (unat v) = unat v" using unsigned_less [of v] by (rule take_bit_nat_eq_self)
  then have "unat (drop_bit n v) = drop_bit n (unat v)" by (simp only: unsigned_drop_bit_eq)
  then show ?thesis by (simp only: drop_bit_eq_div [of n "unat v"])
qed

lemma unat_drop_bit_less: "128 \<le> (v :: 64 word) \<Longrightarrow> unat (drop_bit 7 v) < unat v"
  by (simp add: word_le_nat_alt unat_drop_bit)

function EncodeVarint64 :: "u64 \<Rightarrow> byte list" where
  "EncodeVarint64 v = (if 128 \<le> v then ucast ((v AND 127) OR 128) # EncodeVarint64 (drop_bit 7 v) else [ucast v])"
  by auto
termination by (relation "measure unat") (simp_all add: unat_drop_bit_less)

declare EncodeVarint64.simps [simp del]

definition PutVarint64 :: "byte list \<Rightarrow> u64 \<Rightarrow> byte list" where
  "PutVarint64 dst v = dst @ EncodeVarint64 v"

definition PutLengthPrefixedSlice :: "byte list \<Rightarrow> byte list \<Rightarrow> byte list" where
  "PutLengthPrefixedSlice dst val = PutVarint32 dst (of_nat (length val)) @ val"

function varint_length_loop :: "u64 \<Rightarrow> nat \<Rightarrow> nat" where
  "varint_length_loop v n = (if 128 \<le> v then varint_length_loop (drop_bit 7 v) (n + 1) else n)"
  by auto
termination by (relation "measure (\<lambda>(v, n). unat v)") (simp_all add: unat_drop_bit_less)

declare varint_length_loop.simps [simp del]

definition VarintLength :: "u64 \<Rightarrow> nat" where
  "VarintLength v = varint_length_loop v 1"

fun GetVarint32PtrFallback :: "nat \<Rightarrow> u32 \<Rightarrow> byte list \<Rightarrow> (u32 \<times> byte list) option" where
  "GetVarint32PtrFallback shift r [] = None"
| "GetVarint32PtrFallback shift r (b # p) =
     (if 28 < shift then None
      else if (ucast b :: u32) AND 128 \<noteq> 0 then GetVarint32PtrFallback (shift + 7) (r OR push_bit shift (ucast b AND 127)) p
      else Some (r OR push_bit shift (ucast b), p))"

definition GetVarint32Ptr :: "byte list \<Rightarrow> (u32 \<times> byte list) option" where
  "GetVarint32Ptr p = (case p of
      b # p' \<Rightarrow> if (ucast b :: u32) AND 128 = 0 then Some (ucast b, p') else GetVarint32PtrFallback 0 0 p
    | [] \<Rightarrow> GetVarint32PtrFallback 0 0 p)"

definition GetVarint32 :: "byte list \<Rightarrow> (u32 \<times> byte list) option" where
  "GetVarint32 input = GetVarint32Ptr input"

fun GetVarint64Ptr_loop :: "nat \<Rightarrow> u64 \<Rightarrow> byte list \<Rightarrow> (u64 \<times> byte list) option" where
  "GetVarint64Ptr_loop shift r [] = None"
| "GetVarint64Ptr_loop shift r (b # p) =
     (if 63 < shift then None
      else if (ucast b :: u64) AND 128 \<noteq> 0 then GetVarint64Ptr_loop (shift + 7) (r OR push_bit shift (ucast b AND 127)) p
      else Some (r OR push_bit shift (ucast b), p))"

definition GetVarint64 :: "byte list \<Rightarrow> (u64 \<times> byte list) option" where
  "GetVarint64 input = GetVarint64Ptr_loop 0 0 input"

definition GetLengthPrefixedSlice :: "byte list \<Rightarrow> (byte list \<times> byte list) option" where
  "GetLengthPrefixedSlice input = (case GetVarint32 input of None \<Rightarrow> None
     | Some (n, input) \<Rightarrow> if unat n \<le> length input then Some (take (unat n) input, drop (unat n) input) else None)"

subsection \<open>Fixed width round trips\<close>

text \<open>Masks of the sources.\<close>

lemma bit_255: "bit (255 :: int) n \<longleftrightarrow> n < 8"
proof -
  have "(255 :: int) = mask 8" by (simp add: mask_eq_exp_minus_1)
  then show ?thesis by (simp only: bit_mask_iff) simp
qed

lemma bit_127: "bit (127 :: int) n \<longleftrightarrow> n < 7"
proof -
  have "(127 :: int) = mask 7" by (simp add: mask_eq_exp_minus_1)
  then show ?thesis by (simp only: bit_mask_iff) simp
qed

lemma bit_128: "bit (128 :: int) n \<longleftrightarrow> n = 7"
proof -
  have "(128 :: int) = 2 ^ 7" by simp
  then show ?thesis by (simp only: bit_exp_iff) auto
qed

lemma ucast_and_255: "(ucast (w AND 255) :: byte) = ucast (w :: 'a::len word)"
  by (rule bit_word_eqI) (auto simp: bit_simps bit_255 dest: bit_imp_le_length)

text \<open>The two branches on the byte order agree.\<close>

lemma EncodeFixed32_portable:
  "EncodeFixed32 v = [ucast (v AND 0xff), ucast (drop_bit 8 v AND 0xff), ucast (drop_bit 16 v AND 0xff), ucast (drop_bit 24 v AND 0xff)]"
  by (simp add: EncodeFixed32_def kLittleEndian_def ucast_and_255 numeral_eq_Suc)

lemma length_EncodeFixed32 [simp]: "length (EncodeFixed32 v) = 4"
  by (simp add: EncodeFixed32_def kLittleEndian_def)

lemma length_EncodeFixed64 [simp]: "length (EncodeFixed64 v) = 8"
  by (simp add: EncodeFixed64_def kLittleEndian_def)

lemma DecodeFixed32_Encode [simp]: "DecodeFixed32 (EncodeFixed32 v @ rest) = Inr v"
  by (simp add: DecodeFixed32_def EncodeFixed32_def kLittleEndian_def)

lemma DecodeFixed64_Encode [simp]: "DecodeFixed64 (EncodeFixed64 v @ rest) = Inr v"
  by (simp add: DecodeFixed64_def EncodeFixed64_def kLittleEndian_def)


subsection \<open>Variable width round trips\<close>

lemma ucast_lt_128: "(v :: 'a::len word) < 128 \<Longrightarrow> 8 \<le> LENGTH('a) \<Longrightarrow> \<not> bit v k \<or> k < 7"
proof -
  assume v: "v < 128" and l: "8 \<le> LENGTH('a)"
  have "(128 :: nat) < 2 ^ LENGTH('a)" by (rule less_le_trans [OF _ power_increasing [OF l]]) simp_all
  then have "unat (128 :: 'a word) = 128" by (simp add: unsigned_numeral take_bit_nat_eq_self)
  then have "unat v < 2 ^ 7" using v by (simp add: word_less_nat_alt)
  then have "take_bit 7 (unat v) = unat v" by (simp add: take_bit_nat_eq_self)
  then have "take_bit 7 v = v" by (metis unsigned_take_bit_eq word_unat_eq_iff)
  then show ?thesis by (metis bit_take_bit_iff)
qed

lemma more_byte:
  "(ucast ((ucast (((v :: u64) AND 127) OR 128) :: byte)) :: u64) AND 128 \<noteq> 0"
  "(ucast ((ucast (((v :: u64) AND 127) OR 128) :: byte)) :: u64) AND 127 = v AND 127"
proof -
  let ?w = "(ucast ((ucast (((v :: u64) AND 127) OR 128) :: byte)) :: u64)"
  have "bit (?w AND 128) 7" by (simp add: bit_simps bit_127 bit_128)
  then show "?w AND 128 \<noteq> 0" by auto
  show "?w AND 127 = v AND 127" by (rule bit_word_eqI) (auto simp: bit_simps bit_127 bit_128)
qed

lemma last_byte:
  assumes "(v :: u64) < 128"
  shows "(ucast (ucast v :: byte) :: u64) AND 128 = 0" "(ucast (ucast v :: byte) :: u64) = v"
proof -
  have b: "\<not> bit v k \<or> k < 7" for k using ucast_lt_128 [OF assms] by simp
  show "(ucast (ucast v :: byte) :: u64) = v" by (rule bit_word_eqI) (use b in \<open>force simp: bit_simps\<close>)
  then show "(ucast (ucast v :: byte) :: u64) AND 128 = 0"
    using b [of 7] by (intro bit_word_eqI) (auto simp: bit_simps bit_128)
qed

lemma join_septets: "push_bit s (v AND 127) OR push_bit (s + 7) (drop_bit 7 v) = push_bit s (v :: 'a::len word)"
proof (rule bit_word_eqI)
  fix n assume "n < LENGTH('a)"
  then show "bit (push_bit s (v AND 127) OR push_bit (s + 7) (drop_bit 7 v)) n = bit (push_bit s v) n"
    by (cases "n < s"; cases "n < s + 7") (auto simp: bit_simps bit_127)
qed

lemma GetVarint64_loop_Encode:
  "s + 7 * length (EncodeVarint64 v) \<le> 70 \<Longrightarrow>
   GetVarint64Ptr_loop s r (EncodeVarint64 v @ rest) = Some (r OR push_bit s v, rest)"
proof (induction v arbitrary: s r rule: EncodeVarint64.induct)
  case (1 v)
  show ?case
  proof (cases "128 \<le> v")
    case True
    have s: "s + 7 + 7 * length (EncodeVarint64 (drop_bit 7 v)) \<le> 70"
      using 1(2) True by (simp add: EncodeVarint64.simps [of v])
    moreover have "0 < length (EncodeVarint64 (drop_bit 7 v))" by (subst EncodeVarint64.simps) simp
    ultimately have "s \<le> 63" by simp
    then show ?thesis
      using 1(1) [OF True s] True more_byte [of v] join_septets [of s v]
      by (subst EncodeVarint64.simps) (simp add: or.assoc)
  next
    case False
    then have "s \<le> 63" using 1(2) by (simp add: EncodeVarint64.simps [of v])
    moreover have "EncodeVarint64 v = [ucast v]" using False by (subst EncodeVarint64.simps) simp
    ultimately show ?thesis using False last_byte [of v] by simp
  qed
qed


lemma length_EncodeVarint64_pos: "0 < length (EncodeVarint64 v)"
  by (subst EncodeVarint64.simps) simp

lemma length_EncodeVarint64: "unat v < 2 ^ (7 * k) \<Longrightarrow> 0 < k \<Longrightarrow> length (EncodeVarint64 v) \<le> k"
proof (induction v arbitrary: k rule: EncodeVarint64.induct)
  case (1 v)
  show ?case
  proof (cases "128 \<le> v")
    case True
    then have "128 \<le> unat v" by (simp add: word_le_nat_alt)
    with 1(2) obtain j where j: "k = Suc j" "0 < j" by (cases k; cases "k - 1") auto
    have "unat (drop_bit 7 v) = unat v div 128"
      using unat_drop_bit [of 7 v] by simp
    also have "\<dots> < 2 ^ (7 * j)"
      using 1(2) by (simp add: j less_mult_imp_div_less power_add)
    finally have "length (EncodeVarint64 (drop_bit 7 v)) \<le> j" using 1(1) [OF True _ j(2)] by blast
    then show ?thesis using True by (subst EncodeVarint64.simps) (simp add: j)
  next
    case False
    then show ?thesis using 1(3) by (subst EncodeVarint64.simps) simp
  qed
qed

lemma EncodeVarint64_bound: "length (EncodeVarint64 v) \<le> 10"
proof (rule length_EncodeVarint64)
  have "unat v < 2 ^ 64" using unsigned_less [of v] by simp
  then show "unat v < 2 ^ (7 * 10)" by simp
qed simp

lemma GetVarint64_Encode [simp]: "GetVarint64 (EncodeVarint64 v @ rest) = Some (v, rest)"
  using GetVarint64_loop_Encode [of 0 v 0 rest] EncodeVarint64_bound [of v] by (simp add: GetVarint64_def)

lemma varint_length_loop: "varint_length_loop v n + 1 = n + length (EncodeVarint64 v)"
proof (induction v arbitrary: n rule: EncodeVarint64.induct)
  case (1 v)
  then show ?case by (subst EncodeVarint64.simps, subst varint_length_loop.simps) auto
qed

lemma VarintLength_Encode: "VarintLength v = length (EncodeVarint64 v)"
  using varint_length_loop [of v 1] by (simp add: VarintLength_def)

text \<open>The unrolled 32-bit encoder writes what the loop writes.\<close>

lemma le_drop_bit: "128 \<le> drop_bit n (ucast (v :: u32) :: u64) \<longleftrightarrow> 2 ^ (n + 7) \<le> unat v"
proof -
  have "unat (drop_bit n (ucast v :: u64)) = unat v div 2 ^ n"
    by (simp add: unat_drop_bit unsigned_ucast_eq take_bit_nat_eq_self less_trans [OF unsigned_less [of v]])
  then show ?thesis
    by (simp add: word_le_nat_alt less_eq_div_iff_mult_less_eq power_add mult.commute)
qed

lemma EncodeVarint32_eq: "EncodeVarint32 v = EncodeVarint64 (ucast v)"
proof -
  let ?w = "ucast v :: u64"
  have lt: "v < push_bit k 1 \<longleftrightarrow> unat v < 2 ^ k" if "k < 32" for k
  proof -
    have "(push_bit k 1 :: u32) = of_nat (2 ^ k)" by (simp add: push_bit_eq_mult)
    then have "unat (push_bit k 1 :: u32) = 2 ^ k"
      using that power_strict_increasing [of k 32 "2 :: nat"] by (simp only: unat_of_nat) simp
    then show ?thesis by (simp only: word_less_nat_alt)
  qed
  have more: "EncodeVarint64 (drop_bit n ?w) = ucast (drop_bit n v OR 128) # EncodeVarint64 (drop_bit (n + 7) ?w)"
    if "2 ^ (n + 7) \<le> unat v" for n
  proof -
    have "(ucast ((drop_bit n ?w AND 127) OR 128) :: byte) = ucast (drop_bit n v OR 128)"
      by (rule bit_word_eqI) (auto simp: bit_simps bit_127 bit_128 dest: bit_imp_le_length)
    then show ?thesis using that le_drop_bit [of n v]
      by (subst EncodeVarint64.simps) (simp add: drop_bit_drop_bit add.commute)
  qed
  have last: "EncodeVarint64 (drop_bit n ?w) = [ucast (drop_bit n v)]" if "unat v < 2 ^ (n + 7)" for n
  proof -
    have "(ucast (drop_bit n ?w) :: byte) = ucast (drop_bit n v)"
      by (rule bit_word_eqI) (auto simp: bit_simps dest: bit_imp_le_length)
    then show ?thesis using that le_drop_bit [of n v] by (subst EncodeVarint64.simps) simp
  qed
  have "unat v < 2 ^ 32" using unsigned_less [of v] by simp
  then have "unat v < 2 ^ 35" by simp
  then show ?thesis
    using more [of 0] more [of 7] more [of 14] more [of 21] last [of 0] last [of 7] last [of 14] last [of 21] last [of 28]
    by (simp add: EncodeVarint32_def lt del: push_bit_of_1)
qed

lemma EncodeVarint32_bound: "length (EncodeVarint32 v) \<le> 5"
  by (simp add: EncodeVarint32_def)

lemma GetVarint32_loop_Encode:
  "s + 7 * length (EncodeVarint64 v) \<le> 35 \<Longrightarrow>
   GetVarint32PtrFallback s r (EncodeVarint64 v @ rest) = Some (r OR push_bit s (ucast v), rest)"
proof (induction v arbitrary: s r rule: EncodeVarint64.induct)
  case (1 v)
  let ?b = "ucast ((v AND 127) OR 128) :: byte"
  have b: "(ucast ?b :: u32) AND 127 = ucast v AND 127" "(ucast ?b :: u32) AND 128 \<noteq> 0"
  proof -
    show "(ucast ?b :: u32) AND 127 = ucast v AND 127" by (rule bit_word_eqI) (auto simp: bit_simps bit_127 bit_128)
    have "bit ((ucast ?b :: u32) AND 128) 7" by (simp add: bit_simps bit_127 bit_128)
    then show "(ucast ?b :: u32) AND 128 \<noteq> 0" by auto
  qed
  show ?case
  proof (cases "128 \<le> v")
    case True
    have s: "s + 7 + 7 * length (EncodeVarint64 (drop_bit 7 v)) \<le> 35"
      using 1(2) True by (simp add: EncodeVarint64.simps [of v])
    then have "s \<le> 28" using length_EncodeVarint64_pos [of "drop_bit 7 v"] by simp
    moreover have "push_bit s (ucast v AND 127) OR push_bit (s + 7) (ucast (drop_bit 7 v)) = (push_bit s (ucast v) :: u32)"
    proof (rule bit_word_eqI)
      fix n assume "n < LENGTH(32)"
      then show "bit (push_bit s (ucast v AND 127) OR push_bit (s + 7) (ucast (drop_bit 7 v)) :: u32) n = bit (push_bit s (ucast v :: u32)) n"
        by (cases "n < s"; cases "n < s + 7") (auto simp: bit_simps bit_127)
    qed
    moreover have "EncodeVarint64 v = ?b # EncodeVarint64 (drop_bit 7 v)" using True by (subst EncodeVarint64.simps) simp
    ultimately show ?thesis using 1(1) [OF True s] b by (simp add: or.assoc)
  next
    case False
    then have "s \<le> 28" "EncodeVarint64 v = [ucast v]" using 1(2) by (simp_all add: EncodeVarint64.simps [of v])
    moreover have k: "\<not> bit v k \<or> k < 7" for k using ucast_lt_128 [of v k] False by simp
    then have "(ucast (ucast v :: byte) :: u32) AND 128 = 0" "(ucast (ucast v :: byte) :: u32) = ucast v"
      by (auto intro!: bit_word_eqI simp: bit_simps bit_128) (use k in force)+
    ultimately show ?thesis by simp
  qed
qed

lemma GetVarint32_Encode [simp]: "GetVarint32 (EncodeVarint32 v @ rest) = Some (v, rest)"
proof -
  have u: "ucast (ucast v :: u64) = v" by (rule bit_word_eqI) (auto simp: bit_simps)
  let ?e = "EncodeVarint64 (ucast v)"
  have f: "GetVarint32PtrFallback 0 0 (?e @ rest) = Some (v, rest)"
    using GetVarint32_loop_Encode [of 0 "ucast v" 0 rest] EncodeVarint32_bound [of v] by (simp add: EncodeVarint32_eq u)
  obtain b p where e: "?e = b # p" using length_EncodeVarint64_pos [of "ucast v"] by (cases ?e) auto
  show ?thesis using f by (auto simp: GetVarint32_def GetVarint32Ptr_def EncodeVarint32_eq e split: if_splits)
qed

lemma GetLengthPrefixedSlice_Put:
  assumes "length val < 2 ^ 32"
  shows "GetLengthPrefixedSlice (PutLengthPrefixedSlice [] val @ rest) = Some (val, rest)"
  using assms by (simp add: GetLengthPrefixedSlice_def PutLengthPrefixedSlice_def PutVarint32_def unat_of_nat)

end
