(* ===== verification/Ldb_Status.thy ===== *)
theory Ldb_Status
  imports Ldb_Coding
begin

section \<open>LevelDB: statuses and slices\<close>

text \<open>
  \<^verbatim>\<open>storage/leveldb/include/leveldb/status.h\<close>, \<^verbatim>\<open>util/status.cc\<close> and \<^verbatim>\<open>slice.h\<close>. A status is \<open>NULL\<close> or a block with the
  length of its message, its code and the message; a slice is the list of its bytes.
\<close>

subsection \<open>Statuses\<close>

datatype Code = kOk | kNotFound | kCorruption | kNotSupported | kInvalidArgument | kIOError

fun Code_byte :: "Code \<Rightarrow> byte" where
  "Code_byte kOk = 0" | "Code_byte kNotFound = 1" | "Code_byte kCorruption = 2"
| "Code_byte kNotSupported = 3" | "Code_byte kInvalidArgument = 4" | "Code_byte kIOError = 5"

type_synonym Status = "byte list option"

definition Status_OK :: Status where
  "Status_OK = None"

definition Status_make :: "Code \<Rightarrow> byte list \<Rightarrow> byte list \<Rightarrow> Status res" where
  "Status_make code msg msg2 =
     bind_res (assert_res (code \<noteq> kOk)) (\<lambda>_.
     let len1 = of_nat (length msg) :: u32; len2 = of_nat (length msg2) :: u32;
         size = len1 + (if len2 \<noteq> 0 then 2 + len2 else 0)
     in Inr (Some (le_bytes 4 size @ [Code_byte code] @ take (unat len1) msg @
          (if len2 \<noteq> 0 then [byte_of_char CHR '':'', byte_of_char CHR '' ''] @ take (unat len2) msg2 else []))))"

definition Status_ok :: "Status \<Rightarrow> bool" where
  "Status_ok s \<longleftrightarrow> s = None"

definition CopyState :: "byte list \<Rightarrow> byte list res" where
  "CopyState state = bind_res (DecodeFixed32 state) (\<lambda>size.
     if unat size + 5 \<le> length state then Inr (take (unat size + 5) state) else Inl Out_of_bounds)"

definition Status_assign :: "Status \<Rightarrow> Status \<Rightarrow> Status res" where
  "Status_assign this s = (if this \<noteq> s then (case s of None \<Rightarrow> Inr None
     | Some st \<Rightarrow> bind_res (CopyState st) (\<lambda>st. Inr (Some st))) else Inr this)"

definition Status_code :: "Status \<Rightarrow> byte res" where
  "Status_code s = (case s of None \<Rightarrow> Inr (Code_byte kOk) | Some st \<Rightarrow> nth_res st 4)"

definition Status_type_text :: "byte \<Rightarrow> string" where
  "Status_type_text c =
    (if c = Code_byte kOk then ''OK''
     else if c = Code_byte kNotFound then ''NotFound: ''
     else if c = Code_byte kCorruption then ''Corruption: ''
     else if c = Code_byte kNotSupported then ''Not implemented: ''
     else if c = Code_byte kInvalidArgument then ''Invalid argument: ''
     else if c = Code_byte kIOError then ''IO error: ''
     else ''Unknown code('' @ show_int (sint c) @ ''): '')"

definition Status_ToString :: "Status \<Rightarrow> string res" where
  "Status_ToString s = (case s of None \<Rightarrow> Inr ''OK''
     | Some st \<Rightarrow> bind_res (Status_code s) (\<lambda>c. bind_res (DecodeFixed32 st) (\<lambda>n.
         if unat n + 5 \<le> length st
         then Inr (Status_type_text c @ string_of (take (unat n) (drop 5 st))) else Inl Out_of_bounds)))"

text \<open>The statuses that the other components return.\<close>

definition Corruption :: "string \<Rightarrow> Status" where
  "Corruption msg = (case Status_make kCorruption (bytes_of msg) [] of Inr s \<Rightarrow> s | Inl _ \<Rightarrow> None)"

lemma Code_byte_inject: "Code_byte a = Code_byte b \<longleftrightarrow> a = b"
  by (cases a; cases b) simp_all

lemma Status_make_layout:
  assumes "code \<noteq> kOk" "length msg + length msg2 + 2 < 2 ^ 32"
  shows "Status_make code msg msg2 = Inr (Some (le_bytes 4 (of_nat (length msg + (if msg2 = [] then 0 else length msg2 + 2)) :: u32) @
    [Code_byte code] @ msg @ (if msg2 = [] then [] else bytes_of '': '' @ msg2)))"
proof -
  have "unat (of_nat (length msg) :: u32) = length msg" "unat (of_nat (length msg2) :: u32) = length msg2"
    using assms(2) by (simp_all add: unat_of_nat)
  moreover have "(of_nat (length msg2) :: u32) = 0 \<longleftrightarrow> msg2 = []"
    using calculation(2) by (metis length_0_conv of_nat_0 unat_eq_zero)
  ultimately show ?thesis using assms(1) by (auto simp: Status_make_def Let_def bytes_of_def algebra_simps)
qed

lemma Status_make_ToString:
  assumes "code \<noteq> kOk" "length msg + length msg2 + 2 < 2 ^ 32"
  obtains s where "Status_make code msg msg2 = Inr s" "\<not> Status_ok s" "Status_code s = Inr (Code_byte code)"
    "Status_ToString s = Inr (Status_type_text (Code_byte code) @ string_of msg @
       (if msg2 = [] then [] else '': '' @ string_of msg2))"
proof -
  let ?n = "length msg + (if msg2 = [] then 0 else length msg2 + 2)"
  let ?m = "msg @ (if msg2 = [] then [] else bytes_of '': '' @ msg2)"
  let ?s = "le_bytes 4 (of_nat ?n :: u32) @ [Code_byte code] @ ?m"
  have n: "unat (of_nat ?n :: u32) = ?n" "length ?m = ?n" using assms(2) by (auto simp: unat_of_nat bytes_of_def simp del: of_nat_add of_nat_Suc)
  have "DecodeFixed32 ?s = Inr (of_nat ?n)" by (simp add: DecodeFixed32_def kLittleEndian_def del: of_nat_add)
  moreover have "string_of ?m = string_of msg @ (if msg2 = [] then [] else '': '' @ string_of msg2)"
    by (simp add: string_of_def bytes_of_def)
  moreover have "nth_res ?s 4 = Inr (Code_byte code)" by (simp add: nth_res_def nth_append)
  ultimately show thesis
    using that [of "Some ?s"] Status_make_layout [OF assms] n
    by (simp add: Status_ok_def Status_code_def Status_ToString_def del: of_nat_add)
qed

lemma Status_assign_copy:
  assumes "length msg + length msg2 + 2 < 2 ^ 32" "code \<noteq> kOk" "Status_make code msg msg2 = Inr s"
  shows "Status_assign t s = Inr s"
proof -
  let ?n = "length msg + (if msg2 = [] then 0 else length msg2 + 2)"
  have n: "unat (of_nat ?n :: u32) = ?n" using assms(1) by (auto simp: unat_of_nat simp del: of_nat_add of_nat_Suc)
  from assms(3) Status_make_layout [OF assms(2,1)] show ?thesis
    using n by (auto simp: Status_assign_def CopyState_def DecodeFixed32_def kLittleEndian_def bytes_of_def
        simp del: of_nat_add)
qed

subsection \<open>Slices\<close>

text \<open>The sign of \<open>memcmp\<close> on two blocks of the same length.\<close>

fun memcmp :: "byte list \<Rightarrow> byte list \<Rightarrow> int" where
  "memcmp (a # as) (b # bs) = (if a < b then - 1 else if b < a then 1 else memcmp as bs)"
| "memcmp _ _ = 0"

definition Slice_compare :: "byte list \<Rightarrow> byte list \<Rightarrow> int" where
  "Slice_compare a b =
    (let min_len = (if length a < length b then length a else length b);
         r = memcmp (take min_len a) (take min_len b)
     in if r = 0 then (if length a < length b then - 1 else if length b < length a then 1 else r) else r)"

definition Slice_starts_with :: "byte list \<Rightarrow> byte list \<Rightarrow> bool" where
  "Slice_starts_with s x \<longleftrightarrow> length x \<le> length s \<and> memcmp (take (length x) s) x = 0"

definition Slice_equal :: "byte list \<Rightarrow> byte list \<Rightarrow> bool" where
  "Slice_equal x y \<longleftrightarrow> length x = length y \<and> memcmp x y = 0"

lemma memcmp_0: "length a = length b \<Longrightarrow> memcmp a b = 0 \<longleftrightarrow> a = b"
  by (induction a b rule: memcmp.induct) auto

lemma Slice_equal_iff: "Slice_equal x y \<longleftrightarrow> x = y"
  by (auto simp: Slice_equal_def memcmp_0)

lemma Slice_starts_with_iff: "Slice_starts_with s x \<longleftrightarrow> (\<exists>t. s = x @ t)"
proof
  assume "Slice_starts_with s x"
  then have "take (length x) s = x"
    using memcmp_0 [of "take (length x) s" x] by (simp add: Slice_starts_with_def)
  then show "\<exists>t. s = x @ t" by (metis append_take_drop_id)
qed (auto simp: Slice_starts_with_def memcmp_0)

end
