(* ===== verification/Ldb_Log.thy ===== *)
theory Ldb_Log
  imports Ldb_Crc Ldb_Status
begin

section \<open>LevelDB: the log\<close>

text \<open>
  \<^verbatim>\<open>storage/leveldb/db/log_format.h\<close>, \<^verbatim>\<open>log_writer.cc\<close> and \<^verbatim>\<open>log_reader.cc\<close>. The file that the writer appends to and
  the one that the reader reads from are parameters. Checksums do not depend on the address of
  the data (lemma \<open>Extend_serial\<close>), so address 0 stands for any.
\<close>

subsection \<open>The format\<close>

definition kZeroType :: u32 where "kZeroType = 0"
definition kFullType :: u32 where "kFullType = 1"
definition kFirstType :: u32 where "kFirstType = 2"
definition kMiddleType :: u32 where "kMiddleType = 3"
definition kLastType :: u32 where "kLastType = 4"
definition kMaxRecordType :: u32 where "kMaxRecordType = kLastType"
definition kBlockSize :: nat where "kBlockSize = 32768"
definition kHeaderSize :: nat where "kHeaderSize = 4 + 2 + 1"
definition kEof :: u32 where "kEof = kMaxRecordType + 1"
definition kBadRecord :: u32 where "kBadRecord = kMaxRecordType + 2"

lemmas log_consts = kZeroType_def kFullType_def kFirstType_def kMiddleType_def kLastType_def kMaxRecordType_def
  kEof_def kBadRecord_def

subsection \<open>The writer\<close>

record 'f WritableFile =
  wf_Append :: "'f \<Rightarrow> byte list \<Rightarrow> bool \<times> 'f"
  wf_Flush :: "'f \<Rightarrow> bool \<times> 'f"

record 'f Writer =
  lw_dest :: 'f
  lw_block_offset :: nat

definition Writer_new :: "'f \<Rightarrow> 'f Writer" where
  "Writer_new dest = \<lparr>lw_dest = dest, lw_block_offset = 0\<rparr>"

definition Writer_at :: "'f \<Rightarrow> nat \<Rightarrow> 'f Writer" where
  "Writer_at dest dest_length = \<lparr>lw_dest = dest, lw_block_offset = dest_length mod kBlockSize\<rparr>"

definition type_crc :: "u32 \<Rightarrow> u32" where
  "type_crc t = crc_value 0 [ucast t]"

definition EmitPhysicalRecord :: "'f WritableFile \<Rightarrow> 'f Writer \<Rightarrow> u32 \<Rightarrow> byte list \<Rightarrow> (bool \<times> 'f Writer) res" where
  "EmitPhysicalRecord fs w t p =
     bind_res (assert_res (length p \<le> 0xffff)) (\<lambda>_.
     bind_res (assert_res (lw_block_offset w + kHeaderSize + length p \<le> kBlockSize)) (\<lambda>_.
     let crc = Mask (Extend 0 (type_crc t) p);
         n = of_nat (length p) :: u32;
         buf = EncodeFixed32 crc @ [ucast (n AND 0xff), ucast (drop_bit 8 n), ucast t];
         (ok, f) = wf_Append fs (lw_dest w) buf;
         (ok, f) = (if ok then wf_Append fs f p else (ok, f));
         (ok, f) = (if ok then wf_Flush fs f else (ok, f))
     in Inr (ok, w\<lparr>lw_dest := f, lw_block_offset := lw_block_offset w + kHeaderSize + length p\<rparr>)))"

text \<open>The part of the loop before the fragment: a new block when no header fits.\<close>

definition switch_block :: "'f WritableFile \<Rightarrow> 'f Writer \<Rightarrow> 'f Writer" where
  "switch_block fs w = (let leftover = kBlockSize - lw_block_offset w in
     if leftover < kHeaderSize then
       let w = (if 0 < leftover then w\<lparr>lw_dest := snd (wf_Append fs (lw_dest w) (replicate leftover 0))\<rparr> else w)
       in w\<lparr>lw_block_offset := 0\<rparr>
     else w)"

definition fragment_type :: "bool \<Rightarrow> bool \<Rightarrow> u32" where
  "fragment_type begin fin = (if begin \<and> fin then kFullType else if begin then kFirstType
     else if fin then kLastType else kMiddleType)"

text \<open>
  One round per fragment. The size of the rest falls in every round but the one that finds room
  for a header only, and the next round starts a block.
\<close>

lemma switch_block_offset:
  "lw_block_offset (switch_block fs w) = (if kBlockSize - lw_block_offset w < kHeaderSize then 0 else lw_block_offset w)"
  by (simp add: switch_block_def Let_def)

function AddRecord_loop :: "'f WritableFile \<Rightarrow> 'f Writer \<Rightarrow> bool \<Rightarrow> byte list \<Rightarrow> (bool \<times> 'f Writer) res" where
  "AddRecord_loop fs w begin left =
     (if kBlockSize < lw_block_offset w then Inl Assert_failed
      else let w = switch_block fs w;
               avail = kBlockSize - lw_block_offset w - kHeaderSize;
               n = (if length left < avail then length left else avail);
               fin = (length left = n)
           in case EmitPhysicalRecord fs w (fragment_type begin fin) (take n left) of
                Inl e \<Rightarrow> Inl e
              | Inr (ok, w) \<Rightarrow> if ok \<and> n < length left then AddRecord_loop fs w False (drop n left) else Inr (ok, w))"
  by pat_completeness auto
termination
proof (relation "measure (\<lambda>(fs, w, b, left). 2 * length left + (if lw_block_offset w + kHeaderSize = kBlockSize then 1 else 0))",
    goal_cases)
  case (2 fs w bg left w1 avail n fin r ok w2)
  let ?off = "lw_block_offset (switch_block fs w)"
  from 2 have off: "lw_block_offset w2 = ?off + kHeaderSize + n" "n < length left" "n = kBlockSize - ?off - kHeaderSize"
    by (auto simp: EmitPhysicalRecord_def Let_def split: prod.splits if_splits)
  have o: "?off = (if kBlockSize - lw_block_offset w < kHeaderSize then 0 else lw_block_offset w)"
    by (simp add: switch_block_offset)
  show ?case
  proof (cases "n = 0")
    case True
    with off o have "lw_block_offset w + kHeaderSize = kBlockSize" "lw_block_offset w2 = kBlockSize"
      by (auto simp: kBlockSize_def kHeaderSize_def split: if_splits)
    then show ?thesis using True by (simp add: kBlockSize_def kHeaderSize_def)
  qed (use off(2) in auto)
qed simp

declare AddRecord_loop.simps [simp del]

definition AddRecord :: "'f WritableFile \<Rightarrow> 'f Writer \<Rightarrow> byte list \<Rightarrow> (bool \<times> 'f Writer) res" where
  "AddRecord fs w rec = AddRecord_loop fs w True rec"


subsection \<open>The reader\<close>

record 'g SequentialFile =
  sf_Read :: "'g \<Rightarrow> nat \<Rightarrow> Status \<times> byte list \<times> 'g"
  sf_Skip :: "'g \<Rightarrow> u64 \<Rightarrow> Status \<times> 'g"

record 'g Reader =
  rd_file :: 'g
  rd_reporter :: bool
  rd_checksum :: bool
  rd_buffer :: "byte list"
  rd_eof :: bool
  rd_last_record_offset :: u64
  rd_end_of_buffer_offset :: u64
  rd_initial_offset :: u64
  rd_resyncing :: bool
  rd_reports :: "(u64 \<times> Status) list"

definition Reader_new :: "'g \<Rightarrow> bool \<Rightarrow> bool \<Rightarrow> u64 \<Rightarrow> 'g Reader" where
  "Reader_new fil reporter checksum initial_offset =
     \<lparr>rd_file = fil, rd_reporter = reporter, rd_checksum = checksum, rd_buffer = [], rd_eof = False,
      rd_last_record_offset = 0, rd_end_of_buffer_offset = 0, rd_initial_offset = initial_offset,
      rd_resyncing = (0 < initial_offset), rd_reports = []\<rparr>"

definition ReportDrop :: "'g Reader \<Rightarrow> u64 \<Rightarrow> Status \<Rightarrow> 'g Reader" where
  "ReportDrop r bytes reason =
     (if rd_reporter r \<and> rd_initial_offset r \<le> rd_end_of_buffer_offset r - of_nat (length (rd_buffer r)) - bytes
      then r\<lparr>rd_reports := rd_reports r @ [(bytes, reason)]\<rparr> else r)"

definition ReportCorruption :: "'g Reader \<Rightarrow> u64 \<Rightarrow> string \<Rightarrow> 'g Reader" where
  "ReportCorruption r bytes reason = ReportDrop r bytes (Corruption reason)"

definition SkipToInitialBlock :: "'g SequentialFile \<Rightarrow> 'g Reader \<Rightarrow> bool \<times> 'g Reader" where
  "SkipToInitialBlock fs r =
    (let offset_in_block = rd_initial_offset r mod of_nat kBlockSize;
         start = rd_initial_offset r - offset_in_block;
         start = (if of_nat kBlockSize - 6 < offset_in_block then start + of_nat kBlockSize else start);
         r = r\<lparr>rd_end_of_buffer_offset := start\<rparr>
     in if 0 < start then
          let (s, f) = sf_Skip fs (rd_file r) start; r = r\<lparr>rd_file := f\<rparr> in
          if \<not> Status_ok s then (False, ReportDrop r start s) else (True, r)
        else (True, r))"

text \<open>The header is there when this part of the loop is reached.\<close>

definition parse_record :: "'g Reader \<Rightarrow> byte list \<Rightarrow> (u32 \<times> byte list \<times> 'g Reader) res" where
  "parse_record r result =
    (let header = rd_buffer r;
         a = ucast (header ! 4) AND 0xff :: u32; b = ucast (header ! 5) AND 0xff :: u32;
         type = scast (header ! 6) :: u32;
         n = unat (a OR push_bit 8 b)
     in if length (rd_buffer r) < kHeaderSize + n then
          let drop_size = length (rd_buffer r); r = r\<lparr>rd_buffer := []\<rparr> in
          if \<not> rd_eof r then Inr (kBadRecord, result, ReportCorruption r (of_nat drop_size) ''bad record length'')
          else Inr (kEof, result, r)
        else if type = kZeroType \<and> n = 0 then Inr (kBadRecord, result, r\<lparr>rd_buffer := []\<rparr>)
        else bind_res (if rd_checksum r
            then bind_res (DecodeFixed32 header) (\<lambda>m. Inr (crc_value 0 (take (1 + n) (drop 6 header)) = Unmask m))
            else Inr True) (\<lambda>good.
          if \<not> good then
            let drop_size = length (rd_buffer r); r = r\<lparr>rd_buffer := []\<rparr> in
            Inr (kBadRecord, result, ReportCorruption r (of_nat drop_size) ''checksum mismatch'')
          else
            let r = r\<lparr>rd_buffer := drop (kHeaderSize + n) (rd_buffer r)\<rparr> in
            if rd_end_of_buffer_offset r - of_nat (length (rd_buffer r)) - of_nat kHeaderSize - of_nat n < rd_initial_offset r
            then Inr (kBadRecord, [], r)
            else Inr (type, take n (drop kHeaderSize header), r)))"

fun ReadPhysicalRecord :: "'g SequentialFile \<Rightarrow> nat \<Rightarrow> 'g Reader \<Rightarrow> byte list \<Rightarrow> (u32 \<times> byte list \<times> 'g Reader) res" where
  "ReadPhysicalRecord fs 0 r result = Inl Out_of_fuel"
| "ReadPhysicalRecord fs (Suc k) r result =
    (if length (rd_buffer r) < kHeaderSize then
       if \<not> rd_eof r then
         let (s, buf, f) = sf_Read fs (rd_file r) kBlockSize;
             r = r\<lparr>rd_buffer := buf, rd_file := f,
                    rd_end_of_buffer_offset := rd_end_of_buffer_offset r + of_nat (length buf)\<rparr>
         in if \<not> Status_ok s then
              Inr (kEof, result, (ReportDrop (r\<lparr>rd_buffer := []\<rparr>) (of_nat kBlockSize) s)\<lparr>rd_eof := True\<rparr>)
            else ReadPhysicalRecord fs k (if length buf < kBlockSize then r\<lparr>rd_eof := True\<rparr> else r) result
       else Inr (kEof, result, r\<lparr>rd_buffer := []\<rparr>)
     else parse_record r result)"

text \<open>
  The loop of \<open>ReadRecord\<close>: \<open>frg\<close> is \<open>in_fragmented_record\<close>, \<open>pro\<close> the prospective offset. The result is
  the record, or \<open>None\<close> at the end of the input.
\<close>

fun ReadRecord_loop :: "'g SequentialFile \<Rightarrow> nat \<Rightarrow> 'g Reader \<Rightarrow> byte list \<Rightarrow> bool \<Rightarrow> byte list \<Rightarrow> u64 \<Rightarrow>
    (byte list option \<times> 'g Reader) res" where
  "ReadRecord_loop fs 0 r fragment frg scratch pro = Inl Out_of_fuel"
| "ReadRecord_loop fs (Suc k) r fragment frg scratch pro =
     bind_res (ReadPhysicalRecord fs (Suc k) r fragment) (\<lambda>(type, fragment, r).
     let off = rd_end_of_buffer_offset r - of_nat (length (rd_buffer r)) - of_nat kHeaderSize - of_nat (length fragment)
     in if rd_resyncing r \<and> type = kMiddleType then ReadRecord_loop fs k r fragment frg scratch pro
        else if rd_resyncing r \<and> type = kLastType
        then ReadRecord_loop fs k (r\<lparr>rd_resyncing := False\<rparr>) fragment frg scratch pro
        else let r = r\<lparr>rd_resyncing := False\<rparr> in
        if type = kFullType then
          let r = (if frg \<and> scratch \<noteq> [] then ReportCorruption r (of_nat (length scratch)) ''partial record without end(1)'' else r)
          in Inr (Some fragment, r\<lparr>rd_last_record_offset := off\<rparr>)
        else if type = kFirstType then
          let r = (if frg \<and> scratch \<noteq> [] then ReportCorruption r (of_nat (length scratch)) ''partial record without end(2)'' else r)
          in ReadRecord_loop fs k r fragment True fragment off
        else if type = kMiddleType then
          (if \<not> frg then ReadRecord_loop fs k
             (ReportCorruption r (of_nat (length fragment)) ''missing start of fragmented record(1)'') fragment frg scratch pro
           else ReadRecord_loop fs k r fragment frg (scratch @ fragment) pro)
        else if type = kLastType then
          (if \<not> frg then ReadRecord_loop fs k
             (ReportCorruption r (of_nat (length fragment)) ''missing start of fragmented record(2)'') fragment frg scratch pro
           else Inr (Some (scratch @ fragment), r\<lparr>rd_last_record_offset := pro\<rparr>))
        else if type = kEof then Inr (None, r)
        else if type = kBadRecord then
          (if frg then ReadRecord_loop fs k
             (ReportCorruption r (of_nat (length scratch)) ''error in middle of record'') fragment False [] pro
           else ReadRecord_loop fs k r fragment frg scratch pro)
        else ReadRecord_loop fs k
          (ReportCorruption r (of_nat (length fragment + (if frg then length scratch else 0)))
             (''unknown record type '' @ show_nat (unat type))) fragment False [] pro)"

definition ReadRecord :: "'g SequentialFile \<Rightarrow> nat \<Rightarrow> 'g Reader \<Rightarrow> (byte list option \<times> 'g Reader) res" where
  "ReadRecord fs k r =
    (let (ok, r) = (if rd_last_record_offset r < rd_initial_offset r then SkipToInitialBlock fs r else (True, r))
     in if \<not> ok then Inr (None, r) else ReadRecord_loop fs k r [] False [] 0)"

end
