(* ===== verification/Ldb_Log_Roundtrip.thy ===== *)
theory Ldb_Log_Roundtrip
  imports Ldb_Log
begin

section \<open>LevelDB: what is logged is read back\<close>

text \<open>
  A log that the writer has filled is read record by record: the fragments of a record are put
  together across blocks, checksums agree, nothing is reported, and the end of the file is
  found behind the last record.
\<close>

subsection \<open>Files\<close>

definition appends_to :: "'f WritableFile \<Rightarrow> ('f \<Rightarrow> byte list) \<Rightarrow> bool" where
  "appends_to fs c \<longleftrightarrow> (\<forall>f bs. \<exists>f'. wf_Append fs f bs = (True, f') \<and> c f' = c f @ bs) \<and>
     (\<forall>f. \<exists>f'. wf_Flush fs f = (True, f') \<and> c f' = c f)"

definition reads_from :: "'g SequentialFile \<Rightarrow> ('g \<Rightarrow> byte list) \<Rightarrow> bool" where
  "reads_from fs c \<longleftrightarrow> (\<forall>g n. \<exists>g'. sf_Read fs g n = (Status_OK, take n (c g), g') \<and> c g' = drop n (c g))"

subsection \<open>Physical records\<close>

definition phys_record :: "u32 \<Rightarrow> byte list \<Rightarrow> byte list" where
  "phys_record t p = EncodeFixed32 (Mask (crc_value 0 (ucast t # p))) @
     [ucast ((of_nat (length p) :: u32) AND 0xff), ucast (drop_bit 8 (of_nat (length p) :: u32)), ucast t] @ p"

lemma length_phys_record [simp]: "length (phys_record t p) = kHeaderSize + length p"
  by (simp add: phys_record_def kHeaderSize_def)

lemma Emit_phys_record:
  assumes "appends_to fs c" "lw_block_offset w + kHeaderSize + length p \<le> kBlockSize"
  shows "\<exists>w'. EmitPhysicalRecord fs w t p = Inr (True, w') \<and> c (lw_dest w') = c (lw_dest w) @ phys_record t p \<and>
    lw_block_offset w' = lw_block_offset w + kHeaderSize + length p"
proof -
  let ?h = "EncodeFixed32 (Mask (Extend 0 (type_crc t) p)) @
     [ucast ((of_nat (length p) :: u32) AND 0xff), ucast (drop_bit 8 (of_nat (length p) :: u32)), ucast t]"
  obtain f1 where f1: "wf_Append fs (lw_dest w) ?h = (True, f1)" "c f1 = c (lw_dest w) @ ?h"
    using assms(1) unfolding appends_to_def by blast
  obtain f2 where f2: "wf_Append fs f1 p = (True, f2)" "c f2 = c f1 @ p" using assms(1) unfolding appends_to_def by blast
  obtain f3 where f3: "wf_Flush fs f2 = (True, f3)" "c f3 = c f2" using assms(1) unfolding appends_to_def by blast
  have "Extend 0 (type_crc t) p = crc_value 0 (ucast t # p)"
    using Extend_append [of 0 0 0 "[ucast t]" p 0] by (simp add: type_crc_def crc_value_def)
  then show ?thesis
    using f1 f2 f3 assms(2) by (simp add: EmitPhysicalRecord_def Let_def phys_record_def kBlockSize_def)
qed

lemma length_bytes:
  assumes "n \<le> 0xffff"
  shows "unat ((ucast (ucast ((of_nat n :: u32) AND 0xff) :: byte) AND 0xff) OR
    push_bit 8 (ucast (ucast (drop_bit 8 (of_nat n :: u32)) :: byte) AND 0xff) :: u32) = n"
proof -
  let ?w = "of_nat n :: u32"
  have u: "unat ?w = n" using assms by (simp add: unat_of_nat)
  have "bit ?w k \<Longrightarrow> k < 16" for k
  proof -
    have "take_bit 16 ?w = ?w" using u assms by (simp add: word_unat_eq_iff unsigned_take_bit_eq take_bit_nat_eq_self)
    then show "bit ?w k \<Longrightarrow> k < 16" by (metis bit_take_bit_iff)
  qed
  then have "(ucast (ucast (?w AND 0xff) :: byte) AND 0xff) OR
      push_bit 8 (ucast (ucast (drop_bit 8 ?w) :: byte) AND 0xff) = ?w"
    unfolding and_255 by (intro bit_word_eqI) (fastforce simp: bit_simps less_diff_conv2)
  then show ?thesis using u by simp
qed

definition record_types :: "u32 set" where
  "record_types = {kFullType, kFirstType, kMiddleType, kLastType}"

lemma record_type_byte: "t \<in> record_types \<Longrightarrow> (scast (ucast t :: byte) :: u32) = t \<and> t \<noteq> 0"
  by (auto simp: record_types_def log_consts)

lemma parse_phys_record:
  assumes "rd_buffer r = phys_record t p @ later" "t \<in> record_types" "length p \<le> 0xffff" "rd_initial_offset r = 0"
  shows "parse_record r res = Inr (t, p, r\<lparr>rd_buffer := later\<rparr>)"
proof -
  let ?c = "Mask (crc_value 0 (ucast t # p))"
  have b: "rd_buffer r ! 4 = ucast ((of_nat (length p) :: u32) AND 0xff)"
    "rd_buffer r ! 5 = ucast (drop_bit 8 (of_nat (length p) :: u32))" "rd_buffer r ! 6 = ucast t"
    "drop 6 (rd_buffer r) = ucast t # p @ later" "DecodeFixed32 (rd_buffer r) = Inr ?c"
    by (simp_all add: assms(1) phys_record_def nth_append)
  have n: "unat ((ucast (rd_buffer r ! 4) AND 0xff) OR push_bit 8 (ucast (rd_buffer r ! 5) AND 0xff) :: u32) = length p"
    unfolding b by (rule length_bytes [OF assms(3)])
  have "length (rd_buffer r) = kHeaderSize + length p + length later" "drop kHeaderSize (rd_buffer r) = p @ later"
    "drop (kHeaderSize + length p) (rd_buffer r) = later"
    by (simp_all add: assms(1)) (simp_all add: phys_record_def kHeaderSize_def)
  then show ?thesis
    unfolding parse_record_def Let_def n using b(3-5) record_type_byte [OF assms(2)] assms(4)
    by (auto simp: kZeroType_def)
qed


subsection \<open>The reader at a position\<close>

text \<open>
  The reader stands at offset \<open>bo\<close> of a block with the bytes \<open>rest\<close> still to come: those of the block are
  in its buffer, those of later blocks in the file.
\<close>

definition rd_at :: "('g \<Rightarrow> byte list) \<Rightarrow> nat \<Rightarrow> byte list \<Rightarrow> 'g Reader \<Rightarrow> bool" where
  "rd_at c bo rest r \<longleftrightarrow> bo \<le> kBlockSize \<and> rd_buffer r = take (kBlockSize - bo) rest \<and>
     c (rd_file r) = drop (kBlockSize - bo) rest \<and> (rd_eof r \<longleftrightarrow> length rest < kBlockSize - bo) \<and>
     rd_initial_offset r = 0 \<and> \<not> rd_resyncing r"

definition next_offset :: "nat \<Rightarrow> nat" where
  "next_offset bo = (if kBlockSize - bo < kHeaderSize then 0 else bo)"

definition padding :: "nat \<Rightarrow> byte list" where
  "padding bo = (if kBlockSize - bo < kHeaderSize then replicate (kBlockSize - bo) 0 else [])"

lemma read_from_block:
  assumes "rd_at c bo (phys_record t p @ later) r" "bo + kHeaderSize + length p \<le> kBlockSize" "t \<in> record_types"
  shows "\<exists>r'. ReadPhysicalRecord fs (Suc k) r res = Inr (t, p, r') \<and> rd_at c (bo + kHeaderSize + length p) later r' \<and>
    rd_reports r' = rd_reports r"
proof -
  let ?n = "kHeaderSize + length p"
  have n: "kBlockSize - bo = ?n + (kBlockSize - (bo + ?n))" using assms(2) by simp
  have "rd_buffer r = phys_record t p @ take (kBlockSize - (bo + ?n)) later"
    using assms(1) unfolding rd_at_def n by simp
  moreover have "length p \<le> 0xffff" using assms(2) by (simp add: kBlockSize_def)
  moreover have "rd_initial_offset r = 0" using assms(1) by (simp add: rd_at_def)
  ultimately have "parse_record r res = Inr (t, p, r\<lparr>rd_buffer := take (kBlockSize - (bo + ?n)) later\<rparr>)"
    "kHeaderSize \<le> length (rd_buffer r)"
    using parse_phys_record [of r t p "take (kBlockSize - (bo + ?n)) later"] assms(3) by simp_all
  moreover have "rd_at c (bo + ?n) later (r\<lparr>rd_buffer := take (kBlockSize - (bo + ?n)) later\<rparr>)"
    using assms(1,2) by (auto simp: rd_at_def)
  ultimately show ?thesis by (simp add: add.assoc)
qed

lemma load_block:
  assumes "reads_from fs c" "rd_at c bo (replicate (kBlockSize - bo) 0 @ rest) r" "kBlockSize - bo < kHeaderSize"
  shows "\<exists>r'. ReadPhysicalRecord fs (Suc k) r res = ReadPhysicalRecord fs k r' res \<and> rd_at c 0 rest r' \<and> rd_reports r' = rd_reports r"
proof -
  from assms(2) have r: "length (rd_buffer r) < kHeaderSize" "\<not> rd_eof r" "c (rd_file r) = rest"
    "rd_initial_offset r = 0" "\<not> rd_resyncing r"
    using assms(3) by (auto simp: rd_at_def)
  obtain g where g: "sf_Read fs (rd_file r) kBlockSize = (Status_OK, take kBlockSize rest, g)" "c g = drop kBlockSize rest"
    using assms(1) r(3) unfolding reads_from_def by blast
  let ?r = "r\<lparr>rd_buffer := take kBlockSize rest, rd_file := g,
    rd_end_of_buffer_offset := rd_end_of_buffer_offset r + of_nat (length (take kBlockSize rest))\<rparr>"
  let ?r' = "if length (take kBlockSize rest) < kBlockSize then ?r\<lparr>rd_eof := True\<rparr> else ?r"
  have "ReadPhysicalRecord fs (Suc k) r res = ReadPhysicalRecord fs k ?r' res"
    using r(1,2) g(1) by (simp add: Let_def Status_ok_def Status_OK_def)
  moreover have "rd_at c 0 rest ?r'" "rd_reports ?r' = rd_reports r"
    using r g(2) by (auto simp: rd_at_def)
  ultimately show ?thesis by blast
qed

lemma read_physical:
  assumes "reads_from fs c" "rd_at c bo (padding bo @ phys_record t p @ later) r"
    and "next_offset bo + kHeaderSize + length p \<le> kBlockSize" "t \<in> record_types"
  shows "\<exists>r'. ReadPhysicalRecord fs (Suc (Suc k)) r res = Inr (t, p, r') \<and>
    rd_at c (next_offset bo + kHeaderSize + length p) later r' \<and> rd_reports r' = rd_reports r"
proof (cases "kBlockSize - bo < kHeaderSize")
  case True
  then obtain r1 where r1: "ReadPhysicalRecord fs (Suc (Suc k)) r res = ReadPhysicalRecord fs (Suc k) r1 res"
    "rd_at c 0 (phys_record t p @ later) r1" "rd_reports r1 = rd_reports r"
    using load_block [OF assms(1), of bo "phys_record t p @ later" r "Suc k" res] assms(2) by (auto simp: padding_def)
  then show ?thesis using read_from_block [OF r1(2) _ assms(4), of fs k res] assms(3) True
    by (auto simp: next_offset_def)
next
  case False
  then show ?thesis using read_from_block [of c bo t p later r fs "Suc k" res] assms by (simp add: padding_def next_offset_def)
qed

lemma read_physical_end:
  assumes "reads_from fs c" "rd_at c bo [] r"
  shows "\<exists>r'. ReadPhysicalRecord fs (Suc (Suc k)) r res = Inr (kEof, res, r') \<and> rd_reports r' = rd_reports r \<and> \<not> rd_resyncing r'"
proof -
  obtain g where g: "sf_Read fs (rd_file r) kBlockSize = (Status_OK, [], g)"
    using assms unfolding reads_from_def rd_at_def by (metis take_Nil drop_Nil)
  have "rd_buffer r = []" "\<not> rd_resyncing r" using assms(2) by (simp_all add: rd_at_def)
  then show ?thesis using g
    by (auto simp: Let_def Status_ok_def Status_OK_def kHeaderSize_def kBlockSize_def)
qed


subsection \<open>One record\<close>

definition reads_back :: "'g SequentialFile \<Rightarrow> ('g \<Rightarrow> byte list) \<Rightarrow> nat \<Rightarrow> byte list \<Rightarrow> nat \<Rightarrow> bool \<Rightarrow> byte list \<Rightarrow> bool" where
  "reads_back fs c off out off' bg left \<longleftrightarrow>
     (\<forall>r acc later k fragment pro. rd_at c off (out @ later) r \<longrightarrow> (bg \<longrightarrow> acc = []) \<longrightarrow> length out < k \<longrightarrow>
        (\<exists>r'. ReadRecord_loop fs k r fragment (\<not> bg) acc pro = Inr (Some (acc @ left), r') \<and>
           rd_at c off' later r' \<and> rd_reports r' = rd_reports r))"

lemma fragment_type_types: "fragment_type bg fin \<in> record_types"
  by (simp add: fragment_type_def record_types_def)

lemma rd_at_offset:
  "rd_at c off rest r \<Longrightarrow> rd_at c off rest (r\<lparr>rd_resyncing := False, rd_last_record_offset := x\<rparr>)"
  by (auto simp: rd_at_def)

lemma reads_back_last:
  assumes "reads_from fs c" "next_offset off + kHeaderSize + length left \<le> kBlockSize"
  shows "reads_back fs c off (padding off @ phys_record (fragment_type bg True) left)
    (next_offset off + kHeaderSize + length left) bg left"
  unfolding reads_back_def
proof (intro allI impI)
  fix r and acc later fragment :: "byte list" and k and pro :: u64
  assume r: "rd_at c off ((padding off @ phys_record (fragment_type bg True) left) @ later) r" and acc: "bg \<longrightarrow> acc = []"
    and k: "length (padding off @ phys_record (fragment_type bg True) left) < k"
  then obtain j where j: "k = Suc (Suc j)" by (cases k; cases "k - 1") (auto simp: kHeaderSize_def)
  obtain r1 where r1: "ReadPhysicalRecord fs (Suc (Suc j)) r fragment = Inr (fragment_type bg True, left, r1)"
    "rd_at c (next_offset off + kHeaderSize + length left) later r1" "rd_reports r1 = rd_reports r"
    using read_physical [OF assms(1), of off "fragment_type bg True" left later r j fragment] r assms(2) fragment_type_types
    by auto
  have nr: "\<not> rd_resyncing r1" using r1(2) by (simp add: rd_at_def)
  show "\<exists>r'. ReadRecord_loop fs k r fragment (\<not> bg) acc pro = Inr (Some (acc @ left), r') \<and>
      rd_at c (next_offset off + kHeaderSize + length left) later r' \<and> rd_reports r' = rd_reports r"
    using r1 rd_at_offset [OF r1(2)] acc nr
    by (cases bg) (auto simp: j Let_def fragment_type_def log_consts simp del: ReadPhysicalRecord.simps)
qed

lemma reads_back_more:
  assumes "reads_from fs c" "n \<le> length left" "next_offset off + kHeaderSize + n \<le> kBlockSize"
    and "reads_back fs c (next_offset off + kHeaderSize + n) out off' False (drop n left)"
  shows "reads_back fs c off (padding off @ phys_record (fragment_type bg False) (take n left) @ out) off' bg left"
  unfolding reads_back_def
proof (intro allI impI)
  let ?p = "take n left"
  fix r and acc later fragment :: "byte list" and k and pro :: u64
  assume r: "rd_at c off ((padding off @ phys_record (fragment_type bg False) ?p @ out) @ later) r" and acc: "bg \<longrightarrow> acc = []"
    and k: "length (padding off @ phys_record (fragment_type bg False) ?p @ out) < k"
  then obtain j where j: "k = Suc (Suc j)" by (cases k; cases "k - 1") (auto simp: kHeaderSize_def)
  have "length out < Suc j" using k j by (simp add: kHeaderSize_def)
  obtain r1 where r1: "ReadPhysicalRecord fs (Suc (Suc j)) r fragment = Inr (fragment_type bg False, ?p, r1)"
    "rd_at c (next_offset off + kHeaderSize + n) (out @ later) r1" "rd_reports r1 = rd_reports r"
    using read_physical [OF assms(1), of off "fragment_type bg False" ?p "out @ later" r j fragment] r assms(2,3) fragment_type_types
    by (auto simp: min_absorb2)
  have ih: "\<exists>r'. ReadRecord_loop fs (Suc j) r1 f True a pro' = Inr (Some (a @ drop n left), r') \<and>
      rd_at c off' later r' \<and> rd_reports r' = rd_reports r1" for f a pro'
    using assms(4) [unfolded reads_back_def, THEN spec, of r1, THEN spec, of a, THEN spec, of later, THEN spec, of "Suc j",
        THEN spec, of f, THEN spec, of pro'] r1(2) \<open>length out < Suc j\<close> by (simp del: ReadRecord_loop.simps)
  have nr: "\<not> rd_resyncing r1" "r1\<lparr>rd_resyncing := False\<rparr> = r1" using r1(2) by (auto simp: rd_at_def)
  have p: "?p @ drop n left = left" by simp
  show "\<exists>r'. ReadRecord_loop fs k r fragment (\<not> bg) acc pro = Inr (Some (acc @ left), r') \<and>
      rd_at c off' later r' \<and> rd_reports r' = rd_reports r"
  proof (cases bg)
    case True
    let ?off = "rd_end_of_buffer_offset r1 - of_nat (length (rd_buffer r1)) - of_nat kHeaderSize - of_nat (length ?p)"
    have "ReadRecord_loop fs k r fragment (\<not> bg) acc pro = ReadRecord_loop fs (Suc j) r1 ?p True ?p ?off"
      using r1(1) True
      by (subst j, subst ReadRecord_loop.simps)
         (simp add: Let_def nr fragment_type_def log_consts del: ReadPhysicalRecord.simps ReadRecord_loop.simps)
    with ih [of ?p ?p ?off] p r1(3) True acc show ?thesis by simp
  next
    case False
    have "ReadRecord_loop fs k r fragment (\<not> bg) acc pro = ReadRecord_loop fs (Suc j) r1 ?p True (acc @ ?p) pro"
      using r1(1) False
      by (subst j, subst ReadRecord_loop.simps)
         (simp add: Let_def nr fragment_type_def log_consts del: ReadPhysicalRecord.simps ReadRecord_loop.simps)
    with ih [of ?p "acc @ ?p" pro] p r1(3) show ?thesis by simp
  qed
qed


text \<open>The writer, fragment by fragment, against the reader.\<close>

lemma switch_block_bytes:
  assumes "appends_to fs c" "lw_block_offset w \<le> kBlockSize"
  shows "c (lw_dest (switch_block fs w)) = c (lw_dest w) @ padding (lw_block_offset w)"
    and "lw_block_offset (switch_block fs w) = next_offset (lw_block_offset w)"
proof -
  obtain f where "wf_Append fs (lw_dest w) (replicate (kBlockSize - lw_block_offset w) 0) = (True, f)"
    "c f = c (lw_dest w) @ replicate (kBlockSize - lw_block_offset w) 0"
    using assms(1) unfolding appends_to_def by blast
  then show "c (lw_dest (switch_block fs w)) = c (lw_dest w) @ padding (lw_block_offset w)"
    by (auto simp: switch_block_def Let_def padding_def)
qed (simp add: switch_block_offset next_offset_def)

lemma next_offset_room: "off \<le> kBlockSize \<Longrightarrow> next_offset off + kHeaderSize \<le> kBlockSize"
  by (auto simp: next_offset_def kBlockSize_def kHeaderSize_def)

lemma AddRecord_loop_step:
  fixes w :: "'f Writer" and left :: "byte list"
  assumes "appends_to fs c" "lw_block_offset w \<le> kBlockSize"
  defines "off \<equiv> next_offset (lw_block_offset w)"
  defines "n \<equiv> min (length left) (kBlockSize - off - kHeaderSize)"
  shows "\<exists>w1. c (lw_dest w1) = c (lw_dest w) @ padding (lw_block_offset w) @
      phys_record (fragment_type bg (length left = n)) (take n left) \<and> lw_block_offset w1 = off + kHeaderSize + n \<and>
    AddRecord_loop fs w bg left = (if n < length left then AddRecord_loop fs w1 False (drop n left) else Inr (True, w1))"
proof -
  let ?w = "switch_block fs w"
  have o: "lw_block_offset ?w = off" "c (lw_dest ?w) = c (lw_dest w) @ padding (lw_block_offset w)"
    using switch_block_bytes [OF assms(1,2)] by (simp_all add: off_def)
  have room: "off + kHeaderSize + n \<le> kBlockSize"
    using next_offset_room [OF assms(2)] by (simp add: n_def off_def)
  have "lw_block_offset ?w + kHeaderSize + length (take n left) \<le> kBlockSize" using room o by (simp add: n_def)
  from Emit_phys_record [OF assms(1) this, of "fragment_type bg (length left = n)"] obtain w1 where
    w1: "EmitPhysicalRecord fs ?w (fragment_type bg (length left = n)) (take n left) = Inr (True, w1)"
      "c (lw_dest w1) = c (lw_dest ?w) @ phys_record (fragment_type bg (length left = n)) (take n left)"
      "lw_block_offset w1 = off + kHeaderSize + n" using o by (auto simp: n_def)
  have neq: "(if length left < kBlockSize - off - kHeaderSize then length left else kBlockSize - off - kHeaderSize) = n"
    by (simp add: n_def)
  have "AddRecord_loop fs w bg left = (if n < length left then AddRecord_loop fs w1 False (drop n left) else Inr (True, w1))"
    by (subst AddRecord_loop.simps, unfold Let_def o(1) neq) (use w1(1) assms(2) in simp)
  with w1 o show ?thesis by auto
qed

lemma AddRecord_loop_reads_back:
  assumes "appends_to fw cw" "reads_from fr cr"
  shows "lw_block_offset w \<le> kBlockSize \<Longrightarrow>
    \<exists>w' out. AddRecord_loop fw w bg left = Inr (True, w') \<and> cw (lw_dest w') = cw (lw_dest w) @ out \<and>
      lw_block_offset w' \<le> kBlockSize \<and> reads_back fr cr (lw_block_offset w) out (lw_block_offset w') bg left"
proof (induction "2 * length left + (if lw_block_offset w + kHeaderSize = kBlockSize then 1 else 0)"
    arbitrary: w bg left rule: less_induct)
  case less
  let ?o = "lw_block_offset w"
  define off where "off = next_offset ?o"
  define n where "n = min (length left) (kBlockSize - off - kHeaderSize)"
  have room: "off + kHeaderSize + n \<le> kBlockSize"
    using next_offset_room [OF less.prems] by (simp add: n_def off_def)
  from AddRecord_loop_step [OF assms(1) less.prems, of bg left] obtain w1 where
    w1: "cw (lw_dest w1) = cw (lw_dest w) @ padding ?o @ phys_record (fragment_type bg (length left = n)) (take n left)"
      "lw_block_offset w1 = off + kHeaderSize + n"
      "AddRecord_loop fw w bg left = (if n < length left then AddRecord_loop fw w1 False (drop n left) else Inr (True, w1))"
    unfolding off_def n_def by blast
  show ?case
  proof (cases "n < length left")
    case True
    then have n: "n = kBlockSize - off - kHeaderSize" by (simp add: n_def split: if_splits)
    have "lw_block_offset w1 = kBlockSize" using w1(2) n room by simp
    moreover have "0 < n \<or> ?o + kHeaderSize = kBlockSize"
      using n room by (auto simp: off_def next_offset_def kBlockSize_def kHeaderSize_def split: if_splits)
    ultimately have "2 * length (drop n left) + (if lw_block_offset w1 + kHeaderSize = kBlockSize then 1 else 0)
        < 2 * length left + (if ?o + kHeaderSize = kBlockSize then 1 else 0)" "lw_block_offset w1 \<le> kBlockSize"
      using True by (auto simp: kHeaderSize_def)
    from less.hyps [OF this] obtain w' out where w': "AddRecord_loop fw w1 False (drop n left) = Inr (True, w')"
      "cw (lw_dest w') = cw (lw_dest w1) @ out" "lw_block_offset w' \<le> kBlockSize"
      "reads_back fr cr (lw_block_offset w1) out (lw_block_offset w') False (drop n left)" by blast
    have "reads_back fr cr ?o (padding ?o @ phys_record (fragment_type bg False) (take n left) @ out) (lw_block_offset w') bg left"
      by (rule reads_back_more [OF assms(2)]) (use True room w' w1(2) in \<open>simp_all add: off_def\<close>)
    then show ?thesis using w1 w' True by auto
  next
    case False
    then have n: "n = length left" by (simp add: n_def)
    have "reads_back fr cr ?o (padding ?o @ phys_record (fragment_type bg True) left) (lw_block_offset w1) bg left"
      using reads_back_last [OF assms(2), of ?o left bg] room w1(2) n by (simp add: off_def)
    then show ?thesis using w1 n room by auto
  qed
qed


subsection \<open>A whole log\<close>

text \<open>Records written one after the other, and the loop of recovery that reads them all.\<close>

fun AddRecords :: "'f WritableFile \<Rightarrow> 'f Writer \<Rightarrow> byte list list \<Rightarrow> (bool \<times> 'f Writer) res" where
  "AddRecords fs w [] = Inr (True, w)"
| "AddRecords fs w (x # xs) = bind_res (AddRecord fs w x) (\<lambda>(ok, w). if ok then AddRecords fs w xs else Inr (ok, w))"

fun ReadRecords :: "'g SequentialFile \<Rightarrow> nat \<Rightarrow> nat \<Rightarrow> 'g Reader \<Rightarrow> (byte list list \<times> 'g Reader) res" where
  "ReadRecords fs m 0 r = Inl Out_of_fuel"
| "ReadRecords fs m (Suc k) r = bind_res (ReadRecord fs m r) (\<lambda>(x, r). case x of
     None \<Rightarrow> Inr ([], r)
   | Some x \<Rightarrow> bind_res (ReadRecords fs m k r) (\<lambda>(xs, r). Inr (x # xs, r)))"

lemma ReadRecord_at: "rd_at c off rest r \<Longrightarrow> ReadRecord fs k r = ReadRecord_loop fs k r [] False [] 0"
  by (simp add: rd_at_def ReadRecord_def)

lemma ReadRecord_end:
  assumes "reads_from fs c" "rd_at c off [] r"
  shows "\<exists>r'. ReadRecord fs (Suc (Suc k)) r = Inr (None, r') \<and> rd_reports r' = rd_reports r"
proof -
  from read_physical_end [OF assms] obtain r1 where "ReadPhysicalRecord fs (Suc (Suc k)) r [] = Inr (kEof, [], r1)"
    "rd_reports r1 = rd_reports r" "\<not> rd_resyncing r1" by blast
  then show ?thesis unfolding ReadRecord_at [OF assms(2)]
    by (simp add: Let_def log_consts del: ReadPhysicalRecord.simps)
qed

lemma ReadRecords_AddRecords:
  assumes "appends_to fw cw" "reads_from fr cr"
  shows "lw_block_offset w \<le> kBlockSize \<Longrightarrow>
    \<exists>w' out. AddRecords fw w xs = Inr (True, w') \<and> cw (lw_dest w') = cw (lw_dest w) @ out \<and>
      (\<forall>r m k. rd_at cr (lw_block_offset w) out r \<longrightarrow> length out + 2 \<le> m \<longrightarrow> length xs < k \<longrightarrow>
        (\<exists>r'. ReadRecords fr m k r = Inr (xs, r') \<and> rd_reports r' = rd_reports r))"
proof (induction xs arbitrary: w)
  case Nil
  have "\<exists>r'. ReadRecords fr m k r = Inr ([], r') \<and> rd_reports r' = rd_reports r"
    if t: "rd_at cr (lw_block_offset w) [] r" "2 \<le> m" "0 < k" for r m k
  proof -
    obtain j i where "m = Suc (Suc j)" "k = Suc i" using t(2,3) by (cases m; cases "m - 1"; cases k) auto
    with ReadRecord_end [OF assms(2) t(1), of j] show ?thesis by auto
  qed
  then show ?case by auto
next
  case (Cons x xs)
  from AddRecord_loop_reads_back [OF assms Cons.prems, of True x] obtain w1 out1 where
    w1: "AddRecord fw w x = Inr (True, w1)" "cw (lw_dest w1) = cw (lw_dest w) @ out1" "lw_block_offset w1 \<le> kBlockSize"
      and rb: "reads_back fr cr (lw_block_offset w) out1 (lw_block_offset w1) True x" by (auto simp: AddRecord_def)
  from Cons.IH [OF w1(3)] obtain w2 out2 where w2: "AddRecords fw w1 xs = Inr (True, w2)" "cw (lw_dest w2) = cw (lw_dest w1) @ out2"
    and ih: "\<forall>r m k. rd_at cr (lw_block_offset w1) out2 r \<longrightarrow> length out2 + 2 \<le> m \<longrightarrow> length xs < k \<longrightarrow>
        (\<exists>r'. ReadRecords fr m k r = Inr (xs, r') \<and> rd_reports r' = rd_reports r)" by blast
  have "\<exists>r'. ReadRecords fr m k r = Inr (x # xs, r') \<and> rd_reports r' = rd_reports r"
    if r: "rd_at cr (lw_block_offset w) (out1 @ out2) r" "length (out1 @ out2) + 2 \<le> m" "length (x # xs) < k" for r m k
  proof -
    obtain i where i: "k = Suc i" "length xs < i" using r(3) by (cases k) auto
    obtain r1 where r1: "ReadRecord_loop fr m r [] False [] 0 = Inr (Some x, r1)" "rd_at cr (lw_block_offset w1) out2 r1"
      "rd_reports r1 = rd_reports r"
      using rb [unfolded reads_back_def, THEN spec, of r, THEN spec, of "[]", THEN spec, of out2, THEN spec, of m,
          THEN spec, of "[]", THEN spec, of 0] r(1,2) by auto
    moreover obtain r2 where "ReadRecords fr m i r1 = Inr (xs, r2)" "rd_reports r2 = rd_reports r1"
      using ih [THEN spec, of r1, THEN spec, of m, THEN spec, of i] r1(2) r(2) i(2) by auto
    ultimately show ?thesis using ReadRecord_at [OF r(1)] i(1) by auto
  qed
  then show ?case using w1 w2 by auto
qed

text \<open>A writer at the end of a block writes as one at the start of the next.\<close>

lemma AddRecords_block_end:
  "lw_block_offset w = 0 \<Longrightarrow> AddRecords fs (w\<lparr>lw_block_offset := kBlockSize\<rparr>) (x # xs) = AddRecords fs w (x # xs)"
proof -
  assume w: "lw_block_offset w = 0"
  then have "switch_block fs (w\<lparr>lw_block_offset := kBlockSize\<rparr>) = switch_block fs w"
    by (cases w) (simp add: switch_block_def Let_def kBlockSize_def kHeaderSize_def)
  then have "AddRecord fs (w\<lparr>lw_block_offset := kBlockSize\<rparr>) x = AddRecord fs w x"
    unfolding AddRecord_def AddRecord_loop.simps [of fs "w\<lparr>lw_block_offset := kBlockSize\<rparr>"]
      AddRecord_loop.simps [of fs w] using w by (simp add: kBlockSize_def)
  then show ?thesis by simp
qed

lemma log_read_back:
  assumes fw: "appends_to fw cw" and fr: "reads_from fr cr" and f: "cw f = []"
  obtains w where "AddRecords fw (Writer_new f) xs = Inr (True, w)"
    and "\<And>g m k. cr g = cw (lw_dest w) \<Longrightarrow> length (cr g) + 2 \<le> m \<Longrightarrow> length xs < k \<Longrightarrow>
      \<exists>r. ReadRecords fr m k (Reader_new g rep chk 0) = Inr (xs, r) \<and> rd_reports r = []"
proof -
  let ?w = "Writer_new f :: 'a Writer"
  obtain w where w: "AddRecords fw ?w xs = Inr (True, w)" "\<And>r m k. rd_at cr kBlockSize (cw (lw_dest w)) r \<Longrightarrow>
      length (cw (lw_dest w)) + 2 \<le> m \<Longrightarrow> length xs < k \<Longrightarrow>
      \<exists>r'. ReadRecords fr m k r = Inr (xs, r') \<and> rd_reports r' = rd_reports r"
  proof (cases xs)
    case Nil
    from ReadRecords_AddRecords [OF fw fr, of "?w\<lparr>lw_block_offset := kBlockSize\<rparr>" "[]"] show ?thesis
      using that [of ?w] Nil f by (auto simp: Writer_new_def)
  next
    case (Cons y ys)
    from ReadRecords_AddRecords [OF fw fr, of "?w\<lparr>lw_block_offset := kBlockSize\<rparr>" xs] obtain w out where
      "AddRecords fw (?w\<lparr>lw_block_offset := kBlockSize\<rparr>) xs = Inr (True, w)" "cw (lw_dest w) = out"
      "\<forall>r m k. rd_at cr kBlockSize out r \<longrightarrow> length out + 2 \<le> m \<longrightarrow> length xs < k \<longrightarrow>
        (\<exists>r'. ReadRecords fr m k r = Inr (xs, r') \<and> rd_reports r' = rd_reports r)"
      using f by (auto simp: Writer_new_def)
    moreover have "AddRecords fw (?w\<lparr>lw_block_offset := kBlockSize\<rparr>) xs = AddRecords fw ?w xs"
      unfolding Cons by (rule AddRecords_block_end) (simp add: Writer_new_def)
    ultimately show ?thesis using that [of w] by simp
  qed
  have at: "rd_at cr kBlockSize (cw (lw_dest w)) (Reader_new g rep chk 0)" if "cr g = cw (lw_dest w)" for g
    using that by (simp add: rd_at_def Reader_new_def)
  show thesis
  proof (rule that [OF w(1)])
    fix g m k assume "cr g = cw (lw_dest w)" "length (cr g) + 2 \<le> m" "length xs < k"
    with w(2) [OF at, of g m k] show "\<exists>r. ReadRecords fr m k (Reader_new g rep chk 0) = Inr (xs, r) \<and> rd_reports r = []"
      by (simp add: Reader_new_def)
  qed
qed

end
