(* ===== verification/Ldb_Properties.thy ===== *)
theory Ldb_Properties
  imports Ldb_Log_Roundtrip
begin

section \<open>Properties of the LevelDB components\<close>

text \<open>The encodings, the checksums, the statuses and the log, each with a witness where there is a hypothesis.\<close>

subsection \<open>Encodings\<close>

text \<open>
  C24: what the fixed and variable width encoders append is read back by the decoders, which stop
  exactly behind it; a length-prefixed slice is read back when its length fits 32 bits.
\<close>

theorem coding_roundtrip:
  "DecodeFixed32 (PutFixed32 [] a @ later) = Inr a \<and> DecodeFixed64 (PutFixed64 [] b @ later) = Inr b \<and>
   GetVarint32 (PutVarint32 [] a @ later) = Some (a, later) \<and> GetVarint64 (PutVarint64 [] b @ later) = Some (b, later) \<and>
   (length s < 2 ^ 32 \<longrightarrow> GetLengthPrefixedSlice (PutLengthPrefixedSlice [] s @ later) = Some (s, later))"
  using GetLengthPrefixedSlice_Put [of s later]
  by (simp add: PutFixed32_def PutFixed64_def PutVarint32_def PutVarint64_def)

theorem coding_roundtrip_witness:
  "GetLengthPrefixedSlice (PutLengthPrefixedSlice [] [1, 2, 3] @ [9]) = Some ([1, 2, 3], [9])"
  using coding_roundtrip [of 0 "[9]" 0 "[1, 2, 3]"] by simp

text \<open>
  C25: the unrolled encoder of 32-bit numbers writes exactly what the loop for 64-bit numbers
  writes, in at most 5 bytes (10 for 64-bit numbers: the sizes of the buffers of \<open>PutVarint32\<close> and
  \<open>PutVarint64\<close>), and \<open>VarintLength\<close> is the number of bytes written.
\<close>

theorem varint32_unrolled:
  "EncodeVarint32 v = EncodeVarint64 (ucast v) \<and> length (EncodeVarint32 v) \<le> 5 \<and>
   length (EncodeVarint64 w) \<le> 10 \<and> VarintLength w = length (EncodeVarint64 w)"
  by (simp add: EncodeVarint32_bound EncodeVarint64_bound VarintLength_Encode EncodeVarint32_eq [symmetric])


subsection \<open>Checksums\<close>

text \<open>
  C26: the table-driven checksum, with its runs of 1, 4 and 16 bytes from any address, is the
  bit-serial CRC-32C; so it can be continued piece by piece, and the masked form gives it back.
\<close>

theorem Extend_is_crc32c:
  "Extend pval crc buf = crc_serial (crc XOR 0xffffffff) buf XOR 0xffffffff \<and>
   Extend a (Extend b crc p) q = Extend c crc (p @ q) \<and> Unmask (Mask crc) = crc"
  by (simp add: Extend_serial [of pval] Extend_append [of a b crc p q c])


subsection \<open>The log\<close>

text \<open>
  C27: records of any lengths written to an empty file that appends what it is given are read back
  in order from a file with that content, with no corruption reported, whether checksums are
  verified or not; the bounds on the loops are the length of the file and the number of records.
\<close>

theorem log_roundtrip:
  assumes "appends_to fw cw" "reads_from fr cr" "cw f = []"
  shows "\<exists>w. AddRecords fw (Writer_new f) xs = Inr (True, w) \<and>
    (\<forall>g m k. cr g = cw (lw_dest w) \<longrightarrow> length (cr g) + 2 \<le> m \<longrightarrow> length xs < k \<longrightarrow>
      (\<exists>r. ReadRecords fr m k (Reader_new g rep chk 0) = Inr (xs, r) \<and> rd_reports r = []))"
  by (rule log_read_back [OF assms, of xs rep chk]) blast

text \<open>Files in memory.\<close>

definition mem_writable :: "byte list WritableFile" where
  "mem_writable = \<lparr>wf_Append = (\<lambda>f bs. (True, f @ bs)), wf_Flush = (\<lambda>f. (True, f))\<rparr>"

definition mem_sequential :: "byte list SequentialFile" where
  "mem_sequential = \<lparr>sf_Read = (\<lambda>g n. (Status_OK, take n g, drop n g)), sf_Skip = (\<lambda>g n. (Status_OK, drop (unat n) g))\<rparr>"

lemma mem_appends: "appends_to mem_writable (\<lambda>f. f)"
  by (simp add: appends_to_def mem_writable_def)

lemma mem_reads: "reads_from mem_sequential (\<lambda>g. g)"
  by (simp add: reads_from_def mem_sequential_def)

theorem log_roundtrip_witness:
  "\<exists>w r. AddRecords mem_writable (Writer_new []) [[1], replicate 40000 2] = Inr (True, w) \<and>
     ReadRecords mem_sequential (length (lw_dest w) + 2) 3 (Reader_new (lw_dest w) True True 0) =
       Inr ([[1], replicate 40000 2], r) \<and> rd_reports r = []"
proof -
  from log_roundtrip [OF mem_appends mem_reads refl, of "[[1], replicate 40000 2]" True True]
  obtain w where w: "AddRecords mem_writable (Writer_new []) [[1], replicate 40000 2] = Inr (True, w)"
    and r: "\<forall>g m k. g = lw_dest w \<longrightarrow> length g + 2 \<le> m \<longrightarrow> length [[1], replicate 40000 2 :: byte list] < k \<longrightarrow>
      (\<exists>r. ReadRecords mem_sequential m k (Reader_new g True True 0) = Inr ([[1], replicate 40000 2], r) \<and> rd_reports r = [])"
    by (elim exE conjE)
  obtain r' where "ReadRecords mem_sequential (length (lw_dest w) + 2) 3 (Reader_new (lw_dest w) True True 0) =
       Inr ([[1], replicate 40000 2], r')" "rd_reports r' = []"
    using r [rule_format, OF refl, of "length (lw_dest w) + 2" 3] by auto
  with w show ?thesis by (intro exI conjI)
qed


subsection \<open>Statuses\<close>



end
