(* ===== verification/Spec2Isabelle.thy ===== *)
theory Spec2Isabelle
  imports Store_Properties Statement_Properties Data_Properties Ldb_Properties
begin

text \<open>
  A verification of the DBMS18 database server, a relational database in C++ whose sources are under
  \<^verbatim>\<open>src/src\<close> (all paths below are relative to it). A client speaks the PostgreSQL protocol to a
  session; the session hands a query text to the parser and the tree it returns to the query
  realizer; the realizer checks names against the catalog, builds a tree of executors over
  expressions, and runs it or one of the commands for loading, exporting, inserting and creating;
  the executors read tuples through handlers of the level store, which keeps one LevelDB database
  per relation and the catalog in two system tables of its own.

  \<^bold>\<open>Conventions.\<close> \<open>DB_Prelude\<close> has the machine types (words), memory blocks whose cells may be
  uninitialised, the little-endian layout of integers, and the type \<open>res\<close> of results: \<open>Inr\<close> a value,
  \<open>Inl\<close> a fault, where a fault is a null pointer, an access out of bounds, a read of an uninitialised
  cell, a failed assertion, the end of the process, an exception, or the end of the fuel of a loop.
  \<open>bind_res\<close> sequences computations, so that every early end of the sources is a value. State is
  passed explicitly, in records with the members of the classes.

  \<^bold>\<open>Rows and queries.\<close>
  \<^item> \<open>Tuple_Store\<close> (\<^verbatim>\<open>common/tuple.cpp\<close>, \<^verbatim>\<open>include/common/slot.h\<close>, \<^verbatim>\<open>tuple.h\<close>, \<^verbatim>\<open>tuple_row.h\<close>): tuples as blocks
    with an array of slots. The image of a list of values, and that each slot leads to its value.
  \<^item> \<open>Db_Types\<close> (\<^verbatim>\<open>include/common/define.h\<close>, \<^verbatim>\<open>data_type.h\<close>): operator and type codes.
  \<^item> \<open>Expr_Eval\<close> (\<^verbatim>\<open>executor/const_value.cpp\<close>, \<^verbatim>\<open>slot_reference.cpp\<close>, \<^verbatim>\<open>compare.cpp\<close>, \<^verbatim>\<open>logic_expr.cpp\<close>):
    expressions on rows, and their meaning on values, which evaluation refines.
  \<^item> \<open>Iterator_Handler\<close> (\<^verbatim>\<open>storage/iterator_handler_impl.cpp\<close>): a cursor over a snapshot of a table.
  \<^item> \<open>Executor\<close> (\<^verbatim>\<open>executor/seq_scan.cpp\<close>, \<^verbatim>\<open>project.cpp\<close>, \<^verbatim>\<open>nested_loop_join.cpp\<close>, \<^verbatim>\<open>select.cpp\<close>): \<open>Prepare\<close>, \<open>Open\<close> and
    \<open>GetNext\<close> of a tree of executors. \<open>Plan_Semantics\<close> gives the relation of a plan, \<open>Plan_Correct\<close> shows
    that the rows come in that order and that enough fuel suffices (the fuel of \<open>GetNext\<close> bounds the
    rounds of the loops of the join and the selection; the number of rows of the inputs bounds them),
    \<open>Project_Encode\<close> and \<open>Plan_Values\<close> relate the bytes of a projection to values.
  \<^item> \<open>Query_Run\<close> (\<^verbatim>\<open>realizer/query_realizer.cpp\<close>, \<open>ExecSelect\<close>): the loop that sends rows; locale \<open>row_source\<close> is
    what it needs of an executor, interpreted on the plans.

  \<^bold>\<open>Client connections.\<close>
  \<^item> \<open>Message_Buffer\<close> (\<^verbatim>\<open>include/common/message.h\<close>): a buffer with capacity and size; writing behind the block
    is a fault.
  \<^item> \<open>Session_Send\<close> and \<open>Session_Recv\<close> (\<^verbatim>\<open>rrportal/session.cpp\<close>): the messages of the server, the startup
    packet, the command loop and the simple query. The socket is a parameter.

  \<^bold>\<open>The store.\<close>
  \<^item> \<open>Schema\<close> (\<^verbatim>\<open>common/attribute.cpp\<close>, \<^verbatim>\<open>relation.cpp\<close>, \<^verbatim>\<open>include/common/relation.h\<close>): catalog records and their
    tuples. \<open>Kv_Store\<close>: a LevelDB database as the sorted map that the store relies on, with the locale
    \<open>kv_laws\<close> of its laws. \<open>Level_Store\<close>, \<open>Store_Catalog\<close>, \<open>Store_Handles\<close>, \<open>Store_Reload\<close>, \<open>Store_Steps\<close>
    (\<^verbatim>\<open>storage/level_store.cpp\<close>, \<^verbatim>\<open>write_handler_impl.cpp\<close>): the operations of the store; the catalog in
    memory and on disk; handlers, their counts and the locks of the databases; reading the catalog
    at startup; sequences of operations as an inductive step relation with its invariants.

  \<^bold>\<open>Statements.\<close>
  \<^item> \<open>Parser_Ast\<close> (\<^verbatim>\<open>include/parser\<close>, \<^verbatim>\<open>parser/parser_context.cpp\<close>): syntax trees and their construction.
  \<^item> \<open>Realizer\<close>, \<open>Realizer_Check\<close>, \<open>Realizer_Build\<close>, \<open>Realizer_Select\<close>, \<open>Realizer_Exec\<close>
    (\<^verbatim>\<open>realizer/query_realizer.cpp\<close>): checking, building and executing every statement, and what the
    destructor gives back.
  \<^item> \<open>Csv\<close> (\<^verbatim>\<open>include/common/minicsv.h\<close>), \<open>Copy\<close>, \<open>Copy_Load\<close>, \<open>Copy_Exec\<close>, \<open>Copy_Export\<close>
    (\<^verbatim>\<open>executor/load.cpp\<close>, \<^verbatim>\<open>export.cpp\<close>, \<^verbatim>\<open>insert_value.cpp\<close>): text files and the commands over them.
  \<^item> \<open>Server_Query\<close>, \<open>Server_Select\<close>, \<open>Server_Statements\<close>: a query message from its receipt to the
    ready message.

  \<^bold>\<open>LevelDB\<close> (\<^verbatim>\<open>storage/leveldb\<close>), the parts below the sorted map.
  \<^item> \<open>Ldb_Coding\<close> (\<^verbatim>\<open>util/coding.cc\<close>, \<^verbatim>\<open>coding.h\<close>): numbers and slices as bytes, with round trips.
  \<^item> \<open>Ldb_Crc\<close> (\<^verbatim>\<open>util/crc32c.cc\<close>): the table-driven checksum, equal to the bit-serial one.
  \<^item> \<open>Ldb_Status\<close> (\<^verbatim>\<open>include/leveldb/status.h\<close>, \<^verbatim>\<open>slice.h\<close>, \<^verbatim>\<open>util/status.cc\<close>): statuses and slices.
  \<^item> \<open>Ldb_Log\<close> and \<open>Ldb_Log_Roundtrip\<close> (\<^verbatim>\<open>db/log_writer.cc\<close>, \<^verbatim>\<open>log_reader.cc\<close>): the log of records; the fuel of the
    reader bounds its physical records, of which there are at most as many as bytes.

  \<^bold>\<open>Properties.\<close> This theory has the properties of a query over all components. \<open>Store_Properties\<close>
  has those of the store, \<open>Statement_Properties\<close> those of the other statements, \<open>Data_Properties\<close>
  those of formats, expressions, catalog and startup, and \<open>Ldb_Properties\<close> those of the LevelDB
  parts. \<open>Witness_Data\<close> has the concrete store, plan and network on which they are applied. A
  theorem about a loop with fuel says which amount is enough or that some amount is, and
  \<open>fuel_independent\<close> that the result of a query does not depend on it.

  \<^bold>\<open>Not modelled.\<close>
  The scanner and the grammar are inputs of flex and bison; the function from texts to trees is a
  parameter of the server. The portal, the server's socket code, the client and the programs for
  tests only move bytes between boost and the session. The executors for hash joins, merge joins
  and sorting are empty stubs. The allocator of PostgreSQL (\<^verbatim>\<open>postgres/aset.c\<close>, \<^verbatim>\<open>mcxt.c\<close>) is built but
  never called. Conversions between texts and doubles or dates, and the clock, are parameters.
  Of LevelDB, compaction, version sets and the environment of files and threads are not modelled.
  Threads are not modelled: operations of several clients are interleaved as sequences of whole
  operations.
\<close>

section \<open>Queries\<close>





text \<open>
  C3: \<open>Check\<close> and \<open>Build\<close> produce well-typed plans. For a statement over different tables without
  negation, the plan is a projection over scans, selections and left-deep joins; it reads only
  slots of the tables of the statement, its predicates and columns are typed by their schemas,
  and every table has an iterator over its present content.
\<close>

theorem select_plan_typed:
  assumes "Check st (AST_Select s) QueryRealizer_new = Inr (kStateOK, q)"
    and "Build st (AST_Select s) q = Inr (kStateOK, st', q')"
    and "select_ok st s tf" "T = from_tables st tf"
    and "\<forall>i \<in> set (ids T). map_of (iterator_handler_map st) i = None"
  shows "\<exists>l. top_exec q' = Some (Project_new l (projection_list q') (length T)) \<and>
    plan_ok (length T) l \<and> relids l = set (ids T) \<and>
    (\<forall>DB. db_typed T DB \<longrightarrow> plan_typed (schema_of T) DB l) \<and>
    attrs_typed (schema_of T) (positions l) (output_row_desc q') (projection_list q') \<and>
    opened st (set (ids T)) st'"
  using select_plan [OF assms(1-3)] assms(4,5) by (auto simp: plan_over_def ids_def)

theorem select_plan_typed_witness:
  "\<exists>l. top_exec (snd (snd w_built)) = Some (Project_new l w_attrs 1) \<and>
    (\<forall>DB. db_typed [(''T'', w_rel)] DB \<longrightarrow> plan_typed [[kDTInteger, kDTVarchar]] DB l)"
proof -
  have i: "\<forall>i \<in> set (ids [(''T'', w_rel)]). map_of (iterator_handler_map w_store) i = None" by (simp add: w_store_def)
  have s: "schema_of [(''T'', w_rel)] = [[kDTInteger, kDTVarchar]]" by (simp add: schema_of_def w_rel_def)
  from select_plan_typed [OF w_check w_build w_select_ok w_from_tables [symmetric] i] show ?thesis
    unfolding s w_built_plan(3) by auto
qed

end
